(* ===== verification/Prelude.thy ===== *)
theory Prelude
  imports Main "HOL-Library.Word" "HOL-Library.Char_ord" "HOL-Library.List_Lexorder" "HOL-Library.Sublist"
begin

text \<open>
  What every other theory of the development shares: the exceptions of the program, the error
  numbers it reports, the fragment of \<^verbatim>\<open>std::string\<close> it uses (search, substrings, conversion of
  numbers), and the composition of operations that may throw.
\<close>

section \<open>Collections of rules\<close>

named_theorems prog_simps \<open>unfolding rules of operation composition\<close>
named_theorems keeps_rules \<open>rules that an operation keeps a predicate of its state\<close>

section \<open>Exceptions and error numbers\<close>

text \<open>
  The exceptions that the sources throw or that the standard library throws on their behalf.
  \<open>Terminate\<close> is \<^verbatim>\<open>std::terminate\<close> (an exception that leaves a destructor) and \<open>UB\<close> marks
  executions that C++ gives no meaning (a null pointer or an empty optional is dereferenced).
\<close>

datatype exn =
    SdBusError int string
  | ResourceError int string
  | JsonError nat
  | InvalidArgument string
  | OutOfRange string
  | FilesystemError
  | RuntimeError string
  | Terminate
  | UB string

definition EPERM :: int where "EPERM = 1"
definition ENOENT :: int where "ENOENT = 2"
definition EIO :: int where "EIO = 5"
definition EAGAIN :: int where "EAGAIN = 11"
definition EACCES :: int where "EACCES = 13"
definition EBUSY :: int where "EBUSY = 16"
definition EINVAL :: int where "EINVAL = 22"
definition ERANGE :: int where "ERANGE = 34"
definition EPROTO :: int where "EPROTO = 71"
definition EOPNOTSUPP :: int where "EOPNOTSUPP = 95"
definition EADDRNOTAVAIL :: int where "EADDRNOTAVAIL = 99"
definition ENETUNREACH :: int where "ENETUNREACH = 101"
definition ENOTCONN :: int where "ENOTCONN = 107"
definition ETIMEDOUT :: int where "ETIMEDOUT = 110"
definition ECONNREFUSED :: int where "ECONNREFUSED = 111"
definition EHOSTDOWN :: int where "EHOSTDOWN = 112"
definition EHOSTUNREACH :: int where "EHOSTUNREACH = 113"
definition EINPROGRESS :: int where "EINPROGRESS = 115"
definition ECANCELED :: int where "ECANCELED = 125"

lemmas errno_defs = EPERM_def ENOENT_def EIO_def EAGAIN_def EACCES_def EBUSY_def EINVAL_def
  ERANGE_def EPROTO_def EOPNOTSUPP_def EADDRNOTAVAIL_def ENETUNREACH_def ENOTCONN_def
  ETIMEDOUT_def ECONNREFUSED_def EHOSTDOWN_def EHOSTUNREACH_def EINPROGRESS_def ECANCELED_def

section \<open>Operations that may throw\<close>

text \<open>
  An operation takes the state and returns its result, or the exception it throws, with the state
  it leaves. \<open>bindM\<close> runs one operation after another and stops at an exception; the state
  changed so far stays changed, as in the program.
\<close>

type_synonym ('s, 'a) prog = "'s \<Rightarrow> (exn + 'a) \<times> 's"

definition returnM :: "'a \<Rightarrow> ('s, 'a) prog" where
  "returnM a s = (Inr a, s)"

definition throwM :: "exn \<Rightarrow> ('s, 'a) prog" where
  "throwM e s = (Inl e, s)"

definition bindM :: "('s, 'a) prog \<Rightarrow> ('a \<Rightarrow> ('s, 'b) prog) \<Rightarrow> ('s, 'b) prog" where
  "bindM m f s = (case m s of (Inl e, s') \<Rightarrow> (Inl e, s') | (Inr a, s') \<Rightarrow> f a s')"

definition thenM :: "('s, 'a) prog \<Rightarrow> ('s, 'b) prog \<Rightarrow> ('s, 'b) prog" where
  "thenM m n = bindM m (\<lambda>_. n)"

definition catchM :: "('s, 'a) prog \<Rightarrow> (exn \<Rightarrow> ('s, 'a) prog) \<Rightarrow> ('s, 'a) prog" where
  "catchM m h s = (case m s of (Inl e, s') \<Rightarrow> h e s' | (Inr a, s') \<Rightarrow> (Inr a, s'))"

definition getM :: "('s \<Rightarrow> 'a) \<Rightarrow> ('s, 'a) prog" where
  "getM f s = (Inr (f s), s)"

definition modifyM :: "('s \<Rightarrow> 's) \<Rightarrow> ('s, unit) prog" where
  "modifyM f s = (Inr (), f s)"

definition whenM :: "bool \<Rightarrow> ('s, unit) prog \<Rightarrow> ('s, unit) prog" where
  "whenM b m = (if b then m else returnM ())"

definition liftE :: "exn + 'a \<Rightarrow> ('s, 'a) prog" where
  "liftE r s = (r, s)"

fun forM :: "'a list \<Rightarrow> ('a \<Rightarrow> ('s, unit) prog) \<Rightarrow> ('s, unit) prog" where
  "forM [] f = returnM ()"
| "forM (x # xs) f = thenM (f x) (forM xs f)"

declare returnM_def [prog_simps] throwM_def [prog_simps] getM_def [prog_simps]
  modifyM_def [prog_simps] liftE_def [prog_simps] thenM_def [prog_simps] whenM_def [prog_simps]

lemma bindM_simps [simp, prog_simps]:
  "bindM (returnM a) f = f a"
  "bindM (throwM e) f = throwM e"
  "bindM (getM g) f = (\<lambda>s. f (g s) s)"
  "bindM (modifyM h) f2 = (\<lambda>s. f2 () (h s))"
  "bindM (liftE (Inr a)) f = f a"
  "bindM (liftE (Inl e)) f = throwM e"
  by (auto simp: bindM_def returnM_def throwM_def getM_def modifyM_def liftE_def)

lemma bindM_Inr: "m s = (Inr a, s') \<Longrightarrow> bindM m f s = f a s'"
  by (simp add: bindM_def)

lemma bindM_Inl: "m s = (Inl e, s') \<Longrightarrow> bindM m f s = (Inl e, s')"
  by (simp add: bindM_def)

lemma bindM_assoc: "bindM (bindM m f) g = bindM m (\<lambda>a. bindM (f a) g)"
  by (rule ext) (auto simp: bindM_def split: prod.splits sum.splits)

lemma bindM_cases:
  assumes "bindM m f s = (r, s'')"
  obtains (throws) e where "m s = (Inl e, s'')" and "r = Inl e"
    | (returns) a s' where "m s = (Inr a, s')" and "f a s' = (r, s'')"
  using assms by (auto simp: bindM_def split: prod.splits sum.splits)

subsection \<open>Predicates an operation keeps\<close>

text \<open>
  \<open>keeps P m\<close>: whatever \<open>m\<close> does, throwing included, \<open>P\<close> of the state before gives \<open>P\<close> of the
  state after. The rules follow the structure of the operation, so that a frame property of a
  long handler is proved by its own syntax.
\<close>

definition keeps :: "('s \<Rightarrow> bool) \<Rightarrow> ('s, 'a) prog \<Rightarrow> bool" where
  "keeps P m \<longleftrightarrow> (\<forall>s. P s \<longrightarrow> P (snd (m s)))"

lemma keepsI: "(\<And>s. P s \<Longrightarrow> P (snd (m s))) \<Longrightarrow> keeps P m"
  by (simp add: keeps_def)

lemma keepsD: "keeps P m \<Longrightarrow> P s \<Longrightarrow> P (snd (m s))"
  by (simp add: keeps_def)

lemma keeps_result: "keeps P m \<Longrightarrow> P s \<Longrightarrow> m s = (r, s') \<Longrightarrow> P s'"
  by (metis keepsD snd_conv)

lemma keeps_return [keeps_rules]: "keeps P (returnM a)"
  by (simp add: keeps_def returnM_def)

lemma keeps_throw [keeps_rules]: "keeps P (throwM e)"
  by (simp add: keeps_def throwM_def)

lemma keeps_get [keeps_rules]: "keeps P (getM f)"
  by (simp add: keeps_def getM_def)

lemma keeps_liftE [keeps_rules]: "keeps P (liftE r)"
  by (simp add: keeps_def liftE_def)

lemma keeps_modify: "(\<And>s. P s \<Longrightarrow> P (f s)) \<Longrightarrow> keeps P (modifyM f)"
  by (simp add: keeps_def modifyM_def)

lemma keeps_bind [keeps_rules]:
  "keeps P m \<Longrightarrow> (\<And>a. keeps P (f a)) \<Longrightarrow> keeps P (bindM m f)"
  by (auto simp: keeps_def bindM_def split: prod.splits sum.splits; metis snd_conv)

lemma keeps_then [keeps_rules]: "keeps P m \<Longrightarrow> keeps P n \<Longrightarrow> keeps P (thenM m n)"
  by (simp add: thenM_def keeps_bind)

lemma keeps_catch [keeps_rules]:
  "keeps P m \<Longrightarrow> (\<And>e. keeps P (h e)) \<Longrightarrow> keeps P (catchM m h)"
  by (auto simp: keeps_def catchM_def split: prod.splits sum.splits; metis snd_conv)

lemma keeps_when [keeps_rules]: "(b \<Longrightarrow> keeps P m) \<Longrightarrow> keeps P (whenM b m)"
  by (simp add: whenM_def keeps_return)

lemma keeps_if [keeps_rules]:
  "(b \<Longrightarrow> keeps P m) \<Longrightarrow> (\<not> b \<Longrightarrow> keeps P n) \<Longrightarrow> keeps P (if b then m else n)"
  by simp

lemma keeps_option [keeps_rules]:
  "keeps P m \<Longrightarrow> (\<And>x. keeps P (f x)) \<Longrightarrow>
   keeps P (case opt of None \<Rightarrow> m | Some x \<Rightarrow> f x)"
  by (simp split: option.splits)

lemma keeps_for [keeps_rules]: "(\<And>x. keeps P (f x)) \<Longrightarrow> keeps P (forM xs f)"
  by (induction xs) (auto intro: keeps_rules)

subsection \<open>The exceptions an operation may throw\<close>

text \<open>\<open>throws_only P A m\<close>: from a state in \<open>P\<close> an exception of \<open>m\<close> is in \<open>A\<close>, and the state after is
  in \<open>P\<close> again, so that the rules compose.\<close>

definition throws_only :: "('s \<Rightarrow> bool) \<Rightarrow> (exn \<Rightarrow> bool) \<Rightarrow> ('s, 'a) prog \<Rightarrow> bool" where
  "throws_only P A m \<longleftrightarrow>
     (\<forall>s. P s \<longrightarrow> P (snd (m s)) \<and> (case fst (m s) of Inl e \<Rightarrow> A e | Inr _ \<Rightarrow> True))"

named_theorems throws_rules \<open>rules for the exceptions of an operation\<close>

lemma throws_onlyD:
  "throws_only P A m \<Longrightarrow> P s \<Longrightarrow> m s = (Inl e, s') \<Longrightarrow> A e"
  by (auto simp: throws_only_def split: sum.splits dest!: spec [of _ s])

lemma throws_only_keeps: "throws_only P A m \<Longrightarrow> keeps P m"
  by (simp add: throws_only_def keeps_def)

lemma throws_bind [throws_rules]:
  "throws_only P A m \<Longrightarrow> (\<And>a. throws_only P A (f a)) \<Longrightarrow> throws_only P A (bindM m f)"
  unfolding throws_only_def bindM_def
  by (auto split: prod.splits sum.splits) (metis fst_conv snd_conv old.sum.simps(5))+

lemma throws_then [throws_rules]:
  "throws_only P A m \<Longrightarrow> throws_only P A n \<Longrightarrow> throws_only P A (thenM m n)"
  by (simp add: thenM_def throws_bind)

lemma throws_return [throws_rules]: "throws_only P A (returnM a)"
  by (simp add: throws_only_def returnM_def)

lemma throws_throw: "A e \<Longrightarrow> throws_only P A (throwM e)"
  by (simp add: throws_only_def throwM_def)

lemma throws_get [throws_rules]: "throws_only P A (getM f)"
  by (simp add: throws_only_def getM_def)

lemma throws_modify: "(\<And>s. P s \<Longrightarrow> P (f s)) \<Longrightarrow> throws_only P A (modifyM f)"
  by (simp add: throws_only_def modifyM_def)

lemma throws_if [throws_rules]:
  "(b \<Longrightarrow> throws_only P A m) \<Longrightarrow> (\<not> b \<Longrightarrow> throws_only P A n) \<Longrightarrow>
   throws_only P A (if b then m else n)"
  by simp

lemma throws_when [throws_rules]: "(b \<Longrightarrow> throws_only P A m) \<Longrightarrow> throws_only P A (whenM b m)"
  by (simp add: whenM_def throws_return)

lemma throws_option [throws_rules]:
  "throws_only P A m \<Longrightarrow> (\<And>x. throws_only P A (f x)) \<Longrightarrow>
   throws_only P A (case opt of None \<Rightarrow> m | Some x \<Rightarrow> f x)"
  by (simp split: option.splits)

lemma throws_catch:
  "throws_only P B m \<Longrightarrow> (\<And>e. B e \<Longrightarrow> throws_only P A (h e)) \<Longrightarrow> throws_only P A (catchM m h)"
  unfolding throws_only_def catchM_def
  by (auto split: prod.splits sum.splits) (metis fst_conv snd_conv old.sum.simps(5))+

lemma throws_for [throws_rules]: "(\<And>x. throws_only P A (f x)) \<Longrightarrow> throws_only P A (forM xs f)"
  by (induction xs) (auto intro: throws_rules)

subsection \<open>Assertions before and after\<close>

text \<open>\<open>triple P m Q X\<close>: from a state in \<open>P\<close>, a result and the state after it satisfy \<open>Q\<close>, an exception
  and the state after it satisfy \<open>X\<close>.\<close>

definition triple ::
    "('s \<Rightarrow> bool) \<Rightarrow> ('s, 'a) prog \<Rightarrow> ('a \<Rightarrow> 's \<Rightarrow> bool) \<Rightarrow> (exn \<Rightarrow> 's \<Rightarrow> bool) \<Rightarrow> bool" where
  "triple P m Q X \<longleftrightarrow>
     (\<forall>s. P s \<longrightarrow> (case m s of (Inr a, s') \<Rightarrow> Q a s' | (Inl e, s') \<Rightarrow> X e s'))"

named_theorems triple_rules \<open>rules for assertions\<close>

lemma triple_Inr: "triple P m Q X \<Longrightarrow> P s \<Longrightarrow> m s = (Inr a, s') \<Longrightarrow> Q a s'"
  by (fastforce simp: triple_def)

lemma triple_Inl: "triple P m Q X \<Longrightarrow> P s \<Longrightarrow> m s = (Inl e, s') \<Longrightarrow> X e s'"
  by (fastforce simp: triple_def)

lemma tripleI:
  assumes "\<And>s a s'. P s \<Longrightarrow> m s = (Inr a, s') \<Longrightarrow> Q a s'"
    and "\<And>s e s'. P s \<Longrightarrow> m s = (Inl e, s') \<Longrightarrow> X e s'"
  shows "triple P m Q X"
  using assms by (auto simp: triple_def split: prod.splits sum.splits)

lemma triple_return: "(\<And>s. P s \<Longrightarrow> Q a s) \<Longrightarrow> triple P (returnM a) Q X"
  by (simp add: triple_def returnM_def)

lemma triple_throw: "(\<And>s. P s \<Longrightarrow> X e s) \<Longrightarrow> triple P (throwM e) Q X"
  by (simp add: triple_def throwM_def)

lemma triple_modify: "(\<And>s. P s \<Longrightarrow> Q () (f s)) \<Longrightarrow> triple P (modifyM f) Q X"
  by (simp add: triple_def modifyM_def)

lemma triple_liftE:
  "(\<And>s a. P s \<Longrightarrow> r = Inr a \<Longrightarrow> Q a s) \<Longrightarrow> (\<And>s e. P s \<Longrightarrow> r = Inl e \<Longrightarrow> X e s) \<Longrightarrow>
   triple P (liftE r) Q X"
  by (cases r) (simp_all add: triple_def liftE_def)

lemma triple_bind:
  "triple P m R X \<Longrightarrow> (\<And>a. triple (R a) (f a) Q X) \<Longrightarrow> triple P (bindM m f) Q X"
  unfolding triple_def bindM_def by (fastforce split: prod.splits sum.splits)

lemma triple_then: "triple P m (\<lambda>_. R) X \<Longrightarrow> triple R n Q X \<Longrightarrow> triple P (thenM m n) Q X"
  unfolding thenM_def by (rule triple_bind)

lemma triple_get: "(\<And>x. triple (\<lambda>s. P s \<and> f s = x) (g x) Q X) \<Longrightarrow> triple P (bindM (getM f) g) Q X"
  by (simp add: triple_def)

lemma triple_catch:
  "triple P m Q R \<Longrightarrow> (\<And>e. triple (R e) (h e) Q X) \<Longrightarrow> triple P (catchM m h) Q X"
  unfolding triple_def catchM_def by (fastforce split: prod.splits sum.splits)

lemma triple_if:
  "(b \<Longrightarrow> triple P m Q X) \<Longrightarrow> (\<not> b \<Longrightarrow> triple P n Q X) \<Longrightarrow> triple P (if b then m else n) Q X"
  by simp

lemma triple_when:
  "(b \<Longrightarrow> triple P m Q X) \<Longrightarrow> (\<And>s. \<not> b \<Longrightarrow> P s \<Longrightarrow> Q () s) \<Longrightarrow> triple P (whenM b m) Q X"
  by (simp add: whenM_def triple_return)

lemma triple_option:
  "(opt = None \<Longrightarrow> triple P m Q X) \<Longrightarrow> (\<And>x. opt = Some x \<Longrightarrow> triple P (f x) Q X) \<Longrightarrow>
   triple P (case opt of None \<Rightarrow> m | Some x \<Rightarrow> f x) Q X"
  by (simp split: option.splits)

lemma triple_weaken:
  "triple P m Q X \<Longrightarrow> (\<And>s. P' s \<Longrightarrow> P s) \<Longrightarrow> (\<And>a s. Q a s \<Longrightarrow> Q' a s) \<Longrightarrow> (\<And>e s. X e s \<Longrightarrow> X' e s) \<Longrightarrow>
   triple P' m Q' X'"
  unfolding triple_def by (fastforce split: prod.splits sum.splits)

lemma triple_pre: "triple P m Q X \<Longrightarrow> (\<And>s. P' s \<Longrightarrow> P s) \<Longrightarrow> triple P' m Q X"
  by (erule triple_weaken)

lemma triple_cong: "triple P m' Q X \<Longrightarrow> (\<And>s. P s \<Longrightarrow> m s = m' s) \<Longrightarrow> triple P m Q X"
  by (simp add: triple_def)

lemma triple_keeps: "triple P m (\<lambda>_. P) (\<lambda>_. P) \<longleftrightarrow> keeps P m"
  by (simp add: triple_def keeps_def split_def sum.case_eq_if)

subsection \<open>Functions that may not throw\<close>

text \<open>An exception that leaves a destructor or the function of a thread is \<^verbatim>\<open>std::terminate\<close>.\<close>

definition noexceptM :: "('s, 'a) prog \<Rightarrow> ('s, 'a) prog" where
  "noexceptM m = catchM m (\<lambda>e. throwM (case e of UB s \<Rightarrow> UB s | _ \<Rightarrow> Terminate))"

text \<open>The exceptions that a handler in the program can catch.\<close>

definition catchable :: "exn \<Rightarrow> bool" where
  "catchable e = (case e of UB _ \<Rightarrow> False | Terminate \<Rightarrow> False | _ \<Rightarrow> True)"

lemma catchable_simps [simp]:
  "catchable (SdBusError i s)" "catchable (ResourceError i s)" "catchable FilesystemError"
  "catchable (RuntimeError s)" "catchable (InvalidArgument s)" "catchable (OutOfRange s)"
  "catchable (JsonError n)" "\<not> catchable (UB m)" "\<not> catchable Terminate"
  by (simp_all add: catchable_def)

lemma noexceptM_throws: "noexceptM m s = (Inl e, s') \<Longrightarrow> \<not> catchable e"
  by (auto simp: noexceptM_def catchM_def throwM_def split: prod.splits sum.splits exn.splits)

lemma keeps_noexceptM: "keeps P m \<Longrightarrow> keeps P (noexceptM m)"
  unfolding noexceptM_def by (intro keeps_catch keeps_throw)

end
