(* ===== verification/CxxString.thy ===== *)
theory CxxString
  imports Prelude
begin

text \<open>
  The operations of \<^verbatim>\<open>std::string\<close> and the number conversions of the standard library that the
  program uses, on strings of bytes (\<^verbatim>\<open>char\<close>). A position \<^verbatim>\<open>npos\<close> is \<open>None\<close>.
\<close>

section \<open>Searching and cutting\<close>

definition starts_with :: "string \<Rightarrow> string \<Rightarrow> bool" where
  "starts_with s p = (take (length p) s = p)"

fun find_str :: "string \<Rightarrow> string \<Rightarrow> nat option" where
  "find_str p [] = (if p = [] then Some 0 else None)"
| "find_str p (c # s) = (if starts_with (c # s) p then Some 0 else map_option Suc (find_str p s))"

fun find_last_of :: "char list \<Rightarrow> string \<Rightarrow> nat option" where
  "find_last_of cs [] = None"
| "find_last_of cs (c # s) =
     (case find_last_of cs s of
        Some i \<Rightarrow> Some (Suc i)
      | None \<Rightarrow> if c \<in> set cs then Some 0 else None)"

text \<open>\<^verbatim>\<open>c_str()\<close>, read back as a text: it ends at the first null character.\<close>

definition c_str :: "string \<Rightarrow> string" where
  "c_str s = takeWhile (\<lambda>c. c \<noteq> CHR 0x00) s"

definition substr :: "string \<Rightarrow> nat \<Rightarrow> exn + string" where
  "substr s pos = (if pos \<le> length s then Inr (drop pos s) else Inl (OutOfRange ''basic_string::substr''))"

definition substr_n :: "string \<Rightarrow> nat \<Rightarrow> nat \<Rightarrow> exn + string" where
  "substr_n s pos n =
     (if pos \<le> length s then Inr (take n (drop pos s)) else Inl (OutOfRange ''basic_string::substr''))"

fun join :: "string \<Rightarrow> string list \<Rightarrow> string" where
  "join sep [] = ''''"
| "join sep [x] = x"
| "join sep (x # y # ys) = x @ sep @ join sep (y # ys)"

lemma starts_with_append [simp]: "starts_with (p @ s) p"
  by (simp add: starts_with_def)

lemma starts_with_iff: "starts_with s p \<longleftrightarrow> (\<exists>t. s = p @ t)"
proof
  assume "starts_with s p"
  then have "s = p @ drop (length p) s"
    by (metis append_take_drop_id starts_with_def)
  then show "\<exists>t. s = p @ t" by blast
qed auto

lemma starts_with_Nil [simp]: "starts_with s []"
  by (simp add: starts_with_def)

lemma find_str_Some:
  "find_str p s = Some i \<Longrightarrow> i + length p \<le> length s \<and> take (length p) (drop i s) = p"
proof (induction p s arbitrary: i rule: find_str.induct)
  case (2 p c s)
  show ?case
  proof (cases "starts_with (c # s) p")
    case True
    then have "find_str p (c # s) = Some 0" by simp
    with True 2 show ?thesis
      by (metis append_take_drop_id diff_zero drop0 le_add1 length_append length_take
          min.cobounded2 option.inject starts_with_def add_0)
  next
    case False
    with 2 show ?thesis by auto
  qed
qed (auto split: if_splits)

lemma find_str_first:
  "find_str p s = Some i \<Longrightarrow> j < i \<Longrightarrow> take (length p) (drop j s) \<noteq> p"
proof (induction p s arbitrary: i j rule: find_str.induct)
  case (2 p c s)
  then show ?case
    by (cases j) (auto simp: starts_with_def split: if_splits)
qed (auto split: if_splits)

lemma find_str_Some_zero: "find_str p s = Some 0 \<longleftrightarrow> starts_with s p"
  by (cases s) (auto simp: starts_with_def)

lemma find_str_char: "find_str [c] s = Some i \<Longrightarrow> i < length s \<and> s ! i = c \<and> c \<notin> set (take i s)"
proof (induction s arbitrary: i)
  case (Cons a s)
  then show ?case by (cases i) (auto simp: starts_with_def split: if_splits)
qed simp

lemma find_str_char_None: "find_str [c] s = None \<longleftrightarrow> c \<notin> set s"
  by (induction s) (auto simp: starts_with_def)

lemma find_last_of_None: "find_last_of cs s = None \<longleftrightarrow> set s \<inter> set cs = {}"
  by (induction s) (auto split: option.splits)

lemma find_last_of_Some:
  "find_last_of cs s = Some i \<Longrightarrow> i < length s \<and> s ! i \<in> set cs \<and> set (drop (Suc i) s) \<inter> set cs = {}"
proof (induction s arbitrary: i)
  case (Cons c s)
  then show ?case
    by (auto simp: find_last_of_None split: option.splits if_splits)
qed simp

lemma find_last_of_append:
  assumes "set t \<inter> set cs = {}" and "c \<in> set cs"
  shows "find_last_of cs (s @ c # t) = Some (length s)"
  using assms by (induction s) (auto simp: find_last_of_None split: option.splits)

section \<open>Numbers to strings\<close>

definition digit_char :: "nat \<Rightarrow> char" where
  "digit_char d = char_of (48 + d)"

fun nat_str :: "nat \<Rightarrow> string" where
  "nat_str n = (if n < 10 then [digit_char n] else nat_str (n div 10) @ [digit_char (n mod 10)])"

declare nat_str.simps [simp del]

definition to_string :: "int \<Rightarrow> string" where
  "to_string i = (if i < 0 then ''-'' @ nat_str (nat (- i)) else nat_str (nat i))"

section \<open>Strings to numbers\<close>

text \<open>\<^verbatim>\<open>isspace\<close> in the C locale, and the value of a digit in a base up to 16.\<close>

definition is_space :: "char \<Rightarrow> bool" where
  "is_space c = (let n = (of_char c :: nat) in n = 32 \<or> (9 \<le> n \<and> n \<le> 13))"

definition isdigit :: "char \<Rightarrow> bool" where
  "isdigit c = (let n = (of_char c :: nat) in 48 \<le> n \<and> n \<le> 57)"

definition digit_val :: "nat \<Rightarrow> char \<Rightarrow> nat option" where
  "digit_val base c =
     (let n = (of_char c :: nat);
          v = (if 48 \<le> n \<and> n \<le> 57 then n - 48
               else if 97 \<le> n \<and> n \<le> 102 then n - 87
               else if 65 \<le> n \<and> n \<le> 70 then n - 55 else 99)
      in if v < base then Some v else None)"

text \<open>The longest prefix of digits: its value and how many digits it has.\<close>

fun digits :: "nat \<Rightarrow> nat \<Rightarrow> string \<Rightarrow> nat \<times> nat" where
  "digits base acc [] = (acc, 0)"
| "digits base acc (c # s) =
     (case digit_val base c of
        None \<Rightarrow> (acc, 0)
      | Some d \<Rightarrow> (case digits base (base * acc + d) s of (v, n) \<Rightarrow> (v, Suc n)))"

definition split_sign :: "string \<Rightarrow> bool \<times> string" where
  "split_sign s =
     (case dropWhile is_space s of
        [] \<Rightarrow> (False, [])
      | c # t \<Rightarrow> if c = CHR ''-'' then (True, t)
                 else if c = CHR ''+'' then (False, t) else (False, c # t))"

text \<open>\<^verbatim>\<open>std::stoi\<close> in base 10, on a 32-bit \<^verbatim>\<open>int\<close>.\<close>

definition stoi :: "string \<Rightarrow> exn + int" where
  "stoi s =
     (let (neg, t) = split_sign s;
          (v, n) = digits 10 0 t;
          i = (if neg then - int v else int v)
      in if n = 0 then Inl (InvalidArgument ''stoi'')
         else if i < - (2 ^ 31) \<or> 2 ^ 31 \<le> i then Inl (OutOfRange ''stoi'')
         else Inr i)"

text \<open>
  \<^verbatim>\<open>std::stoul(s, 0, 0)\<close>: the base is read from the prefix (\<^verbatim>\<open>0x\<close> before a hexadecimal digit,
  \<^verbatim>\<open>0\<close>, otherwise decimal), a minus sign negates in \<^verbatim>\<open>unsigned long\<close>, whose width is \<open>w\<close>.
\<close>

definition number_base :: "string \<Rightarrow> nat \<times> string" where
  "number_base t =
     (if starts_with t ''0x'' \<or> starts_with t ''0X''
      then (if drop 2 t \<noteq> [] \<and> digit_val 16 (hd (drop 2 t)) \<noteq> None then (16, drop 2 t) else (8, t))
      else if starts_with t ''0'' then (8, t) else (10, t))"

definition stoul0 :: "nat \<Rightarrow> string \<Rightarrow> exn + nat" where
  "stoul0 w s =
     (let (neg, t) = split_sign s;
          (base, u) = number_base t;
          (v, n) = digits base 0 u
      in if n = 0 then Inl (InvalidArgument ''stoul'')
         else if 2 ^ w \<le> v then Inl (OutOfRange ''stoul'')
         else Inr (if neg then nat ((- int v) mod 2 ^ w) else v))"

subsection \<open>Printing and reading back\<close>

lemma of_char_digit: "d < 10 \<Longrightarrow> of_char (digit_char d) = 48 + d"
  by (simp add: digit_char_def)

lemma digit_val_digit_char [simp]:
  assumes "d < 10"
  shows "digit_val 10 (digit_char d) = Some d"
  using assms by (simp add: digit_val_def of_char_digit Let_def)

lemma digits_append:
  "digits 10 acc s = (v, length s) \<Longrightarrow> d < 10 \<Longrightarrow>
   digits 10 acc (s @ [digit_char d]) = (10 * v + d, Suc (length s))"
proof (induction s arbitrary: acc)
  case (Cons c s)
  then show ?case
    by (auto split: option.splits prod.splits)
qed simp

lemma digits_nat_str: "digits 10 0 (nat_str n) = (n, length (nat_str n))"
proof (induction n rule: nat_str.induct)
  case (1 n)
  show ?case
  proof (cases "n < 10")
    case True
    then show ?thesis by (simp add: nat_str.simps [of n])
  next
    case False
    with 1 have "digits 10 0 (nat_str (n div 10)) = (n div 10, length (nat_str (n div 10)))"
      by blast
    from digits_append [OF this, of "n mod 10"] False show ?thesis
      by (simp add: nat_str.simps [of n])
  qed
qed

lemma nat_str_not_Nil [simp]: "nat_str n \<noteq> []"
  by (subst nat_str.simps) simp

lemma isdigit_digit_char: "d < 10 \<Longrightarrow> isdigit (digit_char d)"
  by (simp add: isdigit_def of_char_digit Let_def)

lemma nat_str_digits: "list_all isdigit (nat_str n)"
proof (induction n rule: nat_str.induct)
  case (1 n)
  then show ?case
    by (cases "n < 10") (simp_all add: nat_str.simps [of n] isdigit_digit_char)
qed

lemma isdigit_not_space:
  assumes "isdigit c"
  shows "\<not> is_space c" and "c \<noteq> CHR ''-''" and "c \<noteq> CHR ''+''" and "c \<noteq> CHR ''_''"
  using assms by (auto simp: isdigit_def is_space_def Let_def)

lemma split_sign_nat_str: "split_sign (nat_str n) = (False, nat_str n)"
proof (cases "nat_str n")
  case (Cons c t)
  with nat_str_digits [of n] have "isdigit c" by simp
  with Cons show ?thesis by (simp add: split_sign_def isdigit_not_space)
qed (simp add: split_sign_def)

text \<open>The number that a text of digits denotes.\<close>

definition decimal :: "string \<Rightarrow> nat" where
  "decimal ds = foldl (\<lambda>n c. 10 * n + (of_char c - 48)) 0 ds"

lemma digits_decimal:
  "list_all isdigit ds \<Longrightarrow> digits 10 acc ds = (foldl (\<lambda>n c. 10 * n + (of_char c - 48)) acc ds, length ds)"
  by (induction ds arbitrary: acc) (auto simp: digit_val_def isdigit_def Let_def)

lemma stoi_digits:
  assumes "ds \<noteq> ''''" and "list_all isdigit ds"
  shows "stoi ds = (if decimal ds < 2 ^ 31 then Inr (int (decimal ds)) else Inl (OutOfRange ''stoi''))"
proof -
  from assms obtain c s where ds: "ds = c # s" "isdigit c" by (cases ds) auto
  then have "split_sign ds = (False, ds)" using isdigit_not_space by (simp add: split_sign_def)
  with digits_decimal [OF assms(2), of 0] assms(1) show ?thesis
    by (simp add: stoi_def decimal_def)
qed

lemma stoi_nat_str:
  assumes "n < 2 ^ 31"
  shows "stoi (nat_str n) = Inr (int n)"
proof -
  from assms have "int n < 2 ^ 31" by simp
  then show ?thesis by (simp add: stoi_def split_sign_nat_str digits_nat_str)
qed

end
