(* ===== verification/Json.thy ===== *)
theory Json
  imports Complex_Main CxxString
begin

text \<open>
  JSON values as \<^verbatim>\<open>nlohmann::json\<close> presents them to the program, with the accessors that
  \<^verbatim>\<open>configuration.hpp\<close> and \<^verbatim>\<open>vm_interface.cpp\<close> use. The text format (\<^verbatim>\<open>parse\<close> and \<^verbatim>\<open>dump\<close>) is
  third-party code and is a parameter of the model (theory \<open>Platform\<close>). An object lists its
  members; the parser sorts them by key and keeps one member per key.
\<close>

datatype json =
    JNull
  | JBool bool
  | JInt int
  | JUInt nat
  | JFloat rat
  | JString string
  | JArr "json list"
  | JObj "(string \<times> json) list"

text \<open>\<^verbatim>\<open>find\<close> and \<^verbatim>\<open>contains\<close>: on a value that is no object nothing is found.\<close>

definition json_find :: "json \<Rightarrow> string \<Rightarrow> json option" where
  "json_find j k = (case j of JObj kvs \<Rightarrow> map_of kvs k | _ \<Rightarrow> None)"

definition json_contains :: "json \<Rightarrow> string \<Rightarrow> bool" where
  "json_contains j k = (json_find j k \<noteq> None)"

text \<open>\<^verbatim>\<open>items()\<close>: the members of an object, the elements of an array under their indices, nothing
  for null, and a primitive value itself under the empty key.\<close>

definition json_items :: "json \<Rightarrow> (string \<times> json) list" where
  "json_items j =
     (case j of
        JObj kvs \<Rightarrow> kvs
      | JArr vs \<Rightarrow> zip (map nat_str [0..<length vs]) vs
      | JNull \<Rightarrow> []
      | _ \<Rightarrow> [('''', j)])"

text \<open>\<^verbatim>\<open>get_ptr<const std::string*>\<close> and \<^verbatim>\<open>get_ptr<const uint64_t*>\<close>: the second succeeds only on
  numbers the parser read without a sign.\<close>

definition get_ptr_string :: "json \<Rightarrow> string option" where
  "get_ptr_string j = (case j of JString s \<Rightarrow> Some s | _ \<Rightarrow> None)"

definition get_ptr_uint64 :: "json \<Rightarrow> nat option" where
  "get_ptr_uint64 j = (case j of JUInt n \<Rightarrow> Some n | _ \<Rightarrow> None)"

text \<open>Conversions that throw \<^verbatim>\<open>type_error\<close> 302 on a value of the wrong kind. An integer is cut to
  the target width; a float outside the target range has no defined conversion.\<close>

definition truncate_rat :: "rat \<Rightarrow> int" where
  "truncate_rat r = (if r < 0 then - floor (- r) else floor r)"

definition json_get_int :: "json \<Rightarrow> exn + int" where
  "json_get_int j =
     (case j of
        JUInt n \<Rightarrow> Inr (sint (word_of_nat n :: 32 word))
      | JInt i \<Rightarrow> Inr (sint (word_of_int i :: 32 word))
      | JBool b \<Rightarrow> Inr (if b then 1 else 0)
      | JFloat r \<Rightarrow>
          (let i = truncate_rat r
           in if - (2 ^ 31) \<le> i \<and> i < 2 ^ 31 then Inr i else Inl (UB ''float to int''))
      | _ \<Rightarrow> Inl (JsonError 302))"

definition json_get_uint32 :: "json \<Rightarrow> exn + 32 word" where
  "json_get_uint32 j =
     (case j of
        JUInt n \<Rightarrow> Inr (word_of_nat n)
      | JInt i \<Rightarrow> Inr (word_of_int i)
      | JBool b \<Rightarrow> Inr (if b then 1 else 0)
      | JFloat r \<Rightarrow>
          (let i = truncate_rat r
           in if 0 \<le> i \<and> i < 2 ^ 32 then Inr (word_of_int i) else Inl (UB ''float to unsigned''))
      | _ \<Rightarrow> Inl (JsonError 302))"

definition json_get_string :: "json \<Rightarrow> exn + string" where
  "json_get_string j = (case j of JString s \<Rightarrow> Inr s | _ \<Rightarrow> Inl (JsonError 302))"

text \<open>\<^verbatim>\<open>value(key, default)\<close> of an object; \<^verbatim>\<open>type_error\<close> 306 on anything else.\<close>

definition json_value_int :: "json \<Rightarrow> string \<Rightarrow> int \<Rightarrow> exn + int" where
  "json_value_int j k d =
     (case j of
        JObj kvs \<Rightarrow> (case map_of kvs k of None \<Rightarrow> Inr d | Some v \<Rightarrow> json_get_int v)
      | _ \<Rightarrow> Inl (JsonError 306))"

text \<open>
  \<^verbatim>\<open>operator[](key)\<close> on a mutable value: null becomes an empty object, a missing member is created
  with the value null, and anything but an object is \<^verbatim>\<open>type_error\<close> 305. \<open>json_at\<close> gives the document
  after that and the member; \<open>json_set\<close> assigns to the member.
\<close>

fun obj_set :: "string \<Rightarrow> json \<Rightarrow> (string \<times> json) list \<Rightarrow> (string \<times> json) list" where
  "obj_set k v [] = [(k, v)]"
| "obj_set k v ((j, u) # kvs) =
     (if k = j then (k, v) # kvs else if k < j then (k, v) # (j, u) # kvs
      else (j, u) # obj_set k v kvs)"

definition json_at :: "json \<Rightarrow> string \<Rightarrow> exn + json \<times> json" where
  "json_at j k =
     (case j of
        JNull \<Rightarrow> Inr (JObj [(k, JNull)], JNull)
      | JObj kvs \<Rightarrow>
          (case map_of kvs k of
             Some v \<Rightarrow> Inr (JObj kvs, v)
           | None \<Rightarrow> Inr (JObj (obj_set k JNull kvs), JNull))
      | _ \<Rightarrow> Inl (JsonError 305))"

definition json_set :: "json \<Rightarrow> string \<Rightarrow> json \<Rightarrow> exn + json" where
  "json_set j k v =
     (case j of
        JNull \<Rightarrow> Inr (JObj [(k, v)])
      | JObj kvs \<Rightarrow> Inr (JObj (obj_set k v kvs))
      | _ \<Rightarrow> Inl (JsonError 305))"

text \<open>\<^verbatim>\<open>json != unsigned\<close>: numbers of any kind compare by value.\<close>

definition json_eq_uint :: "json \<Rightarrow> 32 word \<Rightarrow> bool" where
  "json_eq_uint j u =
     (case j of
        JUInt n \<Rightarrow> n = unat u
      | JInt i \<Rightarrow> i = uint u
      | JFloat r \<Rightarrow> r = of_nat (unat u)
      | _ \<Rightarrow> False)"

lemma map_of_obj_set: "map_of (obj_set k v kvs) = (map_of kvs)(k \<mapsto> v)"
  by (induction k v kvs rule: obj_set.induct) (auto simp: fun_eq_iff)

lemma json_find_set: "json_set j k v = Inr j' \<Longrightarrow> json_find j' i = (if i = k then Some v else json_find j i)"
  by (auto simp: json_set_def json_find_def map_of_obj_set split: json.splits)

lemma json_at_find: "json_at j k = Inr (j', v) \<Longrightarrow> json_find j k = Some u \<Longrightarrow> j' = j \<and> v = u"
  by (auto simp: json_at_def json_find_def split: json.splits option.splits)

lemma obj_set_same: "obj_set k v (obj_set k u kvs) = obj_set k v kvs"
  by (induction k u kvs rule: obj_set.induct) auto

lemma obj_set_swap: "k \<noteq> j \<Longrightarrow> obj_set k v (obj_set j u kvs) = obj_set j u (obj_set k v kvs)"
proof (induction kvs)
  case (Cons x kvs)
  then show ?case by (cases x) auto
qed auto

lemma json_eq_uint_get: "json_eq_uint j u \<Longrightarrow> json_get_uint32 j = Inr u"
proof -
  assume eq: "json_eq_uint j u"
  have "truncate_rat (of_nat n) = int n" for n
    by (simp add: truncate_rat_def)
  from this [of "unat u"] have "truncate_rat (unsigned u) = uint u" by simp
  moreover have "uint u < 2 ^ 32" using uint_bounded [of u] by simp
  ultimately show ?thesis
    using eq by (auto simp: json_eq_uint_def json_get_uint32_def Let_def split: json.splits)
qed

end
