(* ===== verification/SortedMap.thy ===== *)
theory SortedMap
  imports Prelude
begin

text \<open>
  \<^verbatim>\<open>std::map\<close> and \<^verbatim>\<open>boost::container::flat_map\<close>: containers that iterate in the order of their
  keys. They are modelled as association lists with strictly increasing keys; the interface that
  the components use is stated as a locale and interpreted on the lists.
\<close>

section \<open>The interface\<close>

locale ordered_map =
  fixes find :: "'m \<Rightarrow> 'k \<Rightarrow> 'v option"
    and assign :: "'k \<Rightarrow> 'v \<Rightarrow> 'm \<Rightarrow> 'm"
    and insert_new :: "'k \<Rightarrow> 'v \<Rightarrow> 'm \<Rightarrow> 'm"
    and erase :: "'k \<Rightarrow> 'm \<Rightarrow> 'm"
    and items :: "'m \<Rightarrow> ('k \<times> 'v) list"
    and wf :: "'m \<Rightarrow> bool"
  assumes find_items: "wf m \<Longrightarrow> find m k = map_of (items m) k"
    and distinct_items: "wf m \<Longrightarrow> distinct (map fst (items m))"
    and wf_assign: "wf m \<Longrightarrow> wf (assign k v m)"
    and find_assign: "wf m \<Longrightarrow> find (assign k v m) j = (if j = k then Some v else find m j)"
    and wf_insert_new: "wf m \<Longrightarrow> wf (insert_new k v m)"
    and find_insert_new: "wf m \<Longrightarrow> find (insert_new k v m) j =
          (if j = k \<and> find m k = None then Some v else find m j)"
    and wf_erase: "wf m \<Longrightarrow> wf (erase k m)"
    and find_erase: "wf m \<Longrightarrow> find (erase k m) j = (if j = k then None else find m j)"
begin

lemma find_iff_item: "wf m \<Longrightarrow> find m k = Some v \<longleftrightarrow> (k, v) \<in> set (items m)"
  by (simp add: find_items distinct_items)

lemma items_assign: "wf m \<Longrightarrow> set (items (assign k v m)) = {(k, v)} \<union> {x \<in> set (items m). fst x \<noteq> k}"
proof -
  assume wf: "wf m"
  have "x \<in> set (items (assign k v m)) \<longleftrightarrow> x \<in> {(k, v)} \<union> {x \<in> set (items m). fst x \<noteq> k}" for x
    using find_iff_item [OF wf_assign [OF wf], of k v "fst x" "snd x"]
      find_iff_item [OF wf, of "fst x" "snd x"]
    by (cases x) (auto simp: find_assign wf split: if_splits)
  then show ?thesis by blast
qed

lemma items_erase: "wf m \<Longrightarrow> set (items (erase k m)) = {x \<in> set (items m). fst x \<noteq> k}"
proof -
  assume wf: "wf m"
  have "x \<in> set (items (erase k m)) \<longleftrightarrow> x \<in> {x \<in> set (items m). fst x \<noteq> k}" for x
    using find_iff_item [OF wf_erase [OF wf], of k "fst x" "snd x"]
      find_iff_item [OF wf, of "fst x" "snd x"]
    by (cases x) (auto simp: find_erase wf split: if_splits)
  then show ?thesis by blast
qed

lemma insert_new_keeps: "wf m \<Longrightarrow> find m k = Some v \<Longrightarrow> find (insert_new k' v' m) k = Some v"
  by (auto simp: find_insert_new)

end

section \<open>Association lists with increasing keys\<close>

fun sm_assign :: "'k::linorder \<Rightarrow> 'v \<Rightarrow> ('k \<times> 'v) list \<Rightarrow> ('k \<times> 'v) list" where
  "sm_assign k v [] = [(k, v)]"
| "sm_assign k v ((j, u) # m) =
     (if k < j then (k, v) # (j, u) # m else if k = j then (k, v) # m
      else (j, u) # sm_assign k v m)"

definition sm_find :: "('k \<times> 'v) list \<Rightarrow> 'k \<Rightarrow> 'v option" where
  "sm_find m k = map_of m k"

definition sm_insert :: "'k::linorder \<Rightarrow> 'v \<Rightarrow> ('k \<times> 'v) list \<Rightarrow> ('k \<times> 'v) list" where
  "sm_insert k v m = (case sm_find m k of None \<Rightarrow> sm_assign k v m | Some _ \<Rightarrow> m)"

definition sm_erase :: "'k \<Rightarrow> ('k \<times> 'v) list \<Rightarrow> ('k \<times> 'v) list" where
  "sm_erase k m = filter (\<lambda>x. fst x \<noteq> k) m"

definition sm_wf :: "('k::linorder \<times> 'v) list \<Rightarrow> bool" where
  "sm_wf m \<longleftrightarrow> sorted_wrt (<) (map fst m)"

lemma sm_wf_Nil [simp]: "sm_wf []"
  by (simp add: sm_wf_def)

lemma sm_wf_Cons: "sm_wf (x # m) \<longleftrightarrow> (\<forall>y \<in> set m. fst x < fst y) \<and> sm_wf m"
  by (auto simp: sm_wf_def)

lemma sm_wf_distinct: "sm_wf m \<Longrightarrow> distinct (map fst m)"
  by (simp add: sm_wf_def strict_sorted_iff)

lemma set_sm_assign_keys: "fst ` set (sm_assign k v m) = insert k (fst ` set m)"
  by (induction k v m rule: sm_assign.induct) auto

lemma sm_wf_assign: "sm_wf m \<Longrightarrow> sm_wf (sm_assign k v m)"
proof (induction k v m rule: sm_assign.induct)
  case (2 k v j u m)
  have "fst ` set (sm_assign k v m) = insert k (fst ` set m)"
    by (rule set_sm_assign_keys)
  then have "j < k \<Longrightarrow> \<forall>y \<in> set m. j < fst y \<Longrightarrow> \<forall>y \<in> set (sm_assign k v m). j < fst y"
    by (metis imageE image_eqI insertE)
  with 2 show ?case
    by (auto simp: sm_wf_Cons not_less_iff_gr_or_eq)
qed (simp add: sm_wf_def)

lemma map_of_sm_assign: "map_of (sm_assign k v m) = (map_of m)(k \<mapsto> v)"
  by (induction k v m rule: sm_assign.induct) (auto simp: fun_eq_iff)

lemma sm_wf_erase: "sm_wf m \<Longrightarrow> sm_wf (sm_erase k m)"
  by (induction m) (auto simp: sm_erase_def sm_wf_Cons)

lemma map_of_sm_erase: "map_of (sm_erase k m) = (map_of m)(k := None)"
  by (induction m) (auto simp: sm_erase_def fun_eq_iff)

interpretation sm: ordered_map sm_find sm_assign sm_insert sm_erase "\<lambda>m. m" sm_wf
  by unfold_locales
    (auto simp: sm_find_def sm_insert_def sm_wf_distinct sm_wf_assign sm_wf_erase
       map_of_sm_assign map_of_sm_erase split: option.splits)

lemmas sm_wf_rules [intro] = sm.wf_assign sm.wf_insert_new sm.wf_erase

lemma sm_find_Nil [simp]: "sm_find [] k = None"
  by (simp add: sm_find_def)

lemma sm_find_Cons [simp]: "sm_find ((j, v) # m) k = (if j = k then Some v else sm_find m k)"
  by (simp add: sm_find_def)

lemma sm_assign_same: "sm_wf m \<Longrightarrow> sm_find m k = Some v \<Longrightarrow> sm_assign k v m = m"
proof (induction k v m rule: sm_assign.induct)
  case (2 k v j u m)
  then have "k \<noteq> j \<Longrightarrow> j < k"
    by (auto simp: sm_wf_Cons sm_find_def dest!: map_of_SomeD)
  with 2 show ?case by (auto simp: sm_wf_Cons)
qed simp

lemma sm_find_keys: "k \<in> set (map fst m) \<longleftrightarrow> (\<exists>v. sm_find m k = Some v)"
  by (cases "map_of m k") (force simp: sm_find_def map_of_eq_None_iff dest: map_of_SomeD)+

end
