(* ===== verification/Platform.thy ===== *)
theory Platform
  imports Json SortedMap
begin

text \<open>
  The boundary of the program. Everything it asks of the operating system, the D-Bus daemon and
  third-party libraries is a \<open>call\<close>; the answers are parameters of the model (the record \<open>env\<close>)
  and may depend on the call and on the whole history of calls before it, so that no behaviour of
  the environment is excluded. \<open>world\<close> holds the history and the global variables of the program.
\<close>

section \<open>Calls and their answers\<close>

datatype dbus_arg = ArgStr string | ArgInt int | ArgBool bool | ArgFd int

datatype call =
    Exists string
  | IsRegularFile string
  | IsBlockFile string
  | IsSymlink string
  | IsDirectory string
  | FileStatus string
  | CreateDirectories string
  | SetPermissions string
  | RemovePath string
  | CreateDirectorySymlink string string
  | ListDirectory string
  | OpenDevice string
  | CloseDevice string
  | IoctlDisconnect string
  | IoctlClearSock string
  | IoctlBlockSize string
  | DetectRead string
  | AppendLine string string
  | ReadStats string
  | MakeTempFile string
  | WriteBytes string string
  | OpenForWrite string
  | MountCall string string string "64 word" string
  | Umount2 string string
  | Spawn string "string list"
  | StopProcess string
  | ChildRunning string
  | Terminate_child string
  | SendSignal string string string int
  | AddInterface string string
  | RegisterProperty string string string
  | RegisterMethod string string string
  | DbusCall string string string string "dbus_arg list"
  | Fork string
  | StartThread string string
  | Sleep nat
  | Statfs string
  | WriteCredentials nat string string
  | ReleaseFd nat
  | PeekEof string
  | WaitChild string
  | UdevCall string "string list"
  | Fsync string
  | Fadvise string
  | Nanosleep int int

type_synonym hist = "(call \<times> int) list"

text \<open>\<^verbatim>\<open>WebSessionInfo\<close>: session id, address, user, session type, privilege, user id.\<close>

type_synonym web_session = "8 word \<times> string \<times> string \<times> 8 word \<times> 8 word \<times> 8 word"

text \<open>\<^verbatim>\<open>VmediaSessionInfo\<close>: the same, then the mount type and the slot.\<close>

type_synonym vmedia_session =
  "8 word \<times> string \<times> string \<times> 8 word \<times> 8 word \<times> 8 word \<times> string \<times> string"

text \<open>
  The parameters of the model: the answers, \<^verbatim>\<open>nlohmann\<close>'s parser and printer, the directory for
  temporary files, the width of \<^verbatim>\<open>unsigned long\<close>, and the options of \<^verbatim>\<open>meson_options.txt\<close> that
  become preprocessor symbols (\<^verbatim>\<open>LEGACY_MODE_ENABLED\<close>, \<^verbatim>\<open>MULTI_HOST_DEFAULT_MODE\<close>,
  \<^verbatim>\<open>VM_VERBOSE_NBDKIT_LOGS\<close>).
\<close>

record env =
  ask :: "hist \<Rightarrow> call \<Rightarrow> int"
  ask_str :: "hist \<Rightarrow> call \<Rightarrow> string"
  ask_names :: "hist \<Rightarrow> call \<Rightarrow> string list"
  ask_web_sessions :: "hist \<Rightarrow> web_session list option"
  ask_vmedia_sessions :: "hist \<Rightarrow> vmedia_session list option"
  ask_retry :: "hist \<Rightarrow> 32 word \<times> 32 word"
  json_parse :: "string \<Rightarrow> json option"
  json_dump :: "json \<Rightarrow> string"
  tmp_dir :: string
  ulong_bits :: nat
  legacy_mode_enabled :: bool
  multi_host :: bool
  verbose_nbdkit_logs :: bool

section \<open>Global variables\<close>

text \<open>\<^verbatim>\<open>Credentials\<close> (\<^verbatim>\<open>credentials.hpp\<close>), kept per legacy slot in the global array \<^verbatim>\<open>creds\<close>.\<close>

record slot_credentials =
  sc_url :: string
  sc_rw :: bool
  sc_additionalInfo :: string
  sc_user :: string
  sc_pass :: string

text \<open>
  \<^verbatim>\<open>vm::Interface\<close>: the members, with the registered properties of its two D-Bus interfaces (a
  null pointer is \<open>None\<close>).
\<close>

record vm_interface =
  vmObjPath :: string
  vmConfigPath :: string
  RetryCount :: "32 word"
  RetryInterval :: "32 word"
  vmediaInterface :: "(string \<times> 32 word) list option"
  vmediaImageURLInterface :: "(string \<times> string) list option"

record world =
  hist :: hist
  activeSessons :: "(string \<times> 8 word) list"
  creds :: "slot_credentials option list"
  is_reconnecting :: bool
  retryThreadCreated :: "string \<Rightarrow> bool"
  conf_text :: "string option"
  jsonData :: json
  vm_instance :: "vm_interface option"
  g_serviceName :: string
  g_basePath :: string

definition initial_world :: "string option \<Rightarrow> world" where
  "initial_world conf =
     \<lparr>hist = [], activeSessons = [], creds = [None, None], is_reconnecting = False,
      retryThreadCreated = (\<lambda>_. False), conf_text = conf, jsonData = JNull, vm_instance = None,
      g_serviceName = ''xyz.openbmc_project.VirtualMedia'', g_basePath = ''VirtualMedia''\<rparr>"

section \<open>Making a call\<close>

type_synonym 'a wprog = "(world, 'a) prog"

definition sys :: "env \<Rightarrow> call \<Rightarrow> int wprog" where
  "sys E c w = (let r = ask E (hist w) c in (Inr r, w\<lparr>hist := (c, r) # hist w\<rparr>))"

text \<open>A call whose answer is ignored.\<close>

definition do_sys :: "env \<Rightarrow> call \<Rightarrow> unit wprog" where
  "do_sys E c = bindM (sys E c) (\<lambda>_. returnM ())"

text \<open>A call with a Boolean answer, and one that throws \<^verbatim>\<open>filesystem_error\<close> on a negative answer.\<close>

definition sys_bool :: "env \<Rightarrow> call \<Rightarrow> bool wprog" where
  "sys_bool E c = bindM (sys E c) (\<lambda>r. returnM (r > 0))"

definition fs_query :: "env \<Rightarrow> call \<Rightarrow> bool wprog" where
  "fs_query E c = bindM (sys E c) (\<lambda>r. if r < 0 then throwM FilesystemError else returnM (r > 0))"

text \<open>A D-Bus method call: a negative answer is the error that \<^verbatim>\<open>sdbusplus\<close> throws.\<close>

definition dbus_call ::
    "env \<Rightarrow> string \<Rightarrow> string \<Rightarrow> string \<Rightarrow> string \<Rightarrow> dbus_arg list \<Rightarrow> int wprog" where
  "dbus_call E service obj iface meth args =
     bindM (sys E (DbusCall service obj iface meth args))
       (\<lambda>r. if r < 0 then throwM (SdBusError (- r) ''D-Bus call failed'') else returnM r)"

text \<open>An environment for examples, in which every call answers 0.\<close>

definition quiet_env :: env where
  "quiet_env =
     \<lparr>ask = (\<lambda>_ _. 0), ask_str = (\<lambda>_ _. ''''), ask_names = (\<lambda>_ _. []),
      ask_web_sessions = (\<lambda>_. None), ask_vmedia_sessions = (\<lambda>_. None), ask_retry = (\<lambda>_. (3, 15)),
      json_parse = (\<lambda>_. None), json_dump = (\<lambda>_. ''''),
      tmp_dir = ''/tmp'', ulong_bits = 32, legacy_mode_enabled = True, multi_host = False,
      verbose_nbdkit_logs = False\<rparr>"

lemma sys_result: "sys E c w = (Inr (ask E (hist w) c), w\<lparr>hist := (c, ask E (hist w) c) # hist w\<rparr>)"
  by (simp add: sys_def Let_def)

lemma snd_sys [simp]: "snd (sys E c w) = w\<lparr>hist := (c, ask E (hist w) c) # hist w\<rparr>"
  by (simp add: sys_result)

lemma bind_sys: "bindM (sys E c) f w = f (ask E (hist w) c) (w\<lparr>hist := (c, ask E (hist w) c) # hist w\<rparr>)"
  by (simp add: bindM_def sys_result)

lemma sys_bool_result:
  "sys_bool E c w = (Inr (ask E (hist w) c > 0), w\<lparr>hist := (c, ask E (hist w) c) # hist w\<rparr>)"
  by (simp add: sys_bool_def bind_sys returnM_def)

lemma do_sys_result: "do_sys E c w = (Inr (), w\<lparr>hist := (c, ask E (hist w) c) # hist w\<rparr>)"
  by (simp add: do_sys_def bind_sys returnM_def)

lemma bind_do_sys: "bindM (do_sys E c) f w = f () (w\<lparr>hist := (c, ask E (hist w) c) # hist w\<rparr>)"
  by (simp add: bindM_def do_sys_result)

lemma then_do_sys: "thenM (do_sys E c) m w = m (w\<lparr>hist := (c, ask E (hist w) c) # hist w\<rparr>)"
  by (simp add: thenM_def bind_do_sys)

lemma keeps_do_sys: "(\<And>w x. P w \<Longrightarrow> P (w\<lparr>hist := x # hist w\<rparr>)) \<Longrightarrow> keeps P (do_sys E c)"
  by (simp add: keeps_def do_sys_result)

lemma keeps_sys: "(\<And>w x. P w \<Longrightarrow> P (w\<lparr>hist := x # hist w\<rparr>)) \<Longrightarrow> keeps P (sys E c)"
  by (simp add: keeps_def)

lemma keeps_sys_bool: "(\<And>w x. P w \<Longrightarrow> P (w\<lparr>hist := x # hist w\<rparr>)) \<Longrightarrow> keeps P (sys_bool E c)"
  by (simp add: keeps_def sys_bool_result)

lemma throws_do_sys: "(\<And>w x. P w \<Longrightarrow> P (w\<lparr>hist := x # hist w\<rparr>)) \<Longrightarrow> throws_only P A (do_sys E c)"
  by (simp add: throws_only_def do_sys_result)

lemma throws_sys: "(\<And>w x. P w \<Longrightarrow> P (w\<lparr>hist := x # hist w\<rparr>)) \<Longrightarrow> throws_only P A (sys E c)"
  by (simp add: throws_only_def sys_result)

lemma throws_sys_bool: "(\<And>w x. P w \<Longrightarrow> P (w\<lparr>hist := x # hist w\<rparr>)) \<Longrightarrow> throws_only P A (sys_bool E c)"
  by (simp add: throws_only_def sys_bool_result)

section \<open>What a history records\<close>

text \<open>
  Accounting of the resources the program acquires and releases: a call contributes when it
  succeeded. The counts are taken over a whole history.
\<close>

definition is_mount_of :: "string \<Rightarrow> call \<times> int \<Rightarrow> bool" where
  "is_mount_of d x = (case x of (MountCall _ l _ _ _, r) \<Rightarrow> l = d \<and> r = 0 | _ \<Rightarrow> False)"

definition is_umount_of :: "string \<Rightarrow> call \<times> int \<Rightarrow> bool" where
  "is_umount_of d x = (case x of (Umount2 l _, r) \<Rightarrow> l = d | _ \<Rightarrow> False)"

definition is_spawn :: "call \<times> int \<Rightarrow> bool" where
  "is_spawn x = (case x of (Spawn _ _, r) \<Rightarrow> r = 0 | _ \<Rightarrow> False)"

definition is_stop :: "call \<times> int \<Rightarrow> bool" where
  "is_stop x = (case x of (StopProcess _, r) \<Rightarrow> True | _ \<Rightarrow> False)"

definition tally :: "('a \<Rightarrow> bool) \<Rightarrow> 'a list \<Rightarrow> nat" where
  "tally p xs = length (filter p xs)"

lemma tally_simps [simp]:
  "tally p [] = 0"
  "tally p (x # xs) = (if p x then Suc (tally p xs) else tally p xs)"
  "tally p (xs @ ys) = tally p xs + tally p ys"
  by (simp_all add: tally_def)

lemma is_call_simps [simp]:
  "is_spawn (Spawn a as, r) = (r = 0)"
  "is_stop (StopProcess a, r)"
  by (simp_all add: is_spawn_def is_stop_def)

subsection \<open>How often an operation makes a kind of call\<close>

text \<open>\<open>at_most q n m\<close>: \<open>m\<close> only adds to the history, and at most \<open>n\<close> calls that satisfy \<open>q\<close>.\<close>

definition at_most :: "(call \<times> int \<Rightarrow> bool) \<Rightarrow> nat \<Rightarrow> 'a wprog \<Rightarrow> bool" where
  "at_most q n m \<longleftrightarrow> (\<forall>w. \<exists>new. hist (snd (m w)) = new @ hist w \<and> tally q new \<le> n)"

named_theorems at_most_rules \<open>rules for the number of calls\<close>

lemma at_mostD:
  assumes "at_most q n m" and "m w = (r, w')"
  obtains new where "hist w' = new @ hist w" and "tally q new \<le> n"
  using assms by (metis at_most_def snd_conv)

lemma at_most_unchanged: "(\<And>w. hist (snd (m w)) = hist w) \<Longrightarrow> at_most q 0 m"
  by (simp add: at_most_def)

lemma at_most_return [at_most_rules]: "at_most q 0 (returnM a)"
  by (simp add: at_most_unchanged returnM_def)

lemma at_most_throw [at_most_rules]: "at_most q 0 (throwM e)"
  by (simp add: at_most_unchanged throwM_def)

lemma at_most_get [at_most_rules]: "at_most q 0 (getM f)"
  by (simp add: at_most_unchanged getM_def)

lemma at_most_liftE [at_most_rules]: "at_most q 0 (liftE r)"
  by (simp add: at_most_unchanged liftE_def)

lemma at_most_modify: "(\<And>w. hist (f w) = hist w) \<Longrightarrow> at_most q 0 (modifyM f)"
  by (simp add: at_most_unchanged modifyM_def)

lemma at_most_weaken: "at_most q n m \<Longrightarrow> n \<le> k \<Longrightarrow> at_most q k m"
  unfolding at_most_def by (meson le_trans)

lemma at_most_bind:
  assumes "at_most q a m" and "\<And>x. at_most q b (f x)"
  shows "at_most q (a + b) (bindM m f)"
  unfolding at_most_def
proof
  fix w
  obtain r w1 where m: "m w = (r, w1)" by (cases "m w")
  from at_mostD [OF assms(1) m] obtain new where new: "hist w1 = new @ hist w" "tally q new \<le> a" .
  show "\<exists>new. hist (snd (bindM m f w)) = new @ hist w \<and> tally q new \<le> a + b"
  proof (cases r)
    case (Inl e)
    with m new show ?thesis by (auto simp: bindM_def intro!: exI [of _ new])
  next
    case (Inr x)
    obtain r2 w2 where f: "f x w1 = (r2, w2)" by (cases "f x w1")
    from at_mostD [OF assms(2) f] obtain new2 where "hist w2 = new2 @ hist w1" "tally q new2 \<le> b" .
    with m new f Inr show ?thesis by (auto simp: bindM_def intro!: exI [of _ "new2 @ new"])
  qed
qed

lemma at_most_then: "at_most q a m \<Longrightarrow> at_most q b n \<Longrightarrow> at_most q (a + b) (thenM m n)"
  by (simp add: thenM_def at_most_bind)

lemma at_most_catch:
  assumes "at_most q a m" and "\<And>e. at_most q b (h e)"
  shows "at_most q (a + b) (catchM m h)"
  unfolding at_most_def
proof
  fix w
  obtain r w1 where m: "m w = (r, w1)" by (cases "m w")
  from at_mostD [OF assms(1) m] obtain new where new: "hist w1 = new @ hist w" "tally q new \<le> a" .
  show "\<exists>new. hist (snd (catchM m h w)) = new @ hist w \<and> tally q new \<le> a + b"
  proof (cases r)
    case (Inr x)
    with m new show ?thesis by (auto simp: catchM_def intro!: exI [of _ new])
  next
    case (Inl e)
    obtain r2 w2 where f: "h e w1 = (r2, w2)" by (cases "h e w1")
    from at_mostD [OF assms(2) f] obtain new2 where "hist w2 = new2 @ hist w1" "tally q new2 \<le> b" .
    with m new f Inl show ?thesis by (auto simp: catchM_def intro!: exI [of _ "new2 @ new"])
  qed
qed

lemma at_most_sys: "(\<And>r. q (c, r) \<Longrightarrow> 0 < n) \<Longrightarrow> at_most q n (sys E c)"
  unfolding at_most_def
  by (auto intro!: exI [of _ "[(c, r)]" for r] simp: Suc_le_eq)

lemma at_most_do_sys: "(\<And>r. q (c, r) \<Longrightarrow> 0 < n) \<Longrightarrow> at_most q n (do_sys E c)"
  using at_most_bind [OF at_most_sys at_most_return, of q c n E "\<lambda>_. ()"]
  by (simp add: do_sys_def)

lemma at_most_none: "at_most q 0 m \<Longrightarrow> (\<And>x. at_most q n (f x)) \<Longrightarrow> at_most q n (bindM m f)"
  using at_most_bind [of q 0 m n f] by simp

lemma at_most_then_none: "at_most q 0 m \<Longrightarrow> at_most q n k \<Longrightarrow> at_most q n (thenM m k)"
  using at_most_then [of q 0 m n k] by simp

lemma at_most_catch_none: "at_most q n m \<Longrightarrow> (\<And>e. at_most q 0 (h e)) \<Longrightarrow> at_most q n (catchM m h)"
  using at_most_catch [of q n m 0 h] by simp

lemma at_most_if [at_most_rules]:
  "(b \<Longrightarrow> at_most q n m) \<Longrightarrow> (\<not> b \<Longrightarrow> at_most q n k) \<Longrightarrow> at_most q n (if b then m else k)"
  by simp

lemma at_most_option [at_most_rules]:
  "at_most q n m \<Longrightarrow> (\<And>x. at_most q n (f x)) \<Longrightarrow> at_most q n (case opt of None \<Rightarrow> m | Some x \<Rightarrow> f x)"
  by (simp split: option.splits)

lemma at_most_dbus: "(\<And>r. q (DbusCall s ob i me as, r) \<Longrightarrow> 0 < n) \<Longrightarrow> at_most q n (dbus_call E s ob i me as)"
  unfolding dbus_call_def
  by (rule at_most_weaken [OF at_most_bind [OF at_most_sys [of q _ n], where b = 0]])
    (auto intro: at_most_rules)

end
