(* ===== verification/Secrets.thy ===== *)
theory Secrets
  imports Platform
begin

text \<open>
  Credentials: \<^verbatim>\<open>utils::Credentials\<close>, \<^verbatim>\<open>CredentialsProvider\<close> and \<^verbatim>\<open>VolatileFile\<close> of
  \<^verbatim>\<open>src/utils.hpp\<close>, the pipe of \<^verbatim>\<open>src/credentials.hpp\<close> that carries them between processes, and
  the code of the legacy \<^verbatim>\<open>Mount\<close> method (\<^verbatim>\<open>src/state/initial_state.hpp\<close>) that reads them back.
\<close>

section \<open>Escaping the password for the mount options\<close>

record credentials =
  userBuf :: string
  passBuf :: string
  commasEscaped :: bool

definition make_credentials :: "string \<Rightarrow> string \<Rightarrow> credentials" where
  "make_credentials user password =
     \<lparr>userBuf = user, passBuf = password, commasEscaped = False\<rparr>"

fun escapeComma :: "string \<Rightarrow> string" where
  "escapeComma [] = []"
| "escapeComma (c # s) = (if c = CHR '','' then c # c # escapeComma s else c # escapeComma s)"

definition escapeCommas :: "credentials \<Rightarrow> credentials" where
  "escapeCommas c =
     (if \<not> commasEscaped c
      then c\<lparr>passBuf := escapeComma (passBuf c), commasEscaped := True\<rparr> else c)"

text \<open>\<^verbatim>\<open>pack\<close> with the formatter of \<^verbatim>\<open>spawnNbdKit\<close> (the password alone), and without one.\<close>

definition pack :: "(string \<Rightarrow> string \<Rightarrow> string) option \<Rightarrow> credentials \<Rightarrow> string" where
  "pack formatter c = (case formatter of None \<Rightarrow> [] | Some f \<Rightarrow> f (userBuf c) (passBuf c))"

text \<open>\<^verbatim>\<open>secureCleanup\<close> overwrites every byte of a container with zero.\<close>

definition NUL :: char where "NUL = CHR 0x00"

definition secureCleanup :: "string \<Rightarrow> string" where
  "secureCleanup v = replicate (length v) NUL"

text \<open>
  How a list of mount options is read back: a comma ends an option, two commas stand for one inside
  an option. This is the reading that escaping is for.
\<close>

fun split_options :: "string \<Rightarrow> string \<Rightarrow> string list" where
  "split_options acc [] = [rev acc]"
| "split_options acc [c] = (if c = CHR '','' then [rev acc, []] else [rev (c # acc)])"
| "split_options acc (c # d # s) =
     (if c = CHR '','' then
        (if d = CHR '','' then split_options (CHR '','' # acc) s
         else rev acc # split_options [] (d # s))
      else split_options (c # acc) (d # s))"

lemma split_options_plain:
  "c \<noteq> CHR '','' \<Longrightarrow> split_options acc (c # s) = split_options (c # acc) s"
  by (cases s) simp_all

lemma split_options_append:
  "CHR '','' \<notin> set t \<Longrightarrow> split_options acc (t @ s) = split_options (rev t @ acc) s"
  by (induction t arbitrary: acc) (auto simp: split_options_plain)

lemma split_options_escaped:
  "split_options acc (escapeComma p @ s) = split_options (rev p @ acc) s"
  by (induction p arbitrary: acc) (auto simp: split_options_plain)

lemma split_options_sep:
  "c \<noteq> CHR '','' \<Longrightarrow>
   split_options acc (CHR '','' # c # s) = rev acc # split_options [] (c # s)"
  by simp

lemma escapeCommas_idem: "escapeCommas (escapeCommas c) = escapeCommas c"
  by (simp add: escapeCommas_def)

lemma escapeCommas_user [simp]: "userBuf (escapeCommas c) = userBuf c"
  by (simp add: escapeCommas_def)

section \<open>The pipe and its reader\<close>


definition secretLimit :: nat where "secretLimit = 1024"

text \<open>
  A \<^verbatim>\<open>std::string\<close> made from a character pointer into a buffer: the bytes up to the next
  terminator, with no meaning when the buffer ends before one.
\<close>

definition cstring_at :: "string \<Rightarrow> nat \<Rightarrow> exn + string" where
  "cstring_at buf pos =
     (if NUL \<in> set (drop pos buf) then Inr (takeWhile (\<lambda>c. c \<noteq> NUL) (drop pos buf))
      else Inl (UB ''read past the end of the buffer''))"

text \<open>
  The reader: \<open>buf\<close> is the whole array of \<^verbatim>\<open>secretLimit\<close> bytes, of which the pipe filled the first
  \<open>n\<close>; the rest has never been written.
\<close>

definition parse_secret :: "string \<Rightarrow> nat \<Rightarrow> exn + string \<times> string" where
  "parse_secret buf n =
     (let nullCount = length (filter (\<lambda>c. c = NUL) (take n buf))
      in if nullCount \<noteq> 2 then Inl (SdBusError EINVAL ''Malformed extra data'')
         else (case cstring_at buf 0 of
                 Inl e \<Rightarrow> Inl e
               | Inr user \<Rightarrow>
                   (case cstring_at buf (length user + 1) of
                      Inl e \<Rightarrow> Inl e
                    | Inr pass \<Rightarrow> Inr (user, pass))))"

lemma takeWhile_NUL [simp]: "NUL \<notin> set u \<Longrightarrow> takeWhile (\<lambda>c. c \<noteq> NUL) (u @ NUL # r) = u"
  by (simp add: takeWhile_tail takeWhile_append2)
    (metis (mono_tags, lifting) append.right_neutral takeWhile.simps(2) takeWhile_append2)

lemma two_nulls:
  assumes "length (filter (\<lambda>c. c = NUL) s) = 2"
  obtains u p r where "s = u @ NUL # p @ NUL # r"
    and "NUL \<notin> set u" and "NUL \<notin> set p" and "NUL \<notin> set r"
proof -
  have has: "NUL \<in> set x" if "0 < length (filter (\<lambda>c. c = NUL) x)" for x
    using that by (auto simp: filter_empty_conv)
  from assms have "NUL \<in> set s" by (intro has) simp
  then obtain u t where s: "s = u @ NUL # t" "NUL \<notin> set u" by (metis split_list_first)
  have fu: "filter (\<lambda>c. c = NUL) u = []" using s(2) by (auto simp: filter_empty_conv)
  with assms s(1) have t1: "length (filter (\<lambda>c. c = NUL) t) = 1" by simp
  then have "NUL \<in> set t" by (intro has) simp
  then obtain p r where t: "t = p @ NUL # r" "NUL \<notin> set p" by (metis split_list_first)
  have fp: "filter (\<lambda>c. c = NUL) p = []" using t(2) by (auto simp: filter_empty_conv)
  with t1 t(1) have "filter (\<lambda>c. c = NUL) r = []" by simp
  then have "NUL \<notin> set r" by (auto simp: filter_empty_conv)
  with s t show thesis by (auto intro: that)
qed

lemma parse_secret_parts:
  assumes "s = u @ NUL # p @ NUL # r" and "NUL \<notin> set u" and "NUL \<notin> set p"
  shows "cstring_at (s @ junk) 0 = Inr u" and "cstring_at (s @ junk) (length u + 1) = Inr p"
  using assms by (simp_all add: cstring_at_def)

text \<open>
  C20. The reader of the credentials never reads past what the pipe delivered: with two terminators
  among the \<open>n\<close> bytes read it returns the two strings before them, with any other number it refuses
  the message with EINVAL, and it has no other outcome.
\<close>

theorem parse_secret_exact:
  assumes "n \<le> length buf"
  shows "(parse_secret buf n = Inr (user, pass) \<longleftrightarrow>
            (\<exists>r. take n buf = user @ NUL # pass @ NUL # r \<and>
                 NUL \<notin> set user \<and> NUL \<notin> set pass \<and> NUL \<notin> set r)) \<and>
         (parse_secret buf n = Inl e \<longleftrightarrow>
            e = SdBusError EINVAL ''Malformed extra data'' \<and>
            length (filter (\<lambda>c. c = NUL) (take n buf)) \<noteq> 2)"
proof -
  let ?s = "take n buf"
  have buf: "buf = ?s @ drop n buf" by simp
  have two: "parse_secret buf n = Inr (u, p)"
    if "?s = u @ NUL # p @ NUL # r" "NUL \<notin> set u" "NUL \<notin> set p" "NUL \<notin> set r" for u p r
  proof -
    have z: "filter (\<lambda>c. c = NUL) x = []" if "NUL \<notin> set x" for x
      using that by (auto simp: filter_empty_conv)
    have "length (filter (\<lambda>c. c = NUL) ?s) = 2" using that by (simp add: z)
    moreover note parse_secret_parts [OF that(1-3), of "drop n buf", folded buf]
    ultimately show ?thesis by (simp add: parse_secret_def Let_def)
  qed
  have other: "parse_secret buf n = Inl (SdBusError EINVAL ''Malformed extra data'')"
    if "length (filter (\<lambda>c. c = NUL) ?s) \<noteq> 2"
    using that by (simp add: parse_secret_def Let_def)
  have "parse_secret buf n = Inr (user, pass) \<longleftrightarrow>
           (\<exists>r. ?s = user @ NUL # pass @ NUL # r \<and>
                NUL \<notin> set user \<and> NUL \<notin> set pass \<and> NUL \<notin> set r)"
    using two other by (metis Inl_Inr_False Pair_inject sum.inject(2) two_nulls)
  moreover have "parse_secret buf n = Inl e \<longleftrightarrow>
           e = SdBusError EINVAL ''Malformed extra data'' \<and>
           length (filter (\<lambda>c. c = NUL) ?s) \<noteq> 2"
    using two other by (metis Inl_Inr_False sum.inject(1) two_nulls)
  ultimately show ?thesis by blast
qed



theorem parse_secret_exact_witness:
  "parse_secret ''only text'' 9 = Inl (SdBusError EINVAL ''Malformed extra data'')"
  using parse_secret_exact [where n = 9 and buf = "''only text''"
      and e = "SdBusError EINVAL ''Malformed extra data''"]
  by (simp add: NUL_def)

section \<open>The temporary file with the password\<close>

record volatile_file =
  filePath :: string
  vf_size :: nat

definition volatile_create :: "env \<Rightarrow> string \<Rightarrow> volatile_file wprog" where
  "volatile_create E contents =
     bindM (sys E (MakeTempFile (tmp_dir E @ ''/VM-XXXXXX''))) (\<lambda>fd.
     bindM (getM (\<lambda>w. ask_str E (hist w) (MakeTempFile (tmp_dir E @ ''/VM-XXXXXX'')))) (\<lambda>path.
     bindM (sys E (WriteBytes path contents)) (\<lambda>nw.
       if nw \<noteq> int (length contents)
       then throwM (SdBusError EIO ''I/O error on temporary file'')
       else returnM \<lparr>filePath = path, vf_size = length contents\<rparr>)))"

text \<open>The loop of \<^verbatim>\<open>purgeFileContents\<close>: the sizes of the blocks it writes.\<close>

function purge_blocks :: "nat \<Rightarrow> nat \<Rightarrow> nat list" where
  "purge_blocks bytesWritten n =
     (if bytesWritten < n
      then (let bytesToWrite = min secretLimit (n - bytesWritten)
            in bytesToWrite # purge_blocks (bytesWritten + bytesToWrite) n)
      else [])"
  by pat_completeness auto
termination
  by (relation "measure (\<lambda>(b, n). n - b)") (auto simp: secretLimit_def)

declare purge_blocks.simps [simp del]

definition purgeFileContents :: "env \<Rightarrow> volatile_file \<Rightarrow> unit wprog" where
  "purgeFileContents E f =
     bindM (sys_bool E (OpenForWrite (filePath f))) (\<lambda>opened.
       if opened
       then forM (purge_blocks 0 (vf_size f)) (\<lambda>n.
              do_sys E (WriteBytes (filePath f) (replicate n (CHR ''*''))))
       else returnM ())"

definition volatile_destroy :: "env \<Rightarrow> volatile_file \<Rightarrow> unit wprog" where
  "volatile_destroy E f =
     thenM (purgeFileContents E f)
       (bindM (sys E (RemovePath (filePath f))) (\<lambda>r.
          if r < 0 then throwM Terminate else returnM ()))"

lemma purge_blocks_props:
  "sum_list (purge_blocks b n) = n - b \<and> (\<forall>k \<in> set (purge_blocks b n). 0 < k \<and> k \<le> secretLimit)"
proof (induction b n rule: purge_blocks.induct)
  case (1 b n)
  show ?case
  proof (cases "b < n")
    case True
    let ?k = "min secretLimit (n - b)"
    from True "1.IH" [OF True refl] show ?thesis
      by (subst (1 2) purge_blocks.simps) (auto simp: Let_def secretLimit_def)
  next
    case False
    then show ?thesis by (subst (1 2) purge_blocks.simps) simp
  qed
qed

text \<open>What \<open>forM\<close> over writes puts into the history: one entry per block, newest first.\<close>

lemma forM_writes:
  "\<exists>rs. length rs = length ns \<and>
     forM ns (\<lambda>n. do_sys E (WriteBytes p (g n))) w =
       (Inr (), w\<lparr>hist := zip (map (\<lambda>n. WriteBytes p (g n)) (rev ns)) rs @ hist w\<rparr>)"
proof (induction ns arbitrary: w)
  case Nil
  show ?case by (simp add: returnM_def)
next
  case (Cons n ns)
  let ?c = "WriteBytes p (g n)"
  let ?w = "w\<lparr>hist := (?c, ask E (hist w) ?c) # hist w\<rparr>"
  from Cons.IH [of ?w] obtain rs where rs: "length rs = length ns"
    "forM ns (\<lambda>n. do_sys E (WriteBytes p (g n))) ?w =
       (Inr (), ?w\<lparr>hist := zip (map (\<lambda>n. WriteBytes p (g n)) (rev ns)) rs @ hist ?w\<rparr>)"
    by blast
  then show ?case
    by (intro exI [of _ "rs @ [ask E (hist w) ?c]"])
      (simp add: then_do_sys)
qed

text \<open>How many bytes a history wrote to a file after it was last opened for writing.\<close>

fun bytes_since_open :: "string \<Rightarrow> hist \<Rightarrow> nat" where
  "bytes_since_open p [] = 0"
| "bytes_since_open p ((c, r) # h) =
     (case c of
        OpenForWrite q \<Rightarrow> if q = p then 0 else bytes_since_open p h
      | WriteBytes q s \<Rightarrow> (if q = p then length s else 0) + bytes_since_open p h
      | _ \<Rightarrow> bytes_since_open p h)"

lemma bytes_since_open_writes:
  "length rs = length ns \<Longrightarrow>
   bytes_since_open p (zip (map (\<lambda>n. WriteBytes p (replicate n c)) ns) rs @ h) =
     sum_list ns + bytes_since_open p h"
proof (induction ns arbitrary: rs)
  case (Cons n ns)
  then show ?case by (cases rs) auto
qed simp

text \<open>
  C22. The destructor of the password file overwrites it completely before removing it: once the file
  could be opened, asterisks are written over exactly as many bytes as the file was created with,
  in blocks of at most \<open>secretLimit\<close>, and the removal comes after the last of them.
\<close>

theorem volatile_file_purged:
  assumes "ask E (hist w) (OpenForWrite (filePath f)) > 0"
    and "volatile_destroy E f w = (r, w')"
  shows "\<exists>h a. hist w' = (RemovePath (filePath f), a) # h \<and>
               bytes_since_open (filePath f) h = vf_size f"
proof -
  let ?o = "OpenForWrite (filePath f)"
  let ?w = "w\<lparr>hist := (?o, ask E (hist w) ?o) # hist w\<rparr>"
  let ?ns = "purge_blocks 0 (vf_size f)"
  from forM_writes [of ?ns E "filePath f" "\<lambda>n. replicate n (CHR ''*'')" ?w]
  obtain rs where rs: "length rs = length ?ns"
    and w: "purgeFileContents E f w = (Inr (), ?w\<lparr>hist :=
      zip (map (\<lambda>n. WriteBytes (filePath f) (replicate n (CHR ''*''))) (rev ?ns)) rs @ hist ?w\<rparr>)"
    using assms(1) by (auto simp: purgeFileContents_def bindM_def sys_bool_result)
  let ?h = "zip (map (\<lambda>n. WriteBytes (filePath f) (replicate n (CHR ''*''))) (rev ?ns)) rs @ hist ?w"
  have "bytes_since_open (filePath f) ?h = sum_list (rev ?ns)"
    using rs by (subst bytes_since_open_writes) auto
  also have "\<dots> = vf_size f" using purge_blocks_props [of 0 "vf_size f"] by (simp add: sum_list_rev)
  finally have "bytes_since_open (filePath f) ?h = vf_size f" .
  moreover have "hist w' = (RemovePath (filePath f), ask E ?h (RemovePath (filePath f))) # ?h"
    using assms(2) w
    by (auto simp: volatile_destroy_def thenM_def bindM_def sys_result throwM_def returnM_def
        split: if_splits)
  ultimately show ?thesis by blast
qed

definition writable_env :: env where
  "writable_env = quiet_env\<lparr>ask := (\<lambda>_ c. case c of OpenForWrite _ \<Rightarrow> 1 | _ \<Rightarrow> 0)\<rparr>"

theorem volatile_file_purged_witness:
  "\<exists>h a. hist (snd (volatile_destroy writable_env \<lparr>filePath = ''/tmp/VM-1'', vf_size = 2500\<rparr>
       (initial_world None))) = (RemovePath ''/tmp/VM-1'', a) # h \<and>
     bytes_since_open ''/tmp/VM-1'' h = 2500"
proof -
  let ?f = "\<lparr>filePath = ''/tmp/VM-1'', vf_size = 2500\<rparr>"
  let ?m = "volatile_destroy writable_env ?f (initial_world None)"
  have "?m = (fst ?m, snd ?m)" by simp
  from volatile_file_purged [OF _ this] show ?thesis
    by (simp add: writable_env_def)
qed

end
