(* ===== verification/FsPath.thy ===== *)
theory FsPath
  imports CxxString
begin

text \<open>
  The part of \<^verbatim>\<open>std::filesystem::path\<close> (POSIX format) that the program uses: \<^verbatim>\<open>filename\<close>,
  \<^verbatim>\<open>parent_path\<close> and \<^verbatim>\<open>operator/\<close>.
\<close>

definition filename :: "string \<Rightarrow> string" where
  "filename p = (case find_last_of ''/'' p of None \<Rightarrow> p | Some i \<Rightarrow> drop (Suc i) p)"

definition drop_trailing_slashes :: "string \<Rightarrow> string" where
  "drop_trailing_slashes s = rev (dropWhile (\<lambda>c. c = CHR ''/'') (rev s))"

text \<open>A path without a relative part (only separators) is its own parent; otherwise the last
  component goes, with the separators before it unless they are the root.\<close>

definition parent_path :: "string \<Rightarrow> string" where
  "parent_path p =
     (if list_all (\<lambda>c. c = CHR ''/'') p then p
      else let stem = take (length p - length (filename p)) p;
               t = drop_trailing_slashes stem
           in if t = '''' \<and> stem \<noteq> '''' then ''/'' else t)"

definition path_append :: "string \<Rightarrow> string \<Rightarrow> string" where
  "path_append p q =
     (if starts_with q ''/'' then q
      else if p \<noteq> '''' \<and> last p \<noteq> CHR ''/'' then p @ ''/'' @ q else p @ q)"

lemma filename_append:
  assumes "CHR ''/'' \<notin> set f"
  shows "filename (d @ CHR ''/'' # f) = f"
  using find_last_of_append [of f "''/''" "CHR ''/''" d] assms
  by (simp add: filename_def)

lemma filename_plain: "CHR ''/'' \<notin> set f \<Longrightarrow> filename f = f"
  using find_last_of_None [of "''/''" f] by (simp add: filename_def split: option.splits)

lemma filename_no_slash: "CHR ''/'' \<notin> set (filename p)"
  using find_last_of_Some [of "''/''" p] find_last_of_None [of "''/''" p]
  by (auto simp: filename_def split: option.splits)

lemma drop_trailing_slashes_snoc:
  "drop_trailing_slashes (s @ [c]) = (if c = CHR ''/'' then drop_trailing_slashes s else s @ [c])"
  by (simp add: drop_trailing_slashes_def)

lemma parent_path_append:
  assumes "d \<noteq> ''''" and "last d \<noteq> CHR ''/''" and "CHR ''/'' \<notin> set f"
  shows "parent_path (d @ CHR ''/'' # f) = d"
proof -
  from assms(1) obtain e c where d: "d = e @ [c]" by (metis rev_exhaust)
  with assms(2) have c: "c \<noteq> CHR ''/''" by simp
  have strip: "drop_trailing_slashes (d @ [CHR ''/'']) = d"
    using c by (simp only: drop_trailing_slashes_snoc d if_True refl if_False)
  have stem: "take (length (d @ CHR ''/'' # f) - length f) (d @ CHR ''/'' # f) = d @ [CHR ''/'']"
    by simp
  have "\<not> list_all (\<lambda>c. c = CHR ''/'') (d @ CHR ''/'' # f)"
    using c by (simp add: d)
  then show ?thesis
    unfolding parent_path_def filename_append [OF assms(3)] stem strip Let_def
    using assms(1) by simp
qed

text \<open>What \<open>path_append\<close> and \<open>parent_path\<close> do is inverse on a directory and a plain name.\<close>

lemma parent_path_path_append:
  assumes "d \<noteq> ''''" and "last d \<noteq> CHR ''/''" and "CHR ''/'' \<notin> set f"
  shows "parent_path (path_append d f) = d \<and> filename (path_append d f) = f"
proof -
  have "\<not> starts_with f ''/''" using assms(3) by (auto simp: starts_with_iff)
  with assms parent_path_append [OF assms] filename_append [OF assms(3), of d] show ?thesis
    by (simp add: path_append_def)
qed

end
