(* ===== verification/Shares.thy ===== *)
theory Shares
  imports Secrets FsPath
begin

text \<open>
  The remote shares: \<^verbatim>\<open>utils::safeMount\<close> of \<^verbatim>\<open>src/utils.hpp\<close>, \<^verbatim>\<open>NfsShare\<close> of \<^verbatim>\<open>src/nfs.hpp\<close> and
  \<^verbatim>\<open>SmbShare\<close> of \<^verbatim>\<open>src/smb.hpp\<close>. What a client may rely on of either is the locale
  \<open>share_driver\<close>.
\<close>

unbundle bit_operations_syntax

section \<open>Mounting with safety flags\<close>

definition MS_RDONLY :: "64 word" where "MS_RDONLY = 1"
definition MS_NOSUID :: "64 word" where "MS_NOSUID = 2"
definition MS_NODEV :: "64 word" where "MS_NODEV = 4"
definition MS_NOEXEC :: "64 word" where "MS_NOEXEC = 8"

lemmas mount_flag_defs = MS_RDONLY_def MS_NOSUID_def MS_NODEV_def MS_NOEXEC_def

text \<open>
  The result is the return value of \<^verbatim>\<open>mount(2)\<close> and \<^verbatim>\<open>errno\<close>: the answer of the call is 0 or the
  error number. \<^verbatim>\<open>flags +=\<close> adds the three bits.
\<close>

definition safeMount ::
    "env \<Rightarrow> string \<Rightarrow> string \<Rightarrow> string \<Rightarrow> 64 word \<Rightarrow> string \<Rightarrow> (int \<times> int) wprog" where
  "safeMount E remotePath localPath fs flags options =
     (let flags' = flags + (MS_NODEV OR MS_NOEXEC OR MS_NOSUID)
      in bindM (sys E (MountCall remotePath localPath fs flags' options))
           (\<lambda>r. returnM (if r = 0 then (0, 0) else (-1, r))))"

definition share_flags :: "bool \<Rightarrow> 64 word" where
  "share_flags rw = (if rw then 0 else MS_RDONLY)"

definition mount_errno :: "int \<times> int \<Rightarrow> int" where
  "mount_errno ec = (if fst ec \<noteq> 0 then snd ec else 0)"

section \<open>NFS\<close>

definition parseNfsArgs :: "string \<Rightarrow> string \<Rightarrow> (string \<times> string) option" where
  "parseNfsArgs remote options =
     (case find_str '':/'' remote of
        None \<Rightarrow> None
      | Some index \<Rightarrow>
          Some (take (length remote - 1) (drop index remote),
                (if options \<noteq> '''' then options @ '','' else options) @
                ''addr='' @ take index remote))"

definition nfs_unreachable :: "int \<Rightarrow> bool" where
  "nfs_unreachable e \<longleftrightarrow> e = ETIMEDOUT \<or> e = EHOSTUNREACH \<or> e = ENETUNREACH \<or> e = EHOSTDOWN"

definition nfs_map_errno :: "int \<Rightarrow> int" where
  "nfs_map_errno e =
     (if e = EACCES then EPERM
      else if e = ENETUNREACH \<or> e = EHOSTUNREACH \<or> e = EHOSTDOWN \<or> e = EADDRNOTAVAIL \<or> e = ETIMEDOUT
      then EHOSTUNREACH
      else if e = ECONNREFUSED \<or> e = ENOTCONN \<or> e = EOPNOTSUPP then ECONNREFUSED
      else e)"

definition nfs_mount :: "env \<Rightarrow> string \<Rightarrow> string \<Rightarrow> bool \<Rightarrow> int wprog" where
  "nfs_mount E mountDir remote rw =
     (case parseNfsArgs remote ''soft,timeo=30,retrans=1'' of
        None \<Rightarrow> returnM EINVAL
      | Some (remoteNfsPath, options) \<Rightarrow>
          bindM (safeMount E remoteNfsPath mountDir ''nfs4'' (share_flags rw) options) (\<lambda>ec.
          let mountErrno = mount_errno ec in
          bindM
            (if fst ec \<noteq> 0 \<and> \<not> nfs_unreachable mountErrno
             then bindM (safeMount E remoteNfsPath mountDir ''nfs'' (share_flags rw)
                           (options @ '',nolock'')) (\<lambda>ec2. returnM (mount_errno ec2))
             else returnM mountErrno)
            (\<lambda>mountErrno'. returnM (nfs_map_errno mountErrno'))))"

section \<open>CIFS\<close>

definition validateUsername :: "string \<Rightarrow> bool" where
  "validateUsername username = (find_str '','' username = None)"

definition smb_map_errno :: "int \<Rightarrow> int" where
  "smb_map_errno e =
     (if e = EACCES \<or> e = EAGAIN then EPERM
      else if e = ENETUNREACH \<or> e = EHOSTUNREACH \<or> e = EHOSTDOWN \<or> e = EADDRNOTAVAIL
      then EHOSTUNREACH
      else if e = ECONNREFUSED \<or> e = ENOTCONN \<or> e = EINPROGRESS then ECONNREFUSED
      else e)"

definition smb_base_options :: string where
  "smb_base_options = ''sec=ntlmsspi,seal,soft,cache=none,retrans=1,echo_interval=1''"

definition smb_credentials_option :: "credentials option \<Rightarrow> string" where
  "smb_credentials_option credentials =
     (case credentials of
        None \<Rightarrow> ''guest,username=OpenBmc''
      | Some c \<Rightarrow> ''username='' @ userBuf c @ '',password='' @ passBuf c)"

definition smb_mount_with ::
    "env \<Rightarrow> string \<Rightarrow> string \<Rightarrow> bool \<Rightarrow> credentials option \<Rightarrow> int wprog" where
  "smb_mount_with E mountDir remote rw credentials =
     (let options = smb_base_options @ '','' @ smb_credentials_option credentials in
      bindM (safeMount E remote mountDir ''cifs'' (share_flags rw) (options @ '',vers=3.1.1'')) (\<lambda>ec.
      bindM
        (if fst ec \<noteq> 0
         then safeMount E remote mountDir ''cifs'' (share_flags rw) (options @ '',vers=3'')
         else returnM ec)
        (\<lambda>ec2. returnM (smb_map_errno (mount_errno ec2)))))"

text \<open>The credentials are shared with the caller, so the escaped ones are part of the result.\<close>

definition smb_mount ::
    "env \<Rightarrow> string \<Rightarrow> string \<Rightarrow> bool \<Rightarrow> credentials option \<Rightarrow> (int \<times> credentials option) wprog" where
  "smb_mount E mountDir remote rw credentials =
     (case credentials of
        None \<Rightarrow> bindM (smb_mount_with E mountDir remote rw None) (\<lambda>e. returnM (e, None))
      | Some c \<Rightarrow>
          if \<not> validateUsername (userBuf c) then returnM (EINVAL, Some c)
          else let c' = escapeCommas c in
               bindM (smb_mount_with E mountDir remote rw (Some c')) (\<lambda>e. returnM (e, Some c')))"

section \<open>The flags of every mount\<close>

text \<open>A mount call keeps the share from bringing in devices, programs or privileges, and is
  read-only unless writing was asked for.\<close>

definition secure_mount_call :: "bool \<Rightarrow> string \<Rightarrow> call \<times> int \<Rightarrow> bool" where
  "secure_mount_call rw d x =
     (case x of
        (MountCall _ l _ flags _, r) \<Rightarrow>
          l = d \<and> flags AND MS_NODEV \<noteq> 0 \<and> flags AND MS_NOEXEC \<noteq> 0 \<and> flags AND MS_NOSUID \<noteq> 0 \<and>
          (flags AND MS_RDONLY \<noteq> 0 \<longleftrightarrow> \<not> rw)
      | _ \<Rightarrow> False)"

definition mount_entry ::
    "env \<Rightarrow> world \<Rightarrow> string \<Rightarrow> string \<Rightarrow> string \<Rightarrow> bool \<Rightarrow> string \<Rightarrow> call \<times> int" where
  "mount_entry E w remote d fs rw options =
     (let c = MountCall remote d fs (share_flags rw + (MS_NODEV OR MS_NOEXEC OR MS_NOSUID)) options
      in (c, ask E (hist w) c))"

lemma mount_entry_secure: "secure_mount_call rw d (mount_entry E w remote d fs rw options)"
  by (cases rw)
    (simp_all add: secure_mount_call_def mount_entry_def share_flags_def mount_flag_defs Let_def)

lemma is_mount_entry [simp]:
  "is_mount_of d (mount_entry E w remote d fs rw options) \<longleftrightarrow>
     snd (mount_entry E w remote d fs rw options) = 0"
  by (simp add: is_mount_of_def mount_entry_def Let_def)

lemma bind_safeMount:
  "bindM (safeMount E remote d fs (share_flags rw) options) f w =
     (let x = mount_entry E w remote d fs rw options
      in f (if snd x = 0 then (0, 0) else (-1, snd x)) (w\<lparr>hist := x # hist w\<rparr>))"
  by (simp add: safeMount_def mount_entry_def Let_def bindM_assoc bind_sys)

text \<open>
  C23. Every mount the program makes for a share carries \<^verbatim>\<open>nosuid\<close>, \<^verbatim>\<open>nodev\<close> and \<^verbatim>\<open>noexec\<close>, is
  read-only exactly when the client did not ask to write, and goes to the share's own directory;
  nothing else happens, and at most two attempts are made.
\<close>

lemma nfs_mount_history:
  "\<exists>new. hist (snd (nfs_mount E d remote rw w)) = new @ hist w \<and>
     list_all (secure_mount_call rw d) new \<and> length new \<le> 2"
  by (cases "parseNfsArgs remote ''soft,timeo=30,retrans=1''")
    (auto simp: nfs_mount_def returnM_def bind_safeMount bindM_assoc Let_def mount_entry_secure
       split: if_splits)

lemma smb_mount_history:
  "\<exists>new. hist (snd (smb_mount E d remote rw cr w)) = new @ hist w \<and>
     list_all (secure_mount_call rw d) new \<and> length new \<le> 2"
  by (auto simp: smb_mount_def smb_mount_with_def returnM_def bind_safeMount bindM_assoc Let_def
      mount_entry_secure split: option.splits if_splits)

theorem share_mounts_secure:
  "(\<exists>new. hist (snd (nfs_mount E d remote rw w)) = new @ hist w \<and>
      list_all (secure_mount_call rw d) new \<and> length new \<le> 2) \<and>
   (\<exists>new. hist (snd (smb_mount E d remote rw cr w)) = new @ hist w \<and>
      list_all (secure_mount_call rw d) new \<and> length new \<le> 2)"
  using nfs_mount_history smb_mount_history by blast

section \<open>What a client may rely on\<close>

text \<open>
  The contract of a share: the operation returns (it never throws), touches nothing but the
  history, to which it adds secure mount calls on its own directory only, and reports 0 exactly
  when it left one more file system mounted there.
\<close>

locale share_driver =
  fixes mount_op :: "string \<Rightarrow> bool \<Rightarrow> int wprog"
    and dir :: string
  assumes mount_returns: "\<exists>e. fst (mount_op remote rw w) = Inr e"
    and mount_history: "\<exists>new. snd (mount_op remote rw w) = w\<lparr>hist := new @ hist w\<rparr> \<and>
          list_all (secure_mount_call rw dir) new \<and>
          tally (is_mount_of dir) new = (if fst (mount_op remote rw w) = Inr 0 then 1 else 0)"
begin

lemma mount_cases:
  obtains (mounted) new where "mount_op remote rw w = (Inr 0, w\<lparr>hist := new @ hist w\<rparr>)"
      and "list_all (secure_mount_call rw dir) new" and "tally (is_mount_of dir) new = 1"
    | (failed) e new where "mount_op remote rw w = (Inr e, w\<lparr>hist := new @ hist w\<rparr>)" and "e \<noteq> 0"
      and "list_all (secure_mount_call rw dir) new" and "tally (is_mount_of dir) new = 0"
  using mount_returns [of remote rw w] mount_history [of remote rw w]
  by (cases "mount_op remote rw w") (auto split: if_splits)

end

lemma nfs_map_errno_zero: "nfs_map_errno e = 0 \<longleftrightarrow> e = 0"
  by (auto simp: nfs_map_errno_def errno_defs)

lemma smb_map_errno_zero: "smb_map_errno e = 0 \<longleftrightarrow> e = 0"
  by (auto simp: smb_map_errno_def errno_defs)

lemma mount_errno_simps [simp]:
  "mount_errno (0, e) = 0"
  "mount_errno (-1, e) = e"
  by (simp_all add: mount_errno_def)

text \<open>The effect of one use of a share: what it adds to the history, and its result.\<close>

definition mount_effect :: "bool \<Rightarrow> string \<Rightarrow> world \<Rightarrow> (exn + int) \<times> world \<Rightarrow> bool" where
  "mount_effect rw d w res \<longleftrightarrow>
     (\<exists>e new. res = (Inr e, w\<lparr>hist := new @ hist w\<rparr>) \<and>
        list_all (secure_mount_call rw d) new \<and>
        tally (is_mount_of d) new = (if e = 0 then 1 else 0))"

lemma mount_effect_none: "e \<noteq> 0 \<Longrightarrow> mount_effect rw d w (Inr e, w)"
  unfolding mount_effect_def by (intro exI [of _ e] exI [of _ "[]"]) simp

lemma mount_effect_one:
  "secure_mount_call rw d x \<Longrightarrow> is_mount_of d x \<longleftrightarrow> e = 0 \<Longrightarrow>
   mount_effect rw d w (Inr e, w\<lparr>hist := x # hist w\<rparr>)"
  unfolding mount_effect_def by (intro exI [of _ e] exI [of _ "[x]"]) simp

lemma mount_effect_two:
  "secure_mount_call rw d x \<Longrightarrow> secure_mount_call rw d y \<Longrightarrow> \<not> is_mount_of d x \<Longrightarrow>
   is_mount_of d y \<longleftrightarrow> e = 0 \<Longrightarrow>
   mount_effect rw d w (Inr e, w\<lparr>hist := y # x # hist w\<rparr>)"
  unfolding mount_effect_def by (intro exI [of _ e] exI [of _ "[y, x]"]) simp

lemmas mount_effect_intros = mount_effect_none mount_effect_one mount_effect_two

lemma nfs_mount_effect: "mount_effect rw d w (nfs_mount E d remote rw w)"
  by (auto simp: nfs_mount_def returnM_def bind_safeMount bindM_assoc Let_def mount_entry_secure
      nfs_map_errno_zero EINVAL_def split: option.splits intro!: mount_effect_intros)

lemma smb_mount_with_effect: "mount_effect rw d w (smb_mount_with E d remote rw cr w)"
  by (auto simp: smb_mount_with_def returnM_def bind_safeMount bindM_assoc Let_def
      mount_entry_secure smb_map_errno_zero intro!: mount_effect_intros)

definition smb_driver :: "env \<Rightarrow> string \<Rightarrow> credentials option \<Rightarrow> string \<Rightarrow> bool \<Rightarrow> int wprog" where
  "smb_driver E d cr remote rw = bindM (smb_mount E d remote rw cr) (\<lambda>r. returnM (fst r))"

lemma smb_driver_effect: "mount_effect rw d w (smb_driver E d cr remote rw w)"
proof -
  have "smb_driver E d cr remote rw w =
    (case cr of
       None \<Rightarrow> smb_mount_with E d remote rw None w
     | Some c \<Rightarrow> if \<not> validateUsername (userBuf c) then (Inr EINVAL, w)
                 else smb_mount_with E d remote rw (Some (escapeCommas c)) w)"
    by (auto simp: smb_driver_def smb_mount_def Let_def bindM_def returnM_def
        split: option.splits prod.splits sum.splits)
  then show ?thesis
    by (auto simp: smb_mount_with_effect EINVAL_def split: option.splits intro!: mount_effect_none)
qed

lemma share_driverI:
  assumes "\<And>remote rw w. mount_effect rw d w (m remote rw w)"
  shows "share_driver m d"
proof
  show "\<exists>e. fst (m remote rw w) = Inr e" for remote rw w
    using assms [of rw w remote] by (auto simp: mount_effect_def)
  show "\<exists>new. snd (m remote rw w) = w\<lparr>hist := new @ hist w\<rparr> \<and>
          list_all (secure_mount_call rw d) new \<and>
          tally (is_mount_of d) new = (if fst (m remote rw w) = Inr 0 then 1 else 0)"
    for remote rw w
    using assms [of rw w remote] by (auto simp: mount_effect_def)
qed

interpretation nfs: share_driver "nfs_mount E d" d for E d
  by (rule share_driverI) (rule nfs_mount_effect)

interpretation smb: share_driver "smb_driver E d cr" d for E d cr
  by (rule share_driverI) (rule smb_driver_effect)

section \<open>Functional behaviour\<close>

text \<open>
  The answers of \<^verbatim>\<open>mount\<close> in the numbers of Linux: an error number in the left column is reported to the
  client as the one in the right column, any other as itself.
\<close>

definition nfs_answers :: "(int \<times> int) list" where
  "nfs_answers =
     [(13, 1),
      (99, 113), (101, 113), (110, 113), (112, 113), (113, 113),
      (95, 111), (107, 111), (111, 111)]"

lemma nfs_map_errno_table:
  "nfs_map_errno e = (case map_of nfs_answers e of None \<Rightarrow> e | Some answer \<Rightarrow> answer)"
  by (simp add: nfs_map_errno_def nfs_answers_def errno_defs)

text \<open>
  C24. NFS, all branches: a remote name without \<^verbatim>\<open>:/\<close> is EINVAL (22) and mounts nothing. Otherwise the
  name is split at its first \<^verbatim>\<open>:/\<close> and version 4 is tried first; the version 3 fallback (with \<^verbatim>\<open>nolock\<close>
  added) is tried exactly when that attempt failed for another reason than a host that is down, cannot
  be reached or does not answer (101, 110, 112, 113), which is reported as 113 at once; otherwise the
  error number of the second attempt is reported as the table says, and 0 when it succeeded.
\<close>

theorem nfs_mount_outcome:
  "nfs_mount E d remote rw w =
     (case find_str '':/'' remote of
        None \<Rightarrow> (Inr 22, w)
      | Some index \<Rightarrow>
          let path = take (length remote - 1) (drop index remote);
              options = ''soft,timeo=30,retrans=1,addr='' @ take index remote;
              x1 = mount_entry E w path d ''nfs4'' rw options;
              w1 = w\<lparr>hist := x1 # hist w\<rparr>;
              x2 = mount_entry E w1 path d ''nfs'' rw (options @ '',nolock'')
          in if snd x1 = 0 then (Inr 0, w1)
             else if snd x1 \<in> {101, 110, 112, 113} then (Inr 113, w1)
             else (Inr (case map_of nfs_answers (snd x2) of None \<Rightarrow> snd x2 | Some answer \<Rightarrow> answer),
                   w1\<lparr>hist := x2 # hist w1\<rparr>))"
proof -
  have up: "nfs_unreachable e \<longleftrightarrow> e \<in> {101, 110, 112, 113}" for e
    by (auto simp: nfs_unreachable_def errno_defs)
  have known: "nfs_map_errno 0 = 0" "e \<in> {101, 110, 112, 113} \<Longrightarrow> nfs_map_errno e = 113" for e
    by (auto simp: nfs_map_errno_def errno_defs)
  show ?thesis
    unfolding nfs_map_errno_table [symmetric]
    by (auto simp: nfs_mount_def parseNfsArgs_def returnM_def bind_safeMount bindM_assoc Let_def up known
        EINVAL_def split: option.splits)
qed





text \<open>Without a host the last character of the path is lost, because the count given to
  \<^verbatim>\<open>substr\<close> is one less than the length of the whole name.\<close>

lemma parseNfsArgs_empty_host:
  "parseNfsArgs '':/iso'' opts = Some ('':/is'', (if opts \<noteq> '''' then opts @ '','' else opts) @ ''addr='')"
  by (simp add: parseNfsArgs_def starts_with_def)

text \<open>The host is not escaped, so a comma in it starts another mount option.\<close>

lemma parseNfsArgs_host_comma:
  "map_option (\<lambda>x. split_options [] (snd x)) (parseNfsArgs ''h,port=1:/iso'' ''soft'') =
     Some [''soft'', ''addr=h'', ''port=1'']"
  by (simp add: parseNfsArgs_def starts_with_def)

text \<open>
  How the options of a mount call read back.
\<close>

definition smb_options_of :: "call \<times> int \<Rightarrow> string list" where
  "smb_options_of x = (case x of (MountCall _ _ _ _ options, _) \<Rightarrow> split_options [] options | _ \<Rightarrow> [])"

lemma mount_entry_options:
  "smb_options_of (mount_entry E w remote d fs rw options) = split_options [] options"
  by (simp add: smb_options_of_def mount_entry_def Let_def)

definition smb_fixed_options :: "string list" where
  "smb_fixed_options =
     [''sec=ntlmsspi'', ''seal'', ''soft'', ''cache=none'', ''retrans=1'', ''echo_interval=1'']"

lemma smb_options_read_back:
  assumes "CHR '','' \<notin> set user" and "CHR '','' \<notin> set v" and "v \<noteq> ''''"
  shows "split_options [] (smb_base_options @ '','' @ ''username='' @ user @ '',password='' @
           escapeComma pass @ '','' @ v) =
         smb_fixed_options @ [''username='' @ user, ''password='' @ pass, v]"
proof -
  from assms(2,3) obtain c t where v: "v = c # t" "c \<noteq> CHR '',''" by (cases v) auto
  have tail: "split_options acc ('','' @ v) = [rev acc, v]" for acc
    using split_options_append [OF assms(2), of "[]" "[]"] v by simp
  have "split_options acc (user @ '',password='' @ escapeComma pass @ '','' @ v) =
        [rev acc @ user, ''password='' @ pass, v]" for acc
    using tail [of "rev pass @ rev ''password=''"]
    by (simp add: split_options_append [OF assms(1)] split_options_escaped split_options_plain)
  then show ?thesis
    by (simp add: smb_base_options_def smb_fixed_options_def split_options_plain)
qed

text \<open>
  C26. A CIFS password cannot inject mount options. When the user name is accepted, every mount is
  made with options that read back as the fixed ones, the user name, the password exactly as it was
  given (commas included) and the protocol version; when it is not, no mount is made.
\<close>

theorem smb_password_confined:
  assumes "\<not> commasEscaped c"
    and "smb_mount E d remote rw (Some c) w = (r, w')"
  shows "if validateUsername (userBuf c)
         then \<exists>new. hist w' = new @ hist w \<and> new \<noteq> [] \<and>
                (\<forall>x \<in> set new. \<exists>v. smb_options_of x = smb_fixed_options @
                   [''username='' @ userBuf c, ''password='' @ passBuf c, v])
         else w' = w \<and> r = Inr (EINVAL, Some c)"
proof (cases "validateUsername (userBuf c)")
  case False
  with assms(2) show ?thesis by (simp add: smb_mount_def returnM_def)
next
  case True
  then have user: "CHR '','' \<notin> set (userBuf c)"
    by (simp add: validateUsername_def find_str_char_None)
  let ?c' = "escapeCommas c"
  have pass: "passBuf ?c' = escapeComma (passBuf c)" using assms(1) by (simp add: escapeCommas_def)
  let ?opt = "smb_base_options @ '','' @ smb_credentials_option (Some ?c')"
  have rb: "split_options [] (?opt @ '','' @ v) =
      smb_fixed_options @ [''username='' @ userBuf c, ''password='' @ passBuf c, v]"
    if "CHR '','' \<notin> set v" "v \<noteq> ''''" for v
    using smb_options_read_back [OF user that, of "passBuf c"]
    by (simp add: smb_credentials_option_def pass)
  note rbs = rb [of "''vers=3.1.1''"] rb [of "''vers=3''"]
  from assms(2) True show ?thesis
    using rbs
    by (auto simp: smb_mount_def smb_mount_with_def Let_def bind_safeMount bindM_assoc returnM_def
        mount_entry_options split: if_splits)
qed

theorem smb_password_confined_witness:
  "\<exists>new. hist (snd (smb_mount quiet_env ''/tmp/Slot_2'' ''//h/share'' False
             (Some (make_credentials ''bob'' ''x,uid=0'')) (initial_world None))) = new @ [] \<and>
         new \<noteq> [] \<and>
         (\<forall>x \<in> set new. \<exists>v. smb_options_of x = smb_fixed_options @
            [''username=bob'', ''password=x,uid=0'', v])"
proof -
  let ?m = "smb_mount quiet_env ''/tmp/Slot_2'' ''//h/share'' False
              (Some (make_credentials ''bob'' ''x,uid=0'')) (initial_world None)"
  have "?m = (fst ?m, snd ?m)" by simp
  from smb_password_confined [OF _ this] show ?thesis
    by (simp add: make_credentials_def initial_world_def validateUsername_def starts_with_def)
qed

end
