(* ===== verification/Sessions.thy ===== *)
theory Sessions
  imports Platform "HOL-Library.Multiset"
begin

text \<open>
  \<^verbatim>\<open>DbusMonitor\<close> of \<^verbatim>\<open>src/system.hpp\<close>: when the session manager publishes a new list of virtual
  media sessions, the slots whose session is gone are unmounted by a child process each. With it
  \<^verbatim>\<open>unMount\<close>, \<^verbatim>\<open>mountMethod\<close> and the service names of the process.
\<close>

section \<open>Names\<close>

definition mountMethod :: "string \<Rightarrow> string" where
  "mountMethod Slot =
     (if Slot = ''Slot_0'' \<or> Slot = ''Slot_1'' then ''console''
      else if Slot = ''Slot_2'' \<or> Slot = ''Slot_3'' then ''remote''
      else '' '')"

definition getMountDirPrefix :: "env \<Rightarrow> world \<Rightarrow> string" where
  "getMountDirPrefix E w =
     (if multi_host E \<and> g_basePath w = ''VirtualMedia1'' then ''/tmp/vmedia1/'' else ''/tmp/'')"

definition getServiceAndBasePath :: "world \<Rightarrow> string \<times> string" where
  "getServiceAndBasePath w = (g_serviceName w, g_basePath w)"

text \<open>The request a child process makes to unmount a slot: service, object, interface.\<close>

definition unMount_target :: "world \<Rightarrow> string \<Rightarrow> string \<times> string \<times> string" where
  "unMount_target w Slot =
     (let (vMediaService, basePath) = getServiceAndBasePath w;
          obj = ''/xyz/openbmc_project/'';
          iface = ''xyz.openbmc_project.VirtualMedia.''
      in if Slot = ''Slot_0'' \<or> Slot = ''Slot_1''
         then (vMediaService, obj @ basePath @ ''/Proxy/'' @ Slot, iface @ ''Proxy'')
         else (vMediaService, obj @ basePath @ ''/Legacy/'' @ Slot, iface @ ''Legacy''))"

definition unMount :: "env \<Rightarrow> string \<Rightarrow> unit wprog" where
  "unMount E Slot =
     bindM (getM (\<lambda>w. unMount_target w Slot)) (\<lambda>(service, obj, iface).
       thenM (dbus_call E service obj iface ''Unmount'' []) (returnM ()))"

definition sessMgrVmediaIface :: string where
  "sessMgrVmediaIface = ''xyz.openbmc_project.SessionManager.VmediaSessionInfo''"

section \<open>Which sessions are gone\<close>

fun findKeyForValue :: "(string \<times> 8 word) list \<Rightarrow> 8 word \<Rightarrow> string" where
  "findKeyForValue [] v = ''INVALID''"
| "findKeyForValue ((k, u) # m) v = (if u = v then k else findKeyForValue m v)"

text \<open>\<^verbatim>\<open>std::set_difference\<close> on two sorted ranges.\<close>

fun set_difference :: "'a::linorder list \<Rightarrow> 'a list \<Rightarrow> 'a list" where
  "set_difference [] ys = []"
| "set_difference (x # xs) [] = x # xs"
| "set_difference (x # xs) (y # ys) =
     (if x < y then x # set_difference xs (y # ys)
      else if y < x then set_difference (x # xs) ys
      else set_difference xs ys)"

definition findRemovedSessionIDs :: "8 word list \<Rightarrow> 8 word list \<Rightarrow> 8 word list" where
  "findRemovedSessionIDs activeSessionIDs updatedSessionIDs =
     set_difference (sort activeSessionIDs) (sort updatedSessionIDs)"

text \<open>The loop of \<^verbatim>\<open>handleSessions\<close>; the parent of each \<^verbatim>\<open>fork\<close> goes on.\<close>

fun remove_sessions :: "env \<Rightarrow> 8 word list \<Rightarrow> unit wprog" where
  "remove_sessions E [] = returnM ()"
| "remove_sessions E (rmvID # ids) =
     bindM (getM (\<lambda>w. findKeyForValue (activeSessons w) rmvID)) (\<lambda>Slot.
       if Slot \<noteq> ''INVALID''
       then thenM (modifyM (\<lambda>w. w\<lparr>activeSessons := sm_erase Slot (activeSessons w)\<rparr>))
              (thenM (do_sys E (Fork Slot)) (remove_sessions E ids))
       else remove_sessions E ids)"

definition session_id :: "vmedia_session \<Rightarrow> 8 word" where
  "session_id s = fst s"

definition handleSessions :: "env \<Rightarrow> vmedia_session list \<Rightarrow> unit wprog" where
  "handleSessions E ses =
     bindM (getM (\<lambda>w. findRemovedSessionIDs (map snd (activeSessons w)) (map session_id ses)))
       (remove_sessions E)"

text \<open>The signal handler: a message that cannot be read is logged and dropped.\<close>

definition sessionCallback ::
    "env \<Rightarrow> (string \<times> (string \<times> vmedia_session list) list) option \<Rightarrow> unit wprog" where
  "sessionCallback E msg =
     catchM
       (case msg of
          None \<Rightarrow> throwM (SdBusError EINVAL ''read'')
        | Some (interfaceName, sessionProperty) \<Rightarrow>
            whenM (interfaceName = sessMgrVmediaIface)
              (forM sessionProperty (\<lambda>entry.
                 whenM (fst entry = ''VmediaSessionInfo'') (handleSessions E (snd entry)))))
       (\<lambda>e. returnM ())"

section \<open>The difference of two lists of sessions\<close>





text \<open>The slots recorded in a history as forked for, newest first.\<close>

definition forked :: "hist \<Rightarrow> string list" where
  "forked h = concat (map (\<lambda>x. case x of (Fork s, _) \<Rightarrow> [s] | _ \<Rightarrow> []) h)"

lemma forked_simps [simp]:
  "forked [] = []"
  "forked ((Fork s, r) # h) = s # forked h"
  by (simp_all add: forked_def)





end
