(* ===== verification/SlotTools.thy ===== *)
theory SlotTools
  imports Sessions FsPath
begin

text \<open>
  The small functions of \<^verbatim>\<open>src/system.hpp\<close> that the gadget and the reconnection threads share: D-Bus
  notifications whose failure is only logged, the kind of an image, the ejected slot, the number of
  a slot, the session in the client's information, and whether two slots use one server.
\<close>

section \<open>Requests whose failure is logged\<close>

definition powerSaveMode :: "env \<Rightarrow> int \<Rightarrow> unit wprog" where
  "powerSaveMode E status =
     whenM (status = 0 \<or> status = 1)
       (catchM
          (thenM (dbus_call E ''xyz.openbmc_project.Settings'' ''/xyz/openbmc_project/logging/settings''
             ''xyz.openbmc_project.USB'' ''SetUSBPowerSaveMode'' [ArgInt status]) (returnM ()))
          (\<lambda>e. returnM ()))"

definition eventLogSupport :: "env \<Rightarrow> string \<Rightarrow> unit wprog" where
  "eventLogSupport E msg =
     catchM
       (thenM (dbus_call E ''xyz.openbmc_project.Logging'' ''/xyz/openbmc_project/logging''
          ''xyz.openbmc_project.Logging.Create'' ''Create''
          [ArgStr msg, ArgStr ''xyz.openbmc_project.Logging.Entry.Level.Informational''])
          (returnM ()))
       (\<lambda>e. returnM ())"

definition getActiveStatus :: "env \<Rightarrow> string \<Rightarrow> bool wprog" where
  "getActiveStatus E objectPath =
     catchM
       (bindM (dbus_call E ''xyz.openbmc_project.VirtualMedia'' objectPath
          ''org.freedesktop.DBus.Properties'' ''Get''
          [ArgStr ''xyz.openbmc_project.VirtualMedia.Process'', ArgStr ''Active''])
          (\<lambda>r. returnM (r > 0)))
       (\<lambda>e. returnM False)"

definition isFileAccessible :: "env \<Rightarrow> string \<Rightarrow> bool wprog" where
  "isFileAccessible E path = fs_query E (Exists path)"

section \<open>Images\<close>

text \<open>The five bytes at \<^verbatim>\<open>0x8001\<close>, or a failure to open or to read.\<close>

definition detectImageType :: "env \<Rightarrow> string \<Rightarrow> int wprog" where
  "detectImageType E filePath =
     bindM (getM (\<lambda>w. ask_str E (hist w) (DetectRead filePath))) (\<lambda>buffer.
     bindM (sys E (DetectRead filePath)) (\<lambda>r.
       if r < 0 then returnM (-1)
       else returnM (if buffer = ''CD001'' then 1 else 0)))"

fun first_digit :: "string \<Rightarrow> int" where
  "first_digit [] = -1"
| "first_digit (c # s) = (if isdigit c then int (of_char c) - 48 else first_digit s)"

definition eject_status :: "env \<Rightarrow> string \<Rightarrow> int wprog" where
  "eject_status E filePath =
     bindM (sys_bool E (PeekEof filePath)) (\<lambda>eof.
       returnM (if eof then first_digit filePath else -1))"

section \<open>Slots and sessions\<close>

text \<open>\<^verbatim>\<open>%\<close> of C++ truncates towards zero.\<close>

definition int_rem :: "int \<Rightarrow> int \<Rightarrow> int" where
  "int_rem i m = (if i < 0 then - ((- i) mod m) else i mod m)"

definition extractSlotNumber :: "string \<Rightarrow> exn + int" where
  "extractSlotNumber path =
     (case find_last_of ''_'' path of
        None \<Rightarrow> Inr (-1)
      | Some underscorePos \<Rightarrow>
          (case substr path (underscorePos + 1) of
             Inl e \<Rightarrow> Inl e
           | Inr s \<Rightarrow> (case stoi s of Inl e \<Rightarrow> Inl e | Inr n \<Rightarrow> Inr (int_rem n 2))))"

text \<open>\<^verbatim>\<open>regex_search\<close> for \<^verbatim>\<open>session_(\d+)\<close>: the digits of the leftmost match.\<close>

fun session_digits :: "string \<Rightarrow> string option" where
  "session_digits [] = None"
| "session_digits (c # s) =
     (let ds = takeWhile isdigit (drop 8 (c # s))
      in if starts_with (c # s) ''session_'' \<and> ds \<noteq> '''' then Some ds else session_digits s)"

definition extractSessionId :: "string \<Rightarrow> exn + 8 word" where
  "extractSessionId infoStr =
     (case session_digits infoStr of
        None \<Rightarrow> Inl (InvalidArgument ''Not found or invalid format: session_N expected.'')
      | Some ds \<Rightarrow>
          (case stoi ds of
             Inl e \<Rightarrow> Inl e
           | Inr sessionId \<Rightarrow>
               if 0 \<le> sessionId \<and> sessionId \<le> 255 then Inr (word_of_int sessionId)
               else Inl (OutOfRange ''Session ID out of uint8_t range (0-255).'')))"

text \<open>The string literal \<^verbatim>\<open>"/\\"\<close> holds a slash and a backslash.\<close>

definition path_separators :: "char list" where "path_separators = [CHR ''/'', CHR 0x5C]"

definition getPathWithoutFileName :: "string \<Rightarrow> string" where
  "getPathWithoutFileName path =
     (case find_last_of path_separators path of Some pos \<Rightarrow> take (pos + 1) path | None \<Rightarrow> '''')"

definition isSamePath :: "world \<Rightarrow> int" where
  "isSamePath w =
     (case (creds w ! 0, creds w ! 1) of
        (Some a, Some b) \<Rightarrow>
          if getPathWithoutFileName (sc_url a) = getPathWithoutFileName (sc_url b) then 1 else -1
      | _ \<Rightarrow> 0)"

section \<open>Facts\<close>

lemma extractSlotNumber_range:
  "extractSlotNumber path = Inr n \<Longrightarrow> n = -1 \<or> n = 0 \<or> n = 1"
  by (auto simp: extractSlotNumber_def int_rem_def split: option.splits sum.splits)

lemma powerSaveMode_returns: "\<exists>h. powerSaveMode E s w = (Inr (), w\<lparr>hist := h @ hist w\<rparr>)"
  by (auto simp: powerSaveMode_def whenM_def returnM_def catchM_def thenM_def bindM_def dbus_call_def
      sys_result throwM_def intro: exI [of _ "[x]" for x] exI [of _ "[]"])

lemma eventLogSupport_returns: "\<exists>h. eventLogSupport E s w = (Inr (), w\<lparr>hist := h @ hist w\<rparr>)"
  by (auto simp: eventLogSupport_def returnM_def catchM_def thenM_def bindM_def dbus_call_def
      sys_result throwM_def intro: exI [of _ "[x]" for x])

lemma extractSlotNumber_slot:
  assumes "n < 2 ^ 31"
  shows "extractSlotNumber (''Slot_'' @ nat_str n) = Inr (int (n mod 2))"
proof -
  have "CHR ''_'' \<notin> set (nat_str n)"
    using nat_str_digits [of n] isdigit_not_space(4) by (auto simp: list_all_iff)
  then have "find_last_of ''_'' (''Slot'' @ CHR ''_'' # nat_str n) = Some 4"
    by (subst find_last_of_append) auto
  then show ?thesis
    using assms by (simp add: extractSlotNumber_def substr_def stoi_nat_str int_rem_def zmod_int)
qed

text \<open>The regular expression matches at the start of a text.\<close>

definition session_here :: "string \<Rightarrow> bool" where
  "session_here s \<longleftrightarrow> (\<exists>d rest. s = ''session_'' @ d # rest \<and> isdigit d)"

lemma session_here_iff:
  "session_here s \<longleftrightarrow> starts_with s ''session_'' \<and> takeWhile isdigit (drop 8 s) \<noteq> ''''"
proof
  assume r: "starts_with s ''session_'' \<and> takeWhile isdigit (drop 8 s) \<noteq> ''''"
  then obtain t where t: "s = ''session_'' @ t" by (auto simp: starts_with_iff)
  with r show "session_here s" by (cases t) (auto simp: session_here_def split: if_splits)
qed (auto simp: session_here_def starts_with_def)

lemma session_digits_Cons:
  "session_digits (c # s) =
     (if session_here (c # s) then Some (takeWhile isdigit (drop 8 (c # s))) else session_digits s)"
  by (simp add: session_here_iff Let_def del: drop_Suc_Cons)

lemma session_digits_None:
  "(\<And>pre t. s = pre @ t \<Longrightarrow> \<not> session_here t) \<Longrightarrow> session_digits s = None"
proof (induction s)
  case (Cons c s)
  have "\<not> session_here t" if "s = pre @ t" for pre t
    using Cons.prems [of "c # pre" t] that by simp
  with Cons.IH Cons.prems [of "[]"] show ?case by (simp only: session_digits_Cons append_Nil if_False simp_thms)
qed simp

lemma session_digits_at:
  assumes "\<And>i. i < length pre \<Longrightarrow> \<not> session_here (drop i (pre @ t))" and "session_here t"
  shows "session_digits (pre @ t) = Some (takeWhile isdigit (drop 8 t))"
  using assms(1)
proof (induction pre)
  case Nil
  from assms(2) obtain c s where "t = c # s" by (auto simp: session_here_def)
  with assms(2) show ?case by (simp only: append_Nil session_digits_Cons if_True simp_thms)
next
  case (Cons c pre)
  have "\<not> session_here (drop i (pre @ t))" if "i < length pre" for i
    using Cons.prems [of "Suc i"] that by simp
  with Cons.IH Cons.prems [of 0] show ?case
    by (simp add: session_digits_Cons del: drop_Suc_Cons drop_append session_digits.simps)
qed

text \<open>
  C30. The session number a client sends with a mount is that of the leftmost \<^verbatim>\<open>session_\<close> in its text
  that a digit follows; all digits after it are taken. If they denote at most 255 they are the result, and
  nothing wraps around into the byte; otherwise there is an \<^verbatim>\<open>out_of_range\<close> error, of this function up to
  the greatest \<^verbatim>\<open>int\<close> and of \<^verbatim>\<open>stoi\<close> beyond it. A text where no \<^verbatim>\<open>session_\<close> is followed by a digit is an
  \<^verbatim>\<open>invalid_argument\<close> error.
\<close>

theorem extractSessionId_exact:
  "((\<forall>pre d rest. info = pre @ ''session_'' @ d # rest \<longrightarrow> \<not> isdigit d) \<longrightarrow>
      extractSessionId info = Inl (InvalidArgument ''Not found or invalid format: session_N expected.'')) \<and>
   (\<forall>pre ds rest.
      info = pre @ ''session_'' @ ds @ rest \<and> ds \<noteq> '''' \<and> list_all isdigit ds \<and>
      (rest = '''' \<or> \<not> isdigit (hd rest)) \<and>
      (\<forall>i < length pre. \<forall>d t. drop i info = ''session_'' @ d # t \<longrightarrow> \<not> isdigit d) \<longrightarrow>
      extractSessionId info =
        (let n = decimal ds in
         if n \<le> 255 then Inr (word_of_nat n)
         else if n < 2 ^ 31 then Inl (OutOfRange ''Session ID out of uint8_t range (0-255).'')
         else Inl (OutOfRange ''stoi'')))"
proof (intro conjI impI allI)
  assume none: "\<forall>pre d rest. info = pre @ ''session_'' @ d # rest \<longrightarrow> \<not> isdigit d"
  have "session_digits info = None"
    by (rule session_digits_None) (use none in \<open>auto simp: session_here_def\<close>)
  then show "extractSessionId info = Inl (InvalidArgument ''Not found or invalid format: session_N expected.'')"
    by (simp add: extractSessionId_def)
next
  fix pre ds rest
  assume r: "info = pre @ ''session_'' @ ds @ rest \<and> ds \<noteq> '''' \<and> list_all isdigit ds \<and>
      (rest = '''' \<or> \<not> isdigit (hd rest)) \<and>
      (\<forall>i < length pre. \<forall>d t. drop i info = ''session_'' @ d # t \<longrightarrow> \<not> isdigit d)"
  let ?t = "''session_'' @ ds @ rest"
  from r have here: "session_here ?t" by (cases ds) (auto simp: session_here_def)
  have stop: "takeWhile isdigit (ds @ rest) = ds"
    using r by (cases rest) (auto simp: list_all_iff takeWhile_append)
  have "session_digits info = Some (takeWhile isdigit (drop 8 ?t))"
  proof -
    have "\<not> session_here (drop i (pre @ ?t))" if "i < length pre" for i
      unfolding session_here_def using r that by metis
    from session_digits_at [OF this here] r show ?thesis by metis
  qed
  then have "session_digits info = Some ds" using stop by simp
  then show "extractSessionId info =
        (let n = decimal ds in
         if n \<le> 255 then Inr (word_of_nat n)
         else if n < 2 ^ 31 then Inl (OutOfRange ''Session ID out of uint8_t range (0-255).'')
         else Inl (OutOfRange ''stoi''))"
    using r stoi_digits [of ds] by (auto simp: extractSessionId_def Let_def)
qed

theorem extractSessionId_exact_witness:
  "extractSessionId ''session_x;session_0017;y'' = Inr 17 \<and>
   extractSessionId ''session_'' = Inl (InvalidArgument ''Not found or invalid format: session_N expected.'')"
proof -
  have first: "\<not> isdigit d" if "drop i ''session_x;session_0017;y'' = ''session_'' @ d # t" "i < 10" for i d t
  proof -
    have "i \<in> {0, 1, 2, 3, 4, 5, 6, 7, 8, 9}" using that(2) by auto
    with that(1) show ?thesis by (auto simp: isdigit_def)
  qed
  have "decimal ''0017'' = 17" by (simp add: decimal_def)
  moreover note extractSessionId_exact [of "''session_x;session_0017;y''", THEN conjunct2, rule_format,
      of "''session_x;''" "''0017''" "'';y''"]
  moreover have "list_all isdigit ''0017''" "\<not> isdigit (CHR '';'')" by (simp_all add: isdigit_def)
  ultimately have "extractSessionId ''session_x;session_0017;y'' = Inr 17"
    using first by simp
  moreover have "extractSessionId ''session_'' =
      Inl (InvalidArgument ''Not found or invalid format: session_N expected.'')"
    by (rule extractSessionId_exact [THEN conjunct1, rule_format]) (auto simp: append_eq_Cons_conv)
  ultimately show ?thesis by simp
qed

end
