(* ===== verification/NbdDevice.thy ===== *)
theory NbdDevice
  imports Platform
begin

text \<open>
  \<^verbatim>\<open>NBDDevice\<close> and \<^verbatim>\<open>StateChange\<close> of \<^verbatim>\<open>src/system.hpp\<close>: the network block devices the service drives,
  their names, their device paths, and disconnecting one.
\<close>

section \<open>Devices and their names\<close>

datatype nbd_device =
    nbd0 | nbd1 | nbd2 | nbd3 | nbd4 | nbd5 | nbd6 | nbd7 | nbd8 | nbd9 | nbd10 | unknown

datatype state_change = notMonitored | removed | inserted

fun nbd_value :: "nbd_device \<Rightarrow> nat" where
  "nbd_value nbd0 = 0"
| "nbd_value nbd1 = 1"
| "nbd_value nbd2 = 2"
| "nbd_value nbd3 = 3"
| "nbd_value nbd4 = 4"
| "nbd_value nbd5 = 5"
| "nbd_value nbd6 = 6"
| "nbd_value nbd7 = 7"
| "nbd_value nbd8 = 8"
| "nbd_value nbd9 = 9"
| "nbd_value nbd10 = 10"
| "nbd_value unknown = 255"

definition nameMatching :: "string list" where
  "nameMatching =
     [''nbd0'', ''nbd1'', ''nbd2'', ''nbd3'', ''nbd4'', ''nbd5'',
      ''nbd6'', ''nbd7'', ''nbd8'', ''nbd9'', ''nbd10'']"

definition nbd_of_value :: "nat \<Rightarrow> nbd_device" where
  "nbd_of_value i =
     (if i < 11
      then [nbd0, nbd1, nbd2, nbd3, nbd4, nbd5, nbd6, nbd7, nbd8, nbd9, nbd10] ! i else unknown)"

text \<open>The position \<^verbatim>\<open>std::find\<close> reports in a vector, \<open>None\<close> for its end.\<close>

fun index_of :: "'a \<Rightarrow> 'a list \<Rightarrow> nat option" where
  "index_of x [] = None"
| "index_of x (y # ys) = (if x = y then Some 0 else map_option Suc (index_of x ys))"

text \<open>The constructor from a name; a null pointer or an unknown name leaves the default.\<close>

definition nbd_of_name :: "string option \<Rightarrow> nbd_device" where
  "nbd_of_name nbdName =
     (case nbdName of
        None \<Rightarrow> unknown
      | Some n \<Rightarrow> (case index_of n nameMatching of Some i \<Rightarrow> nbd_of_value i | None \<Rightarrow> unknown))"

definition nbd_known :: "nbd_device \<Rightarrow> bool" where
  "nbd_known d = (d \<noteq> unknown)"

definition nbd_to_string :: "nbd_device \<Rightarrow> string" where
  "nbd_to_string d = (if d = unknown then '''' else nameMatching ! nbd_value d)"

definition nbd_to_path :: "nbd_device \<Rightarrow> string" where
  "nbd_to_path d = (if d = unknown then '''' else ''/dev/'' @ nameMatching ! nbd_value d)"

text \<open>\<^verbatim>\<open>operator<\<close> compares the enumeration values; it is the order of the maps keyed by devices.\<close>

definition nbd_less :: "nbd_device \<Rightarrow> nbd_device \<Rightarrow> bool" where
  "nbd_less d e \<longleftrightarrow> nbd_value d < nbd_value e"

lemma nbd_value_inj: "nbd_value d = nbd_value e \<Longrightarrow> d = e"
  by (cases d; cases e) simp_all

instantiation nbd_device :: linorder
begin

definition less_eq_nbd_device :: "nbd_device \<Rightarrow> nbd_device \<Rightarrow> bool" where
  "less_eq_nbd_device d e \<longleftrightarrow> nbd_value d \<le> nbd_value e"

definition less_nbd_device :: "nbd_device \<Rightarrow> nbd_device \<Rightarrow> bool" where
  "less_nbd_device d e \<longleftrightarrow> nbd_less d e"

instance
  by intro_classes (auto simp: less_eq_nbd_device_def less_nbd_device_def nbd_less_def intro: nbd_value_inj)

end

lemmas nbd_name_defs = nbd_to_string_def nbd_to_path_def nbd_of_name_def nameMatching_def
  nbd_of_value_def nbd_known_def

lemma nbd_to_path_inj: "nbd_to_path d = nbd_to_path e \<Longrightarrow> d = e"
  by (cases d; cases e) (simp_all add: nbd_name_defs)

lemma nbd_known_iff_path: "nbd_known d \<longleftrightarrow> nbd_to_path d \<noteq> ''''"
  by (simp add: nbd_known_def nbd_to_path_def)

lemma index_of_Some: "index_of x ys = Some i \<Longrightarrow> i < length ys \<and> ys ! i = x"
  by (induction ys arbitrary: i) (auto split: if_splits)

lemma index_of_nth: "distinct ys \<Longrightarrow> i < length ys \<Longrightarrow> index_of (ys ! i) ys = Some i"
  by (induction ys arbitrary: i) (auto simp: nth_Cons split: nat.splits)

text \<open>
  C17. Names and devices are in bijection: printing a device and reading the name back gives the
  device (the unknown device prints the empty name, which names nothing), and a name is
  recognised exactly when printing the device gives it back.
\<close>

theorem nbd_name_roundtrip:
  "nbd_of_name (Some (nbd_to_string d)) = d \<and>
   (nbd_known (nbd_of_name (Some n)) \<longleftrightarrow> n \<in> set nameMatching) \<and>
   (n \<in> set nameMatching \<longrightarrow> nbd_to_string (nbd_of_name (Some n)) = n)"
  by (cases d) (auto simp: nbd_name_defs)

theorem nbd_name_roundtrip_witness:
  "nbd_to_string (nbd_of_name (Some ''nbd7'')) = ''nbd7'' \<and> ''nbd7'' \<in> set nameMatching"
proof -
  have "''nbd7'' \<in> set nameMatching" by (simp add: nameMatching_def)
  with nbd_name_roundtrip [of nbd7 "''nbd7''"] show ?thesis by blast
qed

section \<open>Probing and disconnecting\<close>

text \<open>\<^verbatim>\<open>isReady\<close>: the device can be opened exclusively; \<^verbatim>\<open>disconnect\<close>: two ioctls whose failures are
  only logged.\<close>

definition nbd_isReady :: "env \<Rightarrow> nbd_device \<Rightarrow> bool wprog" where
  "nbd_isReady E d =
     (if d = unknown then returnM False
      else bindM (sys E (OpenDevice (nbd_to_path d))) (\<lambda>fd.
        if fd < 0 then returnM False
        else thenM (do_sys E (CloseDevice (nbd_to_path d))) (returnM True)))"

definition nbd_disconnect :: "env \<Rightarrow> nbd_device \<Rightarrow> unit wprog" where
  "nbd_disconnect E d =
     (if d = unknown then returnM ()
      else bindM (sys E (OpenDevice (nbd_to_path d))) (\<lambda>fd.
        if fd < 0 then returnM ()
        else thenM (do_sys E (IoctlDisconnect (nbd_to_path d)))
            (thenM (do_sys E (IoctlClearSock (nbd_to_path d)))
               (do_sys E (CloseDevice (nbd_to_path d))))))"

text \<open>Every descriptor that was opened is closed, whatever the ioctls answer.\<close>

definition is_open_ok :: "call \<times> int \<Rightarrow> bool" where
  "is_open_ok x = (case x of (OpenDevice _, r) \<Rightarrow> r \<ge> 0 | _ \<Rightarrow> False)"

definition is_close :: "call \<times> int \<Rightarrow> bool" where
  "is_close x = (case x of (CloseDevice _, r) \<Rightarrow> True | _ \<Rightarrow> False)"

lemma nbd_disconnect_closes:
  assumes "nbd_disconnect E d w = (r, w')"
  shows "tally is_open_ok (hist w') + tally is_close (hist w) =
         tally is_close (hist w') + tally is_open_ok (hist w)"
  using assms
  by (auto simp: nbd_disconnect_def bind_sys then_do_sys do_sys_result returnM_def is_open_ok_def is_close_def split: if_splits)

end
