(* ===== verification/UsbGadget.thy ===== *)
theory UsbGadget
  imports SlotTools NbdDevice
begin

text \<open>
  \<^verbatim>\<open>UsbGadget\<close> of \<^verbatim>\<open>src/system.hpp\<close>: building and removing the USB mass storage gadget of a slot through
  \<^verbatim>\<open>configfs\<close>, registering the session of the client, and the two child processes that watch for an
  ejection and drop caches.
\<close>

section \<open>Files\<close>

text \<open>Appending a line: a stream with exceptions enabled, caught, so the answer is a Boolean.\<close>

definition echoToFile :: "env \<Rightarrow> string \<Rightarrow> string \<Rightarrow> bool wprog" where
  "echoToFile E fname content = bindM (sys E (AppendLine fname content)) (\<lambda>r. returnM (r = 0))"

definition echo :: "env \<Rightarrow> string \<Rightarrow> string \<Rightarrow> unit wprog" where
  "echo E fname content = thenM (echoToFile E fname content) (returnM ())"

text \<open>A function of \<^verbatim>\<open>std::filesystem\<close> without an error code argument.\<close>

definition fs_do :: "env \<Rightarrow> call \<Rightarrow> unit wprog" where
  "fs_do E c = bindM (sys E c) (\<lambda>r. if r < 0 then throwM FilesystemError else returnM ())"

definition getGadgetDirPrefix :: "env \<Rightarrow> world \<Rightarrow> string" where
  "getGadgetDirPrefix E w =
     (if multi_host E \<and> g_basePath w = ''VirtualMedia1''
      then ''/sys/kernel/config/usb_gadget/mass-storage1-''
      else ''/sys/kernel/config/usb_gadget/mass-storage-'')"

text \<open>The directories of one gadget.\<close>

record gadget_paths =
  gadgetDir :: string
  funcMassStorageDir :: string
  stringsDir :: string
  configDir :: string
  massStorageDir :: string
  configStringsDir :: string

definition gadget_paths_of :: "string \<Rightarrow> gadget_paths" where
  "gadget_paths_of d =
     (let c = path_append d ''configs/c.1'' in
      \<lparr>gadgetDir = d,
       funcMassStorageDir = path_append d ''functions/mass_storage.usb0'',
       stringsDir = path_append d ''strings/0x409'',
       configDir = c,
       massStorageDir = path_append c ''mass_storage.usb0'',
       configStringsDir = path_append c ''strings/0x409''\<rparr>)"

section \<open>The USB hub\<close>

definition usb_hub :: "env \<Rightarrow> string wprog" where
  "usb_hub E =
     (if multi_host E
      then bindM (getM (\<lambda>w. g_basePath w = ''VirtualMedia1'')) (\<lambda>isVirtualMedia1.
           bindM (fs_query E (Exists ''/sys/bus/platform/devices/12060000.usb-vhub'')) (\<lambda>a.
           bindM (if a then fs_query E (Exists ''/sys/bus/platform/devices/12062000.usb-vhub'')
                  else returnM False) (\<lambda>both.
             returnM (if both then (if isVirtualMedia1 then ''12062000'' else ''12060000'')
                      else if isVirtualMedia1 then ''12021000'' else ''12060000''))))
      else bindM (fs_query E (Exists ''/sys/bus/platform/devices/ci_hdrc.0'')) (\<lambda>npcm.
           if npcm then returnM ''ci_hdrc''
           else bindM (fs_query E (Exists ''/sys/bus/platform/devices/12060000.usb-vhub'')) (\<lambda>venice.
                if venice then returnM ''12060000''
                else bindM (fs_query E (Exists ''/sys/bus/platform/devices/12011000.usb-vhub''))
                       (\<lambda>avencity. returnM (if avencity then ''12011000'' else ''1e6a0000'')))))"

definition is_vhub :: "env \<Rightarrow> string \<Rightarrow> bool" where
  "is_vhub E hub =
     (if multi_host E then hub = ''12060000'' \<or> hub = ''12062000'' \<or> hub = ''12021000''
      else hub = ''1e6a0000'' \<or> hub = ''12011000'' \<or> hub = ''12060000'')"

section \<open>Binding to a port\<close>

definition suspended_path :: "string \<Rightarrow> int \<Rightarrow> string" where
  "suspended_path port gadgetId =
     path_append (path_append port (''gadget.'' @ to_string gadgetId)) ''suspended''"

text \<open>The loop over the ports of a virtual hub; \<open>True\<close> when one was bound. A port that refuses goes on
  to the next one.\<close>

fun bind_vhub :: "env \<Rightarrow> string \<Rightarrow> string \<Rightarrow> string \<Rightarrow> string list \<Rightarrow> bool wprog" where
  "bind_vhub E udc dir hub [] = returnM False"
| "bind_vhub E udc dir hub (portId # ports) =
     (case find_str (hub @ ''.usb-vhub:p'') portId of
        None \<Rightarrow> bind_vhub E udc dir hub ports
      | Some _ \<Rightarrow>
          bindM (liftE (case find_str '':p'' portId of
                          Some i \<Rightarrow> stoi (drop (i + 2) portId)
                        | None \<Rightarrow> stoi (drop 1 portId))) (\<lambda>portNumber.
          bindM (fs_query E (IsDirectory (path_append dir portId))) (\<lambda>isDir.
          bindM (if isDir then fs_query E (IsSymlink (path_append dir portId)) else returnM True) (\<lambda>isLink.
            if isLink then bind_vhub E udc dir hub ports
            else
              bindM (fs_query E (Exists (suspended_path (path_append dir portId) (portNumber - 1)))) (\<lambda>used.
              if used then bind_vhub E udc dir hub ports
              else bindM (echoToFile E udc portId) (\<lambda>bound.
                     if bound then returnM True else bind_vhub E udc dir hub ports))))))"

text \<open>The loop over the devices of an npcm845: the first free one is taken, bound or not.\<close>

fun bind_npcm :: "env \<Rightarrow> string \<Rightarrow> string \<Rightarrow> string \<Rightarrow> string list \<Rightarrow> bool wprog" where
  "bind_npcm E udc dir hub [] = returnM False"
| "bind_npcm E udc dir hub (portId # ports) =
     (case find_str hub portId of
        None \<Rightarrow> bind_npcm E udc dir hub ports
      | Some _ \<Rightarrow>
          bindM (liftE (case find_str ''.'' portId of
                          Some i \<Rightarrow> stoi (drop (i + 1) portId)
                        | None \<Rightarrow> stoi portId)) (\<lambda>gadgetId.
          if gadgetId = 8 \<or> gadgetId = 9 then bind_npcm E udc dir hub ports
          else
            bindM (fs_query E (IsDirectory (path_append dir portId))) (\<lambda>isDir.
            bindM (if isDir then fs_query E (Exists (suspended_path (path_append dir portId) gadgetId))
                   else returnM True) (\<lambda>used.
              if used then bind_npcm E udc dir hub ports
              else thenM (echo E udc portId) (returnM True)))))"

definition list_directory :: "env \<Rightarrow> string \<Rightarrow> string list wprog" where
  "list_directory E dir =
     bindM (getM (\<lambda>w. ask_names E (hist w) (ListDirectory dir))) (\<lambda>names.
       thenM (fs_do E (ListDirectory dir)) (returnM names))"

definition bind_port :: "env \<Rightarrow> string \<Rightarrow> string \<Rightarrow> bool wprog" where
  "bind_port E udc hub =
     (if is_vhub E hub
      then let dir = ''/sys/bus/platform/devices/'' @ hub @ ''.usb-vhub'' in
           bindM (list_directory E dir) (bind_vhub E udc dir hub)
      else let dir = ''/sys/bus/platform/devices/'' in
           bindM (list_directory E dir) (bind_npcm E udc dir hub))"

section \<open>The session of the client\<close>

definition DEFAULT_SID :: "8 word" where "DEFAULT_SID = 0"
definition VMEDIA :: int where "VMEDIA = 2"
definition PRIV_LEVEL_ADMIN :: "8 word" where "PRIV_LEVEL_ADMIN = 4"
definition LOGOUT :: int where "LOGOUT = 1"

definition sessMgrService :: string where
  "sessMgrService = ''xyz.openbmc_project.SessionManager''"
definition sessMgrVmediaObjPath :: string where
  "sessMgrVmediaObjPath = ''/xyz/openbmc_project/SessionManager/vmedia''"
definition sessMgrWEBObjPath :: string where
  "sessMgrWEBObjPath = ''/xyz/openbmc_project/SessionManager/web''"
definition sessMgrWebIface :: string where
  "sessMgrWebIface = ''xyz.openbmc_project.SessionManager.WebSessionInfo''"
definition DBUS_PROPERTIES_INTERFACE :: string where
  "DBUS_PROPERTIES_INTERFACE = ''org.freedesktop.DBus.Properties''"

fun find_web_session :: "8 word \<Rightarrow> web_session list \<Rightarrow> web_session option" where
  "find_web_session i [] = None"
| "find_web_session i (s # ss) = (if i = fst s then Some s else find_web_session i ss)"

text \<open>The web session named by the client, or \<open>None\<close> when the default values are to be used: it is not
  named, not listed, its number is the default one, or the request failed.\<close>

definition lookup_web_session :: "env \<Rightarrow> string \<Rightarrow> web_session option wprog" where
  "lookup_web_session E additionalInfo =
     catchM
       (bindM (liftE (extractSessionId additionalInfo)) (\<lambda>webSessionId.
        bindM (getM (\<lambda>w. ask_web_sessions E (hist w))) (\<lambda>webSessions.
        thenM (dbus_call E sessMgrService sessMgrWEBObjPath DBUS_PROPERTIES_INTERFACE ''Get''
                 [ArgStr sessMgrWebIface, ArgStr ''WebSessionInfo''])
          (returnM
             (case webSessions of
                None \<Rightarrow> None
              | Some ss \<Rightarrow>
                  if webSessionId = DEFAULT_SID then None else find_web_session webSessionId ss)))))
       (\<lambda>e. returnM None)"

definition session_args :: "string \<Rightarrow> bool \<Rightarrow> web_session option \<Rightarrow> dbus_arg list" where
  "session_args name isLmedia web =
     (let (ip, user, priv, uid, mm) =
        (case web of
           None \<Rightarrow> (''~'', ''local'', PRIV_LEVEL_ADMIN, 0,
                    if isLmedia then ''lmedia'' else mountMethod name)
         | Some (_, ip, user, _, priv, uid) \<Rightarrow> (ip, user, priv, uid, mountMethod name))
      in [ArgInt (uint DEFAULT_SID), ArgStr ip, ArgStr user, ArgInt VMEDIA, ArgInt (uint priv),
          ArgInt (uint uid), ArgStr mm, ArgStr name])"

definition register_session :: "env \<Rightarrow> string \<Rightarrow> string \<Rightarrow> unit wprog" where
  "register_session E name additionalInfo =
     (let isLmedia = (additionalInfo = ''LMEDIA'') in
      bindM (if isLmedia then returnM None else lookup_web_session E additionalInfo) (\<lambda>web.
      bindM (dbus_call E sessMgrService sessMgrVmediaObjPath sessMgrVmediaIface
               ''VmediaSessionRegister'' (session_args name isLmedia web)) (\<lambda>status.
        whenM (status > 0)
          (bindM (getM (\<lambda>w. ask_vmedia_sessions E (hist w))) (\<lambda>sesList.
           thenM (dbus_call E sessMgrService sessMgrVmediaObjPath DBUS_PROPERTIES_INTERFACE ''Get''
                    [ArgStr sessMgrVmediaIface, ArgStr ''VmediaSessionInfo''])
             (case sesList of
                None \<Rightarrow> returnM ()
              | Some [] \<Rightarrow> returnM ()
              | Some (s # ss) \<Rightarrow> modifyM (\<lambda>w.
                  w\<lparr>activeSessons := sm_insert name (session_id (last (s # ss))) (activeSessons w)\<rparr>)))))))"

definition unregister_session :: "env \<Rightarrow> string \<Rightarrow> unit wprog" where
  "unregister_session E name =
     bindM (getM (\<lambda>w. sm_find (activeSessons w) name)) (\<lambda>s.
       case s of
         None \<Rightarrow> returnM ()
       | Some sessionId \<Rightarrow>
           thenM (dbus_call E sessMgrService sessMgrVmediaObjPath sessMgrVmediaIface
                    ''VmediaSessionUnregister'' [ArgInt (uint sessionId), ArgInt VMEDIA, ArgInt LOGOUT])
             (thenM (modifyM (\<lambda>w. w\<lparr>activeSessons := sm_erase name (activeSessons w)\<rparr>))
             (thenM (eventLogSupport E ''OpenBMC.0.1.MediaUnmount'') (powerSaveMode E 1))))"

section \<open>Configuring\<close>

text \<open>The directories and attributes written before the image is looked at.\<close>

definition lun :: "gadget_paths \<Rightarrow> string \<Rightarrow> string" where
  "lun p f = path_append (funcMassStorageDir p) (''lun.0/'' @ f)"

definition prepare_dirs :: "env \<Rightarrow> gadget_paths \<Rightarrow> unit wprog" where
  "prepare_dirs E p =
     thenM (powerSaveMode E 0)
    (thenM (fs_do E (CreateDirectories (gadgetDir p)))
    (thenM (echo E (path_append (gadgetDir p) ''idVendor'') ''0x1d6b'')
    (thenM (echo E (path_append (gadgetDir p) ''idProduct'') ''0x0104'')
    (thenM (fs_do E (CreateDirectories (stringsDir p)))
    (thenM (echo E (path_append (stringsDir p) ''manufacturer'') ''OpenBMC'')
    (thenM (echo E (path_append (stringsDir p) ''product'') ''Virtual Media Device'')
    (thenM (fs_do E (CreateDirectories (configStringsDir p)))
    (thenM (echo E (path_append (configStringsDir p) ''configuration'') ''config 1'')
    (thenM (fs_do E (CreateDirectories (funcMassStorageDir p)))
    (thenM (fs_do E (CreateDirectories (path_append (funcMassStorageDir p) ''lun.0'')))
    (thenM (bindM (fs_query E (IsSymlink (massStorageDir p))) (\<lambda>old.
              whenM old (fs_do E (RemovePath (massStorageDir p)))))
    (thenM (fs_do E (CreateDirectorySymlink (funcMassStorageDir p) (massStorageDir p)))
           (echo E (lun p ''removable'') ''1'')))))))))))))"

definition prepare_gadget :: "env \<Rightarrow> gadget_paths \<Rightarrow> bool \<Rightarrow> unit wprog" where
  "prepare_gadget E p rw =
     thenM (prepare_dirs E p) (echo E (lun p ''ro'') (if rw then ''0'' else ''1''))"

text \<open>The size of a block device; 0 for anything else.\<close>

definition image_size :: "env \<Rightarrow> string \<Rightarrow> int wprog" where
  "image_size E path =
     bindM (fs_query E (IsBlockFile path)) (\<lambda>block.
       if \<not> block then returnM 0
       else bindM (sys E (OpenDevice path)) (\<lambda>fd.
         if fd < 0 then throwM (RuntimeError ''Failed to open device'')
         else bindM (sys E (IoctlBlockSize path)) (\<lambda>size.
           if size < 0
           then thenM (do_sys E (CloseDevice path)) (throwM (RuntimeError ''ioctl BLKGETSIZE64 failed''))
           else thenM (do_sys E (CloseDevice path)) (returnM size))))"

definition min_image_size :: int where "min_image_size = 600 * 1024"

definition USB_VMEDIA_NAME_SIZE :: nat where "USB_VMEDIA_NAME_SIZE = 29"

text \<open>The thread that watches a share, for the slots of remote media.\<close>

definition watch_share :: "env \<Rightarrow> string \<Rightarrow> int \<Rightarrow> unit wprog" where
  "watch_share E name slotNumber =
     whenM (name = ''Slot_2'' \<or> name = ''Slot_3'')
       (bindM (getM (\<lambda>w. creds w ! nat slotNumber)) (\<lambda>c.
          case c of
            None \<Rightarrow> returnM ()
          | Some c \<Rightarrow>
              whenM (find_str ''https://'' (sc_url c) \<noteq> Some 0)
                (bindM (getM (\<lambda>w. isSamePath w \<noteq> 1 \<or> is_reconnecting w)) (\<lambda>start.
                   whenM start
                     (thenM (modifyM (\<lambda>w. w\<lparr>is_reconnecting := False\<rparr>))
                        (do_sys E (StartThread ''mountMonitorThread'' name)))))))"

text \<open>The two child processes; only their start belongs to this process.\<close>

definition fork_children :: "env \<Rightarrow> string \<Rightarrow> unit wprog" where
  "fork_children E name =
     thenM (do_sys E (Fork (''eject '' @ name))) (do_sys E (Fork (''cache '' @ name)))"

text \<open>Attaching the image: what follows when it is large enough. \<open>Some r\<close> is a return from inside the
  \<^verbatim>\<open>try\<close>; \<^verbatim>\<open>return false\<close> is 0.\<close>

definition attach_image ::
    "env \<Rightarrow> gadget_paths \<Rightarrow> string \<Rightarrow> string \<Rightarrow> string \<Rightarrow> string \<Rightarrow> int \<Rightarrow> int option wprog" where
  "attach_image E p hub name path additionalInfo imgType =
     thenM (echo E (lun p ''cdrom'') (if imgType = 1 then ''1'' else ''0''))
    (thenM (echo E (lun p ''file'') path)
    (thenM (echo E (lun p ''inquiry_string'')
              (take (USB_VMEDIA_NAME_SIZE - 1) (''Virtual USB '' @ name)))
    (thenM (register_session E name additionalInfo)
    (thenM (eventLogSupport E ''OpenBMC.0.1.MediaMount'')
    (bindM (liftE (extractSlotNumber name)) (\<lambda>slotNumber.
      if slotNumber < 0 then returnM (Some 0)
      else thenM (watch_share E name slotNumber)
          (thenM (fork_children E name)
          (bindM (bind_port E (path_append (gadgetDir p) ''UDC'') hub) (\<lambda>bound.
             returnM (if bound then Some 0 else None))))))))))"

definition insert_gadget ::
    "env \<Rightarrow> gadget_paths \<Rightarrow> string \<Rightarrow> string \<Rightarrow> string \<Rightarrow> bool \<Rightarrow> string \<Rightarrow> int option wprog" where
  "insert_gadget E p hub name path rw additionalInfo =
     thenM (prepare_gadget E p rw)
       (bindM (detectImageType E path) (\<lambda>imgType.
        bindM (image_size E path) (\<lambda>imageSize.
          if imageSize < min_image_size then returnM (Some (-2))
          else attach_image E p hub name path additionalInfo imgType)))"

text \<open>Removing the directories; \<^verbatim>\<open>fs::remove\<close> with an error code. The result: none failed.\<close>

fun remove_dirs :: "env \<Rightarrow> string list \<Rightarrow> bool wprog" where
  "remove_dirs E [] = returnM True"
| "remove_dirs E (d # ds) =
     bindM (sys E (RemovePath d)) (\<lambda>r. bindM (remove_dirs E ds) (\<lambda>ok. returnM (r \<ge> 0 \<and> ok)))"

definition gadget_dirs :: "gadget_paths \<Rightarrow> string list" where
  "gadget_dirs p =
     [massStorageDir p, funcMassStorageDir p, configStringsDir p, configDir p, stringsDir p, gadgetDir p]"

definition remove_gadget :: "env \<Rightarrow> gadget_paths \<Rightarrow> string \<Rightarrow> bool \<Rightarrow> int wprog" where
  "remove_gadget E p name success =
     thenM (echo E (path_append (gadgetDir p) ''UDC'') '''')
    (thenM (unregister_session E name)
    (bindM (remove_dirs E (gadget_dirs p)) (\<lambda>ok. returnM (if success \<and> ok then 0 else -1))))"

text \<open>
  \<^verbatim>\<open>UsbGadget::configure\<close>. The four handlers of the \<^verbatim>\<open>try\<close> lead to the cleanup; any other exception
  leaves the function. The end of the \<^verbatim>\<open>try\<close> without a return (no port was bound) leads to the same
  cleanup, with \<^verbatim>\<open>success\<close> still true.
\<close>

definition is_caught :: "exn \<Rightarrow> bool" where
  "is_caught e = (case e of InvalidArgument _ \<Rightarrow> True | FilesystemError \<Rightarrow> True | SdBusError _ _ \<Rightarrow> True
     | _ \<Rightarrow> False)"

definition gadget_dir_of :: "env \<Rightarrow> string \<Rightarrow> world \<Rightarrow> string" where
  "gadget_dir_of E name w = getGadgetDirPrefix E w @ name"

definition configure ::
    "env \<Rightarrow> string \<Rightarrow> string \<Rightarrow> state_change \<Rightarrow> bool \<Rightarrow> string \<Rightarrow> int wprog" where
  "configure E name path change rw additionalInfo =
     bindM (getM (gadget_dir_of E name)) (\<lambda>dir.
     bindM (usb_hub E) (\<lambda>hub.
       let p = gadget_paths_of dir in
       if change = inserted
       then bindM
              (catchM
                 (bindM (insert_gadget E p hub name path rw additionalInfo)
                    (\<lambda>r. returnM (r, True)))
                 (\<lambda>e. if is_caught e then returnM (None, False) else throwM e))
              (\<lambda>(r, success).
                 case r of Some status \<Rightarrow> returnM status | None \<Rightarrow> remove_gadget E p name success)
       else remove_gadget E p name True))"

definition configure_nbd ::
    "env \<Rightarrow> string \<Rightarrow> nbd_device \<Rightarrow> state_change \<Rightarrow> bool \<Rightarrow> string \<Rightarrow> int wprog" where
  "configure_nbd E name nbd change rw additionalInfo =
     configure E name (nbd_to_path nbd) change rw additionalInfo"

definition getStats :: "env \<Rightarrow> string \<Rightarrow> string option wprog" where
  "getStats E name =
     bindM (getM (gadget_dir_of E name)) (\<lambda>dir.
       let statsPath = dir @ ''/functions/mass_storage.usb0/lun.0/stats'' in
       bindM (getM (\<lambda>w. ask_str E (hist w) (ReadStats statsPath))) (\<lambda>text.
       bindM (sys E (ReadStats statsPath)) (\<lambda>r. returnM (if r < 0 then None else Some text))))"

definition isConfigured :: "env \<Rightarrow> string \<Rightarrow> bool wprog" where
  "isConfigured E name = bindM (getM (gadget_dir_of E name)) (\<lambda>dir. fs_query E (Exists dir))"

section \<open>The child processes\<close>


text \<open>\<^verbatim>\<open>sleep_ms\<close>: seconds and nanoseconds; \<^verbatim>\<open>/\<close> and \<^verbatim>\<open>%\<close> on a number that is not negative.\<close>

definition sleep_ms :: "env \<Rightarrow> nat \<Rightarrow> unit wprog" where
  "sleep_ms E milliseconds =
     do_sys E (Nanosleep (int (milliseconds div 1000)) (int (milliseconds mod 1000 * 1000000)))"

text \<open>
  The process that keeps the cache of the device empty while the gadget is there: \<open>fuel\<close> rounds, of
  which one that fails to drop the cache does not pause. \<open>True\<close>: it has left the loop.
\<close>

fun cache_drop :: "env \<Rightarrow> nat \<Rightarrow> string \<Rightarrow> string \<Rightarrow> bool wprog" where
  "cache_drop E 0 dir path = returnM False"
| "cache_drop E (Suc fuel) dir path =
     bindM (fs_query E (Exists dir)) (\<lambda>there.
       if \<not> there then returnM True
       else bindM (sys E (Fsync path)) (\<lambda>r.
         if r \<noteq> 0 then cache_drop E fuel dir path
         else bindM (sys E (Fadvise path)) (\<lambda>r.
           if r \<noteq> 0 then cache_drop E fuel dir path
           else thenM (sleep_ms E 100) (cache_drop E fuel dir path))))"

definition cache_child :: "env \<Rightarrow> nat \<Rightarrow> gadget_paths \<Rightarrow> string \<Rightarrow> bool wprog" where
  "cache_child E fuel p path =
     bindM (sys E (OpenDevice path)) (\<lambda>nbdFd.
       if nbdFd < 0 then returnM True
       else bindM (cache_drop E fuel (gadgetDir p) path) (\<lambda>left.
         if left then thenM (do_sys E (CloseDevice path)) (returnM True) else returnM False))"

section \<open>What is written, and in which order\<close>

text \<open>Kinds of entries that are appended lines or belong to mounts and child processes: every other
  operation on a gadget makes none of them.\<close>

definition is_resource_call :: "call \<Rightarrow> bool" where
  "is_resource_call c =
     (case c of MountCall _ _ _ _ _ \<Rightarrow> True | Umount2 _ _ \<Rightarrow> True | Spawn _ _ \<Rightarrow> True
      | StopProcess _ \<Rightarrow> True | _ \<Rightarrow> False)"

lemma is_resource_call_iff:
  "is_resource_call c \<longleftrightarrow> (\<exists>a b f g i. c = MountCall a b f g i) \<or> (\<exists>a b. c = Umount2 a b) \<or>
     (\<exists>a b. c = Spawn a b) \<or> (\<exists>a. c = StopProcess a)"
  by (cases c) (simp_all add: is_resource_call_def)

definition only_append :: "(call \<times> int \<Rightarrow> bool) \<Rightarrow> bool" where
  "only_append q \<longleftrightarrow> (\<forall>c r. q (c, r) \<longrightarrow> (\<exists>f s. c = AppendLine f s) \<or> is_resource_call c)"

lemma only_appendD [dest]:
  "only_append q \<Longrightarrow> q (c, r) \<Longrightarrow> (\<exists>f s. c = AppendLine f s) \<or>
     (\<exists>a b f g i. c = MountCall a b f g i) \<or> (\<exists>a b. c = Umount2 a b) \<or>
     (\<exists>a b. c = Spawn a b) \<or> (\<exists>a. c = StopProcess a)"
  unfolding only_append_def is_resource_call_iff by blast


lemmas at_most_steps = at_most_none at_most_then_none at_most_catch_none at_most_rules

lemma at_most_when: "(b \<Longrightarrow> at_most q n m) \<Longrightarrow> at_most q n (whenM b m)"
  by (simp add: whenM_def at_most_weaken [OF at_most_return])

lemma at_most_fs_query: "(\<And>r. \<not> q (c, r)) \<Longrightarrow> at_most q 0 (fs_query E c)"
  unfolding fs_query_def by (intro at_most_steps at_most_sys) simp

lemma at_most_fs_do: "(\<And>r. \<not> q (c, r)) \<Longrightarrow> at_most q 0 (fs_do E c)"
  unfolding fs_do_def by (intro at_most_steps at_most_sys) simp

lemma at_most_echoToFile: "(\<And>r. \<not> q (AppendLine f c, r)) \<Longrightarrow> at_most q 0 (echoToFile E f c)"
  unfolding echoToFile_def by (intro at_most_steps at_most_sys) simp

lemma at_most_echo: "(\<And>r. \<not> q (AppendLine f c, r)) \<Longrightarrow> at_most q 0 (echo E f c)"
  unfolding echo_def by (intro at_most_steps at_most_echoToFile) simp

lemma at_most_powerSaveMode: "only_append q \<Longrightarrow> at_most q 0 (powerSaveMode E s)"
  unfolding powerSaveMode_def by (intro at_most_when at_most_steps at_most_dbus) blast

lemma at_most_eventLogSupport: "only_append q \<Longrightarrow> at_most q 0 (eventLogSupport E s)"
  unfolding eventLogSupport_def by (intro at_most_steps at_most_dbus) blast

lemma at_most_detectImageType: "only_append q \<Longrightarrow> at_most q 0 (detectImageType E f)"
  unfolding detectImageType_def by (intro at_most_steps at_most_sys) blast

lemma at_most_image_size: "only_append q \<Longrightarrow> at_most q 0 (image_size E f)"
  unfolding image_size_def
  by (intro at_most_steps at_most_fs_query at_most_sys at_most_do_sys) blast+

lemma at_most_usb_hub: "only_append q \<Longrightarrow> at_most q 0 (usb_hub E)"
  unfolding usb_hub_def by (intro at_most_steps at_most_fs_query) blast+

lemma at_most_lookup: "only_append q \<Longrightarrow> at_most q 0 (lookup_web_session E i)"
  unfolding lookup_web_session_def by (intro at_most_steps at_most_dbus) blast

lemma at_most_register: "only_append q \<Longrightarrow> at_most q 0 (register_session E name i)"
  unfolding register_session_def Let_def
  by (intro at_most_when at_most_steps at_most_dbus at_most_lookup)
    (auto split: list.splits intro!: at_most_return at_most_modify)

lemma at_most_unregister: "only_append q \<Longrightarrow> at_most q 0 (unregister_session E name)"
  unfolding unregister_session_def
  by (intro at_most_steps at_most_dbus at_most_modify at_most_powerSaveMode at_most_eventLogSupport)
    auto

lemma at_most_watch_share: "only_append q \<Longrightarrow> at_most q 0 (watch_share E name n)"
  unfolding watch_share_def
  by (intro at_most_when at_most_steps at_most_modify at_most_do_sys) auto

lemma at_most_fork_children: "only_append q \<Longrightarrow> at_most q 0 (fork_children E name)"
  unfolding fork_children_def by (intro at_most_steps at_most_do_sys) auto

lemma at_most_remove_dirs: "only_append q \<Longrightarrow> at_most q 0 (remove_dirs E ds)"
  by (induction ds) (auto intro!: at_most_steps at_most_sys)

lemma at_most_bind_vhub:
  assumes "only_append q" and "\<And>c r. \<not> q (AppendLine udc c, r)"
  shows "at_most q 0 (bind_vhub E udc dir hub ports)"
proof (induction ports)
  case (Cons p ports)
  with assms show ?case
    unfolding bind_vhub.simps
    by (intro at_most_steps at_most_fs_query at_most_echoToFile) blast+
qed (simp add: at_most_return)

lemma at_most_bind_npcm:
  assumes "only_append q" and "\<And>c r. \<not> q (AppendLine udc c, r)"
  shows "at_most q 0 (bind_npcm E udc dir hub ports)"
proof (induction ports)
  case (Cons p ports)
  with assms show ?case
    unfolding bind_npcm.simps
    by (intro at_most_steps at_most_fs_query at_most_echo) blast+
qed (simp add: at_most_return)

lemma at_most_bind_port:
  assumes "only_append q" and "\<And>c r. \<not> q (AppendLine udc c, r)"
  shows "at_most q 0 (bind_port E udc hub)"
  using assms unfolding bind_port_def list_directory_def Let_def
  by (intro at_most_steps at_most_fs_do at_most_bind_vhub at_most_bind_npcm) blast+

lemma at_most_remove_gadget:
  assumes "only_append q" and "\<And>c r. \<not> q (AppendLine (path_append (gadgetDir p) ''UDC'') c, r)"
  shows "at_most q 0 (remove_gadget E p name success)"
  using assms unfolding remove_gadget_def
  by (intro at_most_steps at_most_echo at_most_unregister at_most_remove_dirs) blast+

lemma at_most_attach_image:
  assumes "only_append q" and "\<And>f c r. \<not> q (AppendLine f c, r)"
  shows "at_most q 0 (attach_image E p hub name path i t)"
  using assms unfolding attach_image_def
  by (intro at_most_steps at_most_echo at_most_register at_most_eventLogSupport at_most_watch_share
      at_most_fork_children at_most_bind_port) simp_all

text \<open>Gadgets have nothing to do with mounts and child processes.\<close>

lemma at_most_configure:
  assumes "only_append q" and "\<And>f c r. \<not> q (AppendLine f c, r)"
  shows "at_most q 0 (configure E name path change rw info)"
proof -
  have none: "\<not> q (c, r)" if "\<not> is_resource_call c" for c r
    using assms that unfolding only_append_def by blast
  have "at_most q 0 (prepare_dirs E p)" for p
    using assms unfolding prepare_dirs_def
    by (intro at_most_when at_most_steps at_most_powerSaveMode at_most_fs_do at_most_fs_query at_most_echo)
      (simp_all add: none is_resource_call_def)
  then have "at_most q 0 (insert_gadget E p hub name path rw info)" for p hub
    using assms unfolding insert_gadget_def prepare_gadget_def
    by (intro at_most_steps at_most_echo at_most_detectImageType at_most_image_size at_most_attach_image)
  moreover have "at_most q 0 (remove_gadget E p name b)" for p b
    using assms by (intro at_most_remove_gadget)
  ultimately show ?thesis
    using assms unfolding configure_def Let_def
    by (intro at_most_steps at_most_usb_hub)
      (auto intro!: at_most_steps split: option.splits)
qed

lemma at_most_getStats:
  assumes "only_append q"
  shows "at_most q 0 (getStats E name)"
  using assms unfolding getStats_def Let_def by (intro at_most_steps at_most_sys) blast

lemma at_most_isConfigured:
  assumes "only_append q"
  shows "at_most q 0 (isConfigured E name)"
  using assms unfolding isConfigured_def by (intro at_most_steps at_most_fs_query) blast

subsection \<open>The image is attached last\<close>


















section \<open>Removing\<close>

lemma remove_dirs_result:
  "\<exists>rs. length rs = length ds \<and>
     remove_dirs E ds w = (Inr (list_all (\<lambda>r. r \<ge> 0) rs), w\<lparr>hist := rev (zip (map RemovePath ds) rs) @ hist w\<rparr>)"
proof (induction ds arbitrary: w)
  case Nil
  show ?case by (simp add: returnM_def)
next
  case (Cons d ds)
  let ?r = "ask E (hist w) (RemovePath d)"
  from Cons.IH [of "w\<lparr>hist := (RemovePath d, ?r) # hist w\<rparr>"] obtain rs where
    "length rs = length ds" "remove_dirs E ds (w\<lparr>hist := (RemovePath d, ?r) # hist w\<rparr>) =
       (Inr (list_all (\<lambda>r. r \<ge> 0) rs), w\<lparr>hist := rev (zip (map RemovePath ds) rs) @ (RemovePath d, ?r) # hist w\<rparr>)"
    by auto
  then show ?case
    by (intro exI [of _ "?r # rs"]) (simp add: bindM_def sys_result returnM_def)
qed

lemma eventLog_powerSave:
  "\<exists>h. thenM (eventLogSupport E s) (powerSaveMode E n) w = (Inr (), w\<lparr>hist := h @ hist w\<rparr>)"
proof -
  from eventLogSupport_returns [of E s w] obtain h1 where
    h1: "eventLogSupport E s w = (Inr (), w\<lparr>hist := h1 @ hist w\<rparr>)" by blast
  from powerSaveMode_returns [of E n "w\<lparr>hist := h1 @ hist w\<rparr>"] obtain h2 where
    "powerSaveMode E n (w\<lparr>hist := h1 @ hist w\<rparr>) = (Inr (), w\<lparr>hist := h2 @ h1 @ hist w\<rparr>)" by auto
  with h1 show ?thesis by (intro exI [of _ "h2 @ h1"]) (simp add: thenM_def bindM_def)
qed

text \<open>Ending the session: refused by the session manager, or done (the event log and the power saving
  mode cannot fail it).\<close>

lemma unregister_cases:
  obtains (refused) e s h where
      "unregister_session E name w = (Inl (SdBusError e s), w\<lparr>hist := h @ hist w\<rparr>)"
      and "sm_find (activeSessons w) name \<noteq> None"
  | (ended) h where "unregister_session E name w =
      (Inr (), w\<lparr>hist := h @ hist w, activeSessons :=
         (if sm_find (activeSessons w) name = None then activeSessons w else sm_erase name (activeSessons w))\<rparr>)"
proof (cases "sm_find (activeSessons w) name")
  case None
  then show thesis
    by (intro ended [of "[]"]) (simp add: unregister_session_def returnM_def)
next
  case (Some i)
  let ?c = "DbusCall sessMgrService sessMgrVmediaObjPath sessMgrVmediaIface
                    ''VmediaSessionUnregister'' [ArgInt (uint i), ArgInt VMEDIA, ArgInt LOGOUT]"
  let ?r = "ask E (hist w) ?c"
  let ?w = "w\<lparr>hist := (?c, ?r) # hist w, activeSessons := sm_erase name (activeSessons w)\<rparr>"
  from eventLog_powerSave [of E "''OpenBMC.0.1.MediaUnmount''" 1 ?w] obtain h where
    h: "thenM (eventLogSupport E ''OpenBMC.0.1.MediaUnmount'') (powerSaveMode E 1) ?w =
      (Inr (), ?w\<lparr>hist := h @ hist ?w\<rparr>)" by blast
  show thesis
  proof (cases "?r < 0")
    case True
    with Some show thesis
      by (intro refused [of "- ?r" "''D-Bus call failed''" "[(?c, ?r)]"])
        (simp_all add: unregister_session_def dbus_call_def thenM_def bindM_assoc bind_sys throwM_def)
  next
    case False
    with Some h show thesis
      by (intro ended [of "h @ [(?c, ?r)]"])
        (simp add: unregister_session_def dbus_call_def thenM_def bindM_assoc bind_sys)
  qed
qed

text \<open>
  C35. Removing a gadget: the port is released first, then the session is ended, then the six directories
  are removed from the inside out, each attempted whatever happened to the others. The answer is 0
  exactly when every removal succeeded, and the slot has no session afterwards. If the session manager
  refuses, its error leaves the function: the directories and the session stay.
\<close>

theorem remove_gadget_outcome:
  assumes "sm_wf (activeSessons w)" and "remove_gadget E p name True w = (r, w')"
  shows "(\<exists>h rs a. length rs = 6 \<and>
            hist w' = rev (zip (map RemovePath (gadget_dirs p)) rs) @ h @
              (AppendLine (path_append (gadgetDir p) ''UDC'') '''', a) # hist w \<and>
            r = Inr (if list_all (\<lambda>x. x \<ge> 0) rs then 0 else -1) \<and>
            sm_find (activeSessons w') name = None) \<or>
         (\<exists>e s h. r = Inl (SdBusError e s) \<and> activeSessons w' = activeSessons w \<and>
            sm_find (activeSessons w) name \<noteq> None \<and> hist w' = h @ hist w)"
proof -
  let ?u = "AppendLine (path_append (gadgetDir p) ''UDC'') ''''"
  let ?a = "ask E (hist w) ?u"
  let ?w = "w\<lparr>hist := (?u, ?a) # hist w\<rparr>"
  have start: "remove_gadget E p name True w =
    bindM (unregister_session E name) (\<lambda>_. bindM (remove_dirs E (gadget_dirs p))
      (\<lambda>ok. returnM (if ok then 0 else -1))) ?w"
    by (simp add: remove_gadget_def echo_def echoToFile_def thenM_def bindM_assoc bind_sys)
  show ?thesis
  proof (cases rule: unregister_cases [of E name ?w])
    case (refused e s h)
    with start assms(2) show ?thesis by (auto simp: bindM_def intro!: exI [of _ "h @ [(?u, ?a)]"])
  next
    case (ended h)
    let ?s = "if sm_find (activeSessons ?w) name = None then activeSessons ?w
              else sm_erase name (activeSessons ?w)"
    let ?w1 = "?w\<lparr>hist := h @ hist ?w, activeSessons := ?s\<rparr>"
    from remove_dirs_result [of "gadget_dirs p" E ?w1] obtain rs where
      rs: "length rs = length (gadget_dirs p)" and dirs: "remove_dirs E (gadget_dirs p) ?w1 =
        (Inr (list_all (\<lambda>r. r \<ge> 0) rs), ?w1\<lparr>hist := rev (zip (map RemovePath (gadget_dirs p)) rs) @ hist ?w1\<rparr>)"
      by blast
    have none: "sm_find ?s name = None"
      using assms(1) by (simp add: sm.find_erase)
    have "(r, w') = (Inr (if list_all (\<lambda>x. x \<ge> 0) rs then 0 else -1),
        ?w1\<lparr>hist := rev (zip (map RemovePath (gadget_dirs p)) rs) @ hist ?w1\<rparr>)"
      unfolding assms(2) [symmetric] start bindM_def [of "unregister_session E name"] ended
        bindM_def [of "remove_dirs E (gadget_dirs p)"]
      by (simp only: prod.case sum.case dirs returnM_def)
    then have res: "r = Inr (if list_all (\<lambda>x. x \<ge> 0) rs then 0 else -1)"
      and hist: "hist w' = rev (zip (map RemovePath (gadget_dirs p)) rs) @ h @ (?u, ?a) # hist w"
      and act: "activeSessons w' = ?s"
      by simp_all
    have len: "length rs = 6" using rs by (simp add: gadget_dirs_def)
    show ?thesis
      by (intro disjI1 exI [of _ h] exI [of _ rs] exI [of _ ?a] conjI len hist res)
        (simp only: act none)
  qed
qed

theorem remove_gadget_outcome_witness:
  "sm_find (activeSessons (snd (remove_gadget quiet_env (gadget_paths_of ''/g'') ''Slot_0'' True
     ((initial_world None)\<lparr>activeSessons := [(''Slot_0'', 3), (''Slot_2'', 5)]\<rparr>)))) ''Slot_0'' = None \<or>
   (\<exists>e s. fst (remove_gadget quiet_env (gadget_paths_of ''/g'') ''Slot_0'' True
     ((initial_world None)\<lparr>activeSessons := [(''Slot_0'', 3), (''Slot_2'', 5)]\<rparr>)) = Inl (SdBusError e s))"
proof -
  let ?w = "(initial_world None)\<lparr>activeSessons := [(''Slot_0'', 3), (''Slot_2'', 5)]\<rparr>"
  let ?m = "remove_gadget quiet_env (gadget_paths_of ''/g'') ''Slot_0'' True ?w"
  have "?m = (fst ?m, snd ?m)" by simp
  from remove_gadget_outcome [OF _ this] show ?thesis by (auto simp: sm_wf_def)
qed

text \<open>When no port is bound the gadget is removed again, and still the answer is that of a successful
  removal: 0, the same as for a gadget that is bound and visible.\<close>

lemma insert_without_port:
  assumes "usb_hub E w = (Inr hub, w1)"
    and "insert_gadget E (gadget_paths_of (gadget_dir_of E name w)) hub name path rw info w1 = (Inr None, w2)"
    and "remove_gadget E (gadget_paths_of (gadget_dir_of E name w)) name True w2 = (Inr 0, w3)"
  shows "configure E name path inserted rw info w = (Inr 0, w3)"
  using assms by (simp add: configure_def Let_def bindM_def getM_def catchM_def returnM_def)

lemma no_port_listed:
  assumes "\<And>h d. ask_names E h (ListDirectory d) = []" and "\<And>h d. ask E h (ListDirectory d) \<ge> 0"
  shows "fst (bind_port E udc hub w) = Inr False"
  using assms(1) assms(2) [THEN leD]
  by (simp add: bind_port_def list_directory_def fs_do_def Let_def thenM_def bindM_def getM_def
      sys_result returnM_def)

section \<open>Ejection\<close>

lemma first_digit_append: "list_all (\<lambda>c. \<not> isdigit c) s \<Longrightarrow> first_digit (s @ t) = first_digit t"
  by (induction s) auto

lemma lun_file_path:
  assumes "d \<noteq> ''''" and "last d \<noteq> CHR ''/''"
  shows "lun (gadget_paths_of d) ''file'' = d @ ''/functions/mass_storage.usb0/lun.0/file''"
  using assms by (simp add: lun_def gadget_paths_of_def path_append_def starts_with_def Let_def)


lemma first_digit_gadget1:
  "first_digit (''/sys/kernel/config/usb_gadget/mass-storage1-'' @ s) = 1"
proof -
  have "first_digit (''/sys/kernel/config/usb_gadget/mass-storage'' @ (''1-'' @ s)) = first_digit (''1-'' @ s)"
    by (rule first_digit_append) (simp add: isdigit_def)
  also have "\<dots> = 1" by (simp add: isdigit_def)
  finally show ?thesis by simp
qed





text \<open>For the second service of a multi-host system the first digit of the path is the one in its
  prefix, so every ejection is taken for slot 1.\<close>

lemma eject_second_service:
  assumes "multi_host E" and "g_basePath w = ''VirtualMedia1''" and "slot \<noteq> ''''" and "last slot \<noteq> CHR ''/''"
    and "eject_status E (lun (gadget_paths_of (gadget_dir_of E slot w)) ''file'') w = (Inr n, w')"
  shows "n = 1 \<or> n = -1"
proof -
  have d: "gadget_dir_of E slot w = ''/sys/kernel/config/usb_gadget/mass-storage1-'' @ slot"
    using assms(1,2) by (simp add: gadget_dir_of_def getGadgetDirPrefix_def)
  have "lun (gadget_paths_of (gadget_dir_of E slot w)) ''file'' =
      gadget_dir_of E slot w @ ''/functions/mass_storage.usb0/lun.0/file''"
    by (rule lun_file_path) (use assms(3,4) in \<open>simp_all add: d\<close>)
  then have "first_digit (lun (gadget_paths_of (gadget_dir_of E slot w)) ''file'') = 1"
    by (simp only: d append_assoc first_digit_gadget1)
  with assms(5) show ?thesis
    by (auto simp: eject_status_def sys_bool_def bindM_assoc bind_sys returnM_def split: if_splits)
qed

section \<open>Dropping the cache\<close>

definition asks_for :: "string \<Rightarrow> call \<times> int \<Rightarrow> bool" where
  "asks_for dir x \<longleftrightarrow> fst x = Exists dir"

lemma asks_for_simps [simp]:
  "asks_for dir (Exists d, r) \<longleftrightarrow> d = dir" "\<not> asks_for dir (Fsync a, r)" "\<not> asks_for dir (Fadvise a, r)"
  "\<not> asks_for dir (Nanosleep sec nsec, r)"
  by (auto simp: asks_for_def)

text \<open>The child ends once the gadget is gone: if it is gone from the \<open>k\<close>th look on, \<open>k + 1\<close> rounds are
  enough, whatever the device answers meanwhile.\<close>

lemma cache_drop_ends:
  assumes gone: "\<And>h. k \<le> tally (asks_for dir) h \<Longrightarrow> ask E h (Exists dir) = 0"
    and "0 < n" and "k < n + tally (asks_for dir) (hist w)"
  shows "fst (cache_drop E n dir path w) \<noteq> Inr False"
  using assms(2,3)
proof (induction n arbitrary: w)
  case (Suc n)
  show ?case
  proof (cases "k \<le> tally (asks_for dir) (hist w)")
    case True
    with gone show ?thesis by (simp add: fs_query_def bindM_assoc bind_sys returnM_def)
  next
    case False
    with Suc.prems have "0 < n" "k < n + Suc (tally (asks_for dir) (hist w))" by simp_all
    with Suc.IH show ?thesis
      by (auto simp: fs_query_def sleep_ms_def bindM_assoc bind_sys then_do_sys returnM_def throwM_def)
  qed
qed simp

text \<open>While \<^verbatim>\<open>fsync\<close> fails the child does not pause: \<open>n\<close> rounds are \<open>2 n\<close> calls, none of them a pause.\<close>

lemma failing_sync_spins:
  assumes "\<And>h. ask E h (Exists dir) > 0" and "\<And>h. ask E h (Fsync path) \<noteq> 0"
  shows "\<exists>new. cache_drop E n dir path w = (Inr False, w\<lparr>hist := new @ hist w\<rparr>) \<and>
     length new = 2 * n \<and> (\<forall>x\<in>set new. fst x = Exists dir \<or> fst x = Fsync path)"
proof (induction n arbitrary: w)
  case (Suc n)
  let ?e = "(Exists dir, ask E (hist w) (Exists dir))"
  let ?s = "(Fsync path, ask E (?e # hist w) (Fsync path))"
  from Suc [of "w\<lparr>hist := ?s # ?e # hist w\<rparr>"] obtain new where
    new: "cache_drop E n dir path (w\<lparr>hist := ?s # ?e # hist w\<rparr>) =
      (Inr False, w\<lparr>hist := new @ ?s # ?e # hist w\<rparr>)" "length new = 2 * n"
    "\<forall>x\<in>set new. fst x = Exists dir \<or> fst x = Fsync path" by auto
  then show ?case
    using assms(1) [of "hist w"] assms(1) [THEN less_imp_le, THEN leD] assms(2) [of "?e # hist w"]
    by (intro exI [of _ "new @ [?s, ?e]"]) (auto simp: fs_query_def bindM_assoc bind_sys)
qed (auto simp: returnM_def intro: exI [of _ "[]"])

end
