(* ===== verification/Config.thy ===== *)
theory Config
  imports NbdDevice
begin

text \<open>
  \<^verbatim>\<open>src/configuration.hpp\<close>: the mount points of the service and how they are read from its JSON
  file. A step of the reading loop that ends in \<^verbatim>\<open>continue\<close> is a \<open>None\<close>.
\<close>

section \<open>Mount points\<close>

datatype mode = proxy | legacy | local

text \<open>\<^verbatim>\<open>remainingInactivityTimeout\<close> has no initialiser, so it is \<open>None\<close> until it is assigned.\<close>

record mount_point =
  nbdDevice :: nbd_device
  unixSocket :: string
  endPointId :: string
  timeout :: "int option"
  blocksize :: "int option"
  remainingInactivityTimeout :: "int option"
  verifyCertificate :: bool
  mp_mode :: mode

definition defaultTimeout :: int where "defaultTimeout = 30"

definition timeout_value :: "mount_point \<Rightarrow> int" where
  "timeout_value mp = (case timeout mp of Some t \<Rightarrow> t | None \<Rightarrow> defaultTimeout)"

definition toArgs :: "mount_point \<Rightarrow> string list" where
  "toArgs mp =
     [''-t'', to_string (timeout_value mp), ''-u'', unixSocket mp, nbd_to_path (nbdDevice mp), ''-nL'']"

section \<open>Reading one mount point\<close>

text \<open>
  A string member: absent leaves the default, a value that is no string skips the mount point.
  An unsigned member: absent or of another kind leaves the default; \<^verbatim>\<open>uint64_t\<close> is assigned to an
  \<^verbatim>\<open>int\<close>, which keeps the low 32 bits.
\<close>

definition read_string_member :: "json \<Rightarrow> string \<Rightarrow> string \<Rightarrow> string option" where
  "read_string_member j k dflt =
     (case json_find j k of None \<Rightarrow> Some dflt | Some v \<Rightarrow> get_ptr_string v)"

definition read_int_member :: "json \<Rightarrow> string \<Rightarrow> int option" where
  "read_int_member j k =
     (case json_find j k of
        None \<Rightarrow> None
      | Some v \<Rightarrow> map_option (\<lambda>n. sint (word_of_nat n :: 32 word)) (get_ptr_uint64 v))"

definition read_device :: "json \<Rightarrow> nbd_device option" where
  "read_device j =
     (case json_find j ''NBDDevice'' of
        None \<Rightarrow> Some unknown
      | Some v \<Rightarrow>
          (case get_ptr_string v of
             None \<Rightarrow> None
           | Some s \<Rightarrow> let d = nbd_of_name (Some (c_str s)) in if nbd_known d then Some d else None))"

definition read_mode :: "env \<Rightarrow> json \<Rightarrow> mode option" where
  "read_mode E j =
     (case json_find j ''Mode'' of
        None \<Rightarrow> None
      | Some v \<Rightarrow>
          (case get_ptr_uint64 v of
             None \<Rightarrow> None
           | Some n \<Rightarrow> if n = 0 then Some proxy
                       else if legacy_mode_enabled E \<and> n = 1 then Some legacy
                       else None))"

definition read_mount_point :: "env \<Rightarrow> json \<Rightarrow> mount_point option" where
  "read_mount_point E j =
     (case read_device j of
        None \<Rightarrow> None
      | Some dev \<Rightarrow>
     (case read_string_member j ''UnixSocket'' '''' of
        None \<Rightarrow> None
      | Some sock \<Rightarrow>
     (case read_string_member j ''EndpointId'' '''' of
        None \<Rightarrow> None
      | Some ep \<Rightarrow>
     (let t = read_int_member j ''Timeout'';
          b = read_int_member j ''BlockSize''
      in case read_mode E j of
        None \<Rightarrow> None
      | Some m \<Rightarrow>
          Some \<lparr>nbdDevice = dev, unixSocket = sock, endPointId = ep, timeout = t, blocksize = b,
            remainingInactivityTimeout = None, verifyCertificate = True, mp_mode = m\<rparr>))))"

section \<open>Reading the file\<close>

type_synonym mount_points = "(string \<times> mount_point) list"

record configuration =
  valid :: bool
  configPath :: string
  mountPoints :: mount_points
  inactivityTimeout :: int

fun read_mount_points :: "env \<Rightarrow> (string \<times> json) list \<Rightarrow> mount_points \<Rightarrow> mount_points" where
  "read_mount_points E [] mps = mps"
| "read_mount_points E ((k, v) # kvs) mps =
     (case read_mount_point E v of
        None \<Rightarrow> read_mount_points E kvs mps
      | Some mp \<Rightarrow> read_mount_points E kvs (sm_assign k mp mps))"

fun read_items :: "env \<Rightarrow> (string \<times> json) list \<Rightarrow> mount_points \<Rightarrow> mount_points" where
  "read_items E [] mps = mps"
| "read_items E ((k, v) # kvs) mps =
     (if k = ''MountPoints'' then read_items E kvs (read_mount_points E (json_items v) mps)
      else read_items E kvs mps)"

definition setupVariables :: "env \<Rightarrow> json \<Rightarrow> configuration \<Rightarrow> (exn + bool) \<times> configuration" where
  "setupVariables E j c =
     (case json_value_int j ''InactivityTimeout'' 0 of
        Inl e \<Rightarrow> (Inl e, c)
      | Inr t \<Rightarrow>
          (Inr True, c\<lparr>inactivityTimeout := t, mountPoints := read_items E (json_items j) (mountPoints c)\<rparr>))"

text \<open>
  \<^verbatim>\<open>loadConfiguration\<close>: the file is absent (\<open>None\<close>), does not parse, or parses. The two handlers
  catch the exceptions of the JSON library and \<^verbatim>\<open>std::out_of_range\<close>; the function is \<^verbatim>\<open>noexcept\<close>.
\<close>

definition loadConfiguration :: "env \<Rightarrow> string option \<Rightarrow> configuration \<Rightarrow> (exn + bool) \<times> configuration" where
  "loadConfiguration E file c =
     (case file of
        None \<Rightarrow> (Inr False, c)
      | Some text \<Rightarrow>
          (case json_parse E text of
             None \<Rightarrow> (Inr False, c)
           | Some data \<Rightarrow>
               (case setupVariables E data c of
                  (Inl (JsonError n), c') \<Rightarrow> (Inr False, c')
                | (Inl (OutOfRange m), c') \<Rightarrow> (Inr False, c')
                | (Inl (UB m), c') \<Rightarrow> (Inl (UB m), c')
                | (Inl _, c') \<Rightarrow> (Inl Terminate, c')
                | (Inr _, c') \<Rightarrow> (Inr True, c'))))"

definition load_config :: "env \<Rightarrow> string \<Rightarrow> string option \<Rightarrow> exn + configuration" where
  "load_config E path file =
     (case loadConfiguration E file
             \<lparr>valid = False, configPath = path, mountPoints = [], inactivityTimeout = 0\<rparr> of
        (Inl e, _) \<Rightarrow> Inl e
      | (Inr ok, c) \<Rightarrow> Inr (c\<lparr>valid := ok\<rparr>))"

definition getMountPoint :: "configuration \<Rightarrow> string \<Rightarrow> mount_point option" where
  "getMountPoint c name = sm_find (mountPoints c) name"

section \<open>What a loaded configuration guarantees\<close>

text \<open>The invariant of an entry, and of all entries.\<close>

definition wf_mount_point :: "env \<Rightarrow> mount_point \<Rightarrow> bool" where
  "wf_mount_point E mp \<longleftrightarrow>
     mp_mode mp \<noteq> local \<and> (mp_mode mp = legacy \<longrightarrow> legacy_mode_enabled E) \<and>
     (\<forall>t. timeout mp = Some t \<longrightarrow> - (2 ^ 31) \<le> t \<and> t < 2 ^ 31)"

lemma read_mode_cases: "read_mode E j = Some m \<Longrightarrow> m \<noteq> local \<and> (m = legacy \<longrightarrow> legacy_mode_enabled E)"
  by (auto simp: read_mode_def split: option.splits if_splits)

lemma read_int_member_range: "read_int_member j k = Some t \<Longrightarrow> - (2 ^ 31) \<le> t \<and> t < 2 ^ 31"
  using sint_greater_eq [where 'a = 32] sint_less [where 'a = 32]
  by (fastforce simp: read_int_member_def split: option.splits)

lemma read_mount_point_wf: "read_mount_point E j = Some mp \<Longrightarrow> wf_mount_point E mp"
  unfolding wf_mount_point_def
  using read_mode_cases read_int_member_range
  by (fastforce simp: read_mount_point_def Let_def split: option.splits)

definition wf_mount_points :: "env \<Rightarrow> mount_points \<Rightarrow> bool" where
  "wf_mount_points E mps \<longleftrightarrow> sm_wf mps \<and> (\<forall>(k, mp) \<in> set mps. wf_mount_point E mp)"

lemma wf_mount_points_assign:
  "wf_mount_points E mps \<Longrightarrow> wf_mount_point E mp \<Longrightarrow> wf_mount_points E (sm_assign k mp mps)"
  by (auto simp: wf_mount_points_def sm.wf_assign sm.items_assign)

lemma read_mount_points_wf: "wf_mount_points E mps \<Longrightarrow> wf_mount_points E (read_mount_points E kvs mps)"
  by (induction E kvs mps rule: read_mount_points.induct)
    (auto split: option.splits intro: wf_mount_points_assign read_mount_point_wf)

lemma read_items_wf: "wf_mount_points E mps \<Longrightarrow> wf_mount_points E (read_items E kvs mps)"
  by (induction E kvs mps rule: read_items.induct) (auto intro: read_mount_points_wf)

lemma loadConfiguration_wf:
  assumes "wf_mount_points E (mountPoints c)" and "loadConfiguration E file c = (r, c')"
  shows "wf_mount_points E (mountPoints c')"
  using assms
  by (auto simp: loadConfiguration_def setupVariables_def read_items_wf
      split: option.splits sum.splits prod.splits exn.splits)

lemma load_config_mount_points:
  assumes "load_config E path file = Inr c"
  shows "wf_mount_points E (mountPoints c)"
  using assms
  by (auto simp: load_config_def split: prod.splits sum.splits
      dest!: loadConfiguration_wf [rotated] simp: wf_mount_points_def)

lemma load_config_sorted: "load_config E path file = Inr c \<Longrightarrow> sm_wf (mountPoints c)"
  using load_config_mount_points by (auto simp: wf_mount_points_def)












section \<open>The shipped configuration\<close>

text \<open>\<^verbatim>\<open>virtual-media.json\<close> as the parser presents it (members sorted by key).\<close>

definition slot_json :: "nat \<Rightarrow> string \<Rightarrow> string \<Rightarrow> string \<Rightarrow> nat \<Rightarrow> json" where
  "slot_json m dev ep sock t =
     JObj [(''BlockSize'', JUInt 512), (''EndpointId'', JString ep), (''Mode'', JUInt m),
           (''NBDDevice'', JString dev), (''Timeout'', JUInt t), (''UnixSocket'', JString sock)]"

definition shipped_json :: json where
  "shipped_json = JObj
     [(''BackupImageURL'', JObj [(''Slot_2'', JObj [(''ImageURL'', JString '''')]),
                                 (''Slot_3'', JObj [(''ImageURL'', JString '''')])]),
      (''InactivityTimeout'', JUInt 1800),
      (''MountPoints'', JObj
        [(''Slot_0'', slot_json 0 ''nbd0'' ''/nbd/0'' ''/run/virtual-media/nbd0.sock'' 30),
         (''Slot_1'', slot_json 0 ''nbd1'' ''/nbd/1'' ''/run/virtual-media/nbd1.sock'' 30),
         (''Slot_2'', slot_json 1 ''nbd2'' '''' ''/run/virtual-media/nbd2.sock'' 90),
         (''Slot_3'', slot_json 1 ''nbd3'' '''' ''/run/virtual-media/nbd3.sock'' 90)]),
      (''RetryCount'', JUInt 3),
      (''RetryInterval'', JUInt 15)]"

definition sample_env :: env where
  "sample_env =
     quiet_env\<lparr>json_parse := (\<lambda>_. Some shipped_json), json_dump := (\<lambda>_. ''document'')\<rparr>"

definition shipped_slot :: "mode \<Rightarrow> nbd_device \<Rightarrow> string \<Rightarrow> string \<Rightarrow> int \<Rightarrow> mount_point" where
  "shipped_slot m dev ep sock t =
     \<lparr>nbdDevice = dev, unixSocket = sock, endPointId = ep, timeout = Some t, blocksize = Some 512,
      remainingInactivityTimeout = None, verifyCertificate = True, mp_mode = m\<rparr>"

definition shipped_configuration :: configuration where
  "shipped_configuration =
     \<lparr>valid = True, configPath = ''/etc/virtual-media.json'',
      mountPoints =
        [(''Slot_0'', shipped_slot proxy nbd0 ''/nbd/0'' ''/run/virtual-media/nbd0.sock'' 30),
         (''Slot_1'', shipped_slot proxy nbd1 ''/nbd/1'' ''/run/virtual-media/nbd1.sock'' 30),
         (''Slot_2'', shipped_slot legacy nbd2 '''' ''/run/virtual-media/nbd2.sock'' 90),
         (''Slot_3'', shipped_slot legacy nbd3 '''' ''/run/virtual-media/nbd3.sock'' 90)],
      inactivityTimeout = 1800\<rparr>"

lemma load_shipped:
  "load_config sample_env ''/etc/virtual-media.json'' (Some text) = Inr shipped_configuration"
  by (simp add: load_config_def loadConfiguration_def setupVariables_def sample_env_def quiet_env_def
      shipped_json_def slot_json_def shipped_configuration_def shipped_slot_def
      json_value_int_def json_get_int_def json_items_def json_find_def read_mount_point_def
      read_device_def read_string_member_def read_int_member_def read_mode_def get_ptr_string_def
      get_ptr_uint64_def nbd_name_defs c_str_def Let_def)


lemma read_mount_points_find:
  assumes "sm_wf mps" and "distinct (map fst kvs)"
  shows "sm_find (read_mount_points E kvs mps) k =
    (case map_of kvs k of None \<Rightarrow> sm_find mps k
     | Some v \<Rightarrow> (case read_mount_point E v of None \<Rightarrow> sm_find mps k | Some mp \<Rightarrow> Some mp))"
  using assms
proof (induction E kvs mps rule: read_mount_points.induct)
  case (2 E j v kvs mps)
  then have "k = j \<Longrightarrow> map_of kvs k = None" by (force simp: map_of_eq_None_iff)
  with 2 show ?case
    by (cases "read_mount_point E v") (auto simp: sm.wf_assign sm.find_assign split: option.splits)
qed simp

lemma read_items_find:
  assumes "distinct (map fst kvs)"
  shows "read_items E kvs mps =
    (case map_of kvs ''MountPoints'' of None \<Rightarrow> mps
     | Some v \<Rightarrow> read_mount_points E (json_items v) mps)"
  using assms
proof (induction E kvs mps rule: read_items.induct)
  case (2 E j v kvs mps)
  then have "j = ''MountPoints'' \<Longrightarrow> map_of kvs j = None" by (force simp: map_of_eq_None_iff)
  with 2 show ?case by auto
qed simp

text \<open>
  A configuration file that parses to an object with a \<^verbatim>\<open>MountPoints\<close> object is read entry by
  entry: a lookup in the result is the lookup in the file followed by the reading of that entry, so
  that an entry is dropped exactly when its own members are wrong and never because of another one.
\<close>

theorem load_config_lookup:
  assumes "json_parse E text = Some (JObj kvs)" and "distinct (map fst kvs)"
    and "map_of kvs ''MountPoints'' = Some (JObj ms)" and "distinct (map fst ms)"
    and "load_config E path (Some text) = Inr c" and "valid c"
  shows "getMountPoint c name = Option.bind (map_of ms name) (read_mount_point E)"
proof -
  from assms(1,5,6) have
    "mountPoints c = read_items E kvs []"
    by (auto simp: load_config_def loadConfiguration_def setupVariables_def json_items_def
        split: sum.splits prod.splits exn.splits)
  also have "\<dots> = read_mount_points E ms []"
    by (simp add: read_items_find [OF assms(2)] assms(3) json_items_def)
  finally show ?thesis
    using read_mount_points_find [OF _ assms(4), of "[]" E name]
    by (simp add: getMountPoint_def split: option.splits)
qed

theorem load_config_lookup_witness:
  "getMountPoint shipped_configuration ''Slot_7'' = None \<and>
   map_option mp_mode (getMountPoint shipped_configuration ''Slot_2'') = Some legacy"
proof -
  obtain kvs ms where kvs: "shipped_json = JObj kvs" "distinct (map fst kvs)"
      "map_of kvs ''MountPoints'' = Some (JObj ms)" "distinct (map fst ms)"
      "map_of ms ''Slot_7'' = None"
    by (simp add: shipped_json_def)
  have "json_parse sample_env ''t'' = Some (JObj kvs)" by (simp add: sample_env_def quiet_env_def kvs)
  from load_config_lookup [OF this kvs(2,3,4) load_shipped, of "''Slot_7''"] kvs(5)
  have "getMountPoint shipped_configuration ''Slot_7'' = None"
    by (simp add: shipped_configuration_def)
  then show ?thesis
    by (simp add: getMountPoint_def shipped_configuration_def shipped_slot_def)
qed

text \<open>An entry that names no device and no socket is accepted, with the unknown device.\<close>

lemma read_mount_point_without_device:
  "read_mount_point E (JObj [(''Mode'', JUInt 0)]) =
     Some \<lparr>nbdDevice = unknown, unixSocket = '''', endPointId = '''', timeout = None,
       blocksize = None, remainingInactivityTimeout = None, verifyCertificate = True,
       mp_mode = proxy\<rparr>"
  by (simp add: read_mount_point_def read_device_def read_string_member_def read_int_member_def
      read_mode_def json_find_def get_ptr_uint64_def Let_def)

end
