(* ===== verification/Resources.thy ===== *)
theory Resources
  imports Shares UsbGadget Config
begin

text \<open>
  \<^verbatim>\<open>src/resources.hpp\<close> and \<^verbatim>\<open>src/resources.cpp\<close>: the objects whose constructors acquire something and
  whose destructors release it. A \<open>_create\<close> is a constructor, a \<open>_destroy\<close> a destructor; the
  members that were built before a constructor throws are destroyed, the object itself is not.
\<close>

section \<open>Directories\<close>

definition mount_directory :: "env \<Rightarrow> string \<Rightarrow> world \<Rightarrow> string" where
  "mount_directory E name w =
     (if multi_host E \<and> g_basePath w = ''VirtualMedia1''
      then path_append (path_append (tmp_dir E) ''vmedia1'') name
      else path_append (tmp_dir E) name)"

text \<open>\<^verbatim>\<open>create_directories\<close> answers whether it created the directory.\<close>

definition directory_create :: "env \<Rightarrow> string \<Rightarrow> string wprog" where
  "directory_create E name =
     bindM (getM (mount_directory E name)) (\<lambda>path.
     bindM (sys_bool E (CreateDirectories path)) (\<lambda>created.
       if created then returnM path
       else throwM (ResourceError ENOENT ''Failed to create mount directory'')))"

definition directory_destroy :: "env \<Rightarrow> string \<Rightarrow> unit wprog" where
  "directory_destroy E path = do_sys E (RemovePath path)"

section \<open>Mounts\<close>

text \<open>\<^verbatim>\<open>Mount\<close> and \<^verbatim>\<open>NfsMount\<close> differ in the share they use and in the message.\<close>

definition mount_create ::
    "env \<Rightarrow> (string \<Rightarrow> bool \<Rightarrow> int wprog) \<Rightarrow> string \<Rightarrow> string \<Rightarrow> string \<Rightarrow> bool \<Rightarrow> unit wprog" where
  "mount_create E share message dir remote rw =
     bindM (share remote rw) (\<lambda>mountError.
       if mountError \<noteq> 0
       then thenM (directory_destroy E dir) (throwM (ResourceError mountError message))
       else returnM ())"

definition smbMount_create ::
    "env \<Rightarrow> string \<Rightarrow> credentials option \<Rightarrow> string \<Rightarrow> bool \<Rightarrow> unit wprog" where
  "smbMount_create E dir cr remote rw =
     mount_create E (smb_driver E dir cr) ''Failed to mount CIFS share'' dir remote rw"

definition nfsMount_create :: "env \<Rightarrow> string \<Rightarrow> string \<Rightarrow> bool \<Rightarrow> unit wprog" where
  "nfsMount_create E dir remote rw =
     mount_create E (nfs_mount E dir) ''Failed to mount NFS share'' dir remote rw"

definition DETACH_FORCE :: string where "DETACH_FORCE = ''MNT_DETACH|MNT_FORCE''"

definition mount_destroy :: "env \<Rightarrow> string \<Rightarrow> unit wprog" where
  "mount_destroy E dir =
     thenM (do_sys E (Umount2 dir DETACH_FORCE)) (directory_destroy E dir)"

section \<open>Gadgets\<close>

text \<open>The constructor catches every exception and keeps a status; the destructor has no handler.\<close>

definition gadget_create ::
    "env \<Rightarrow> string \<Rightarrow> nbd_device \<Rightarrow> state_change \<Rightarrow> bool \<Rightarrow> string \<Rightarrow> int wprog" where
  "gadget_create E name dev devState rw additionalInfo =
     catchM (configure_nbd E name dev devState rw additionalInfo)
       (\<lambda>e. if catchable e then returnM (-1) else throwM e)"

definition gadget_destroy :: "env \<Rightarrow> string \<Rightarrow> nbd_device \<Rightarrow> unit wprog" where
  "gadget_destroy E name dev =
     noexceptM (thenM (configure_nbd E name dev removed False '' '') (returnM ()))"

section \<open>What is mounted\<close>

definition is_release_of :: "string \<Rightarrow> call \<times> int \<Rightarrow> bool" where
  "is_release_of d x = (case x of (Umount2 l f, _) \<Rightarrow> l = d \<and> f = DETACH_FORCE | _ \<Rightarrow> False)"

text \<open>How many file systems a history has left mounted on a directory, counting the releases.\<close>

definition mounted :: "string \<Rightarrow> hist \<Rightarrow> int" where
  "mounted d h = int (tally (is_mount_of d) h) - int (tally (is_release_of d) h)"

lemma mounted_append [simp]: "mounted d (a @ b) = mounted d a + mounted d b"
  by (simp add: mounted_def)

lemma mounted_Nil [simp]: "mounted d [] = 0"
  by (simp add: mounted_def)

definition touches_mounts :: "call \<times> int \<Rightarrow> bool" where
  "touches_mounts x = (case x of (MountCall _ _ _ _ _, _) \<Rightarrow> True | (Umount2 _ _, _) \<Rightarrow> True | _ \<Rightarrow> False)"

lemma mounted_untouched: "tally touches_mounts h = 0 \<Longrightarrow> mounted d h = 0"
proof (induction h)
  case (Cons x h)
  obtain c r where x: "x = (c, r)" by (cases x)
  from Cons.prems have nt: "\<not> touches_mounts x" and t: "tally touches_mounts h = 0"
    by (auto split: if_splits)
  have "\<not> is_mount_of d x \<and> \<not> is_release_of d x"
    using nt by (cases c) (simp_all add: x touches_mounts_def is_mount_of_def is_release_of_def)
  with Cons.IH [OF t] show ?case by (simp add: mounted_def)
qed simp

lemma mounted_Cons_other: "\<not> touches_mounts x \<Longrightarrow> mounted d (x # h) = mounted d h"
  using mounted_untouched [of "[x]" d] mounted_append [of d "[x]" h] by simp


lemma mounted_release:
  "mounted d ((Umount2 l DETACH_FORCE, r) # h) = mounted d h - (if l = d then 1 else 0)"
  by (simp add: mounted_def is_mount_of_def is_release_of_def)

lemma secure_calls_release: "list_all (secure_mount_call rw l) new \<Longrightarrow> tally (is_release_of d) new = 0"
  by (induction new)
    (auto simp: secure_mount_call_def is_release_of_def split: call.splits prod.splits)

lemma secure_calls_elsewhere:
  "list_all (secure_mount_call rw l) new \<Longrightarrow> d \<noteq> l \<Longrightarrow> tally (is_mount_of d) new = 0"
  by (induction new)
    (auto simp: secure_mount_call_def is_mount_of_def split: call.splits prod.splits)

context share_driver
begin

text \<open>A mount object exists exactly when one more file system is mounted on its directory; when its
  constructor throws, the directory is gone and nothing is mounted.\<close>

lemma create_cases:
  obtains (created) new where "mount_create E mount_op msg dir remote rw w = (Inr (), w\<lparr>hist := new @ hist w\<rparr>)"
      and "\<And>d. mounted d new = (if d = dir then 1 else 0)"
    | (failed) e r new where "mount_create E mount_op msg dir remote rw w =
        (Inl (ResourceError e msg), w\<lparr>hist := (RemovePath dir, r) # new @ hist w\<rparr>)"
      and "\<And>d. mounted d new = 0" and "e \<noteq> 0"
proof (cases rule: mount_cases [of remote rw w])
  case (mounted new)
  have "mounted d new = (if d = dir then 1 else 0)" for d
    using mounted secure_calls_release secure_calls_elsewhere [of rw dir new d]
    by (auto simp: mounted_def)
  with mounted(1) show thesis
    by (intro created [of new]) (simp_all add: mount_create_def bindM_def returnM_def)
next
  case (failed e new)
  have "mounted d new = 0" for d
    using failed secure_calls_release secure_calls_elsewhere [of rw dir new d]
    by (cases "d = dir") (auto simp: mounted_def)
  with failed(1,2) show thesis
    by (intro that(2) [of e _ new])
      (simp_all add: mount_create_def bindM_def thenM_def directory_destroy_def do_sys_result throwM_def)
qed

end

lemma mount_books:
  "mounted d (hist (snd (mount_create E (nfs_mount E dir) msg dir remote rw w))) =
     mounted d (hist w) +
       (if fst (mount_create E (nfs_mount E dir) msg dir remote rw w) = Inr () \<and> d = dir then 1 else 0)"
  "mounted d (hist (snd (mount_create E (smb_driver E dir cr) msg dir remote rw w))) =
     mounted d (hist w) +
       (if fst (mount_create E (smb_driver E dir cr) msg dir remote rw w) = Inr () \<and> d = dir then 1 else 0)"
proof -
  have r: "\<not> touches_mounts (RemovePath dir, a)" for a by (simp add: touches_mounts_def)
  show "mounted d (hist (snd (mount_create E (nfs_mount E dir) msg dir remote rw w))) =
     mounted d (hist w) +
       (if fst (mount_create E (nfs_mount E dir) msg dir remote rw w) = Inr () \<and> d = dir then 1 else 0)"
    by (cases rule: nfs.create_cases [where E = E and Ea = E and d = dir
          and msg = msg and remote = remote and rw = rw and w = w])
      (simp_all add: mounted_Cons_other r)
  show "mounted d (hist (snd (mount_create E (smb_driver E dir cr) msg dir remote rw w))) =
     mounted d (hist w) +
       (if fst (mount_create E (smb_driver E dir cr) msg dir remote rw w) = Inr () \<and> d = dir then 1 else 0)"
    by (cases rule: smb.create_cases [where E = E and Ea = E and d = dir and cr = cr
          and msg = msg and remote = remote and rw = rw and w = w])
      (simp_all add: mounted_Cons_other r)
qed

text \<open>
  A remote share is held if and only if its mount object exists: the constructor returns having
  mounted exactly one file system on its own directory, or throws the error of the share having
  removed the directory with nothing mounted; and the destructor releases exactly that one.
\<close>

theorem mount_balance:
  "mounted d (hist (snd (nfsMount_create E dir remote rw w))) =
     mounted d (hist w) + (if fst (nfsMount_create E dir remote rw w) = Inr () \<and> d = dir then 1 else 0) \<and>
   mounted d (hist (snd (smbMount_create E dir cr remote rw w))) =
     mounted d (hist w) + (if fst (smbMount_create E dir cr remote rw w) = Inr () \<and> d = dir then 1 else 0) \<and>
   mounted d (hist (snd (mount_destroy E dir w))) = mounted d (hist w) - (if d = dir then 1 else 0)"
proof -
  have r: "\<not> touches_mounts (RemovePath dir, a)" for a by (simp add: touches_mounts_def)
  show ?thesis
    by (simp add: nfsMount_create_def smbMount_create_def mount_books mount_destroy_def
        directory_destroy_def then_do_sys do_sys_result mounted_Cons_other r mounted_release)
qed

end
