(* ===== verification/Notification.thy ===== *)
theory Notification
  imports Prelude
begin

text \<open>
  \<^verbatim>\<open>utils::NotificationWrapper\<close> with its \<^verbatim>\<open>SignalSender\<close> (\<^verbatim>\<open>src/utils.hpp\<close>) and the timeout handler that
  \<^verbatim>\<open>MountPointStateMachine::notificationStart\<close> gives it (\<^verbatim>\<open>src/state_machine.hpp\<close>). Of the timer only
  what decides the order of things is modelled: whether a wait is pending, and the queue of handlers
  that are ready to run, with the error code they will get. Cancelling makes the pending handler
  ready with \<^verbatim>\<open>operation_aborted\<close>; a handler that is ready already is not affected.
\<close>

section \<open>State and operations\<close>

datatype handler_code = aborted | expired

record notification =
  started :: bool
  wait_pending :: bool
  ready_handlers :: "handler_code list"

definition notification_new :: notification where
  "notification_new = \<lparr>started = False, wait_pending = False, ready_handlers = []\<rparr>"

text \<open>\<^verbatim>\<open>cancel\<close>, and \<^verbatim>\<open>expires_after\<close>, which cancels as well.\<close>

definition timer_cancel :: "notification \<Rightarrow> notification" where
  "timer_cancel n =
     (if wait_pending n
      then n\<lparr>wait_pending := False, ready_handlers := ready_handlers n @ [aborted]\<rparr> else n)"

definition notification_start :: "notification \<Rightarrow> notification" where
  "notification_start n = (timer_cancel (n\<lparr>started := True\<rparr>))\<lparr>wait_pending := True\<rparr>"

text \<open>\<^verbatim>\<open>SignalSender::send\<close>: the value of the signal for the given status.\<close>

definition send_value :: "int option \<Rightarrow> int" where
  "send_value status = (case status of Some ec \<Rightarrow> ec | None \<Rightarrow> 0)"

lemma send_value_simps [simp]: "send_value (Some ec) = ec" "send_value None = 0"
  by (simp_all add: send_value_def)

text \<open>\<^verbatim>\<open>notify\<close>: the value of the signal that is sent, if one is.\<close>

definition notify :: "int \<Rightarrow> notification \<Rightarrow> notification \<times> int option" where
  "notify ec n =
     (if started n
      then ((timer_cancel n)\<lparr>started := False\<rparr>,
            Some (if ec \<noteq> 0 then send_value (Some ec) else send_value None))
      else (n, None))"

text \<open>The timer elapses.\<close>

definition timer_elapse :: "notification \<Rightarrow> notification" where
  "timer_elapse n =
     (if wait_pending n
      then n\<lparr>wait_pending := False, ready_handlers := ready_handlers n @ [expired]\<rparr> else n)"

text \<open>The next handler runs: the wrapper clears \<^verbatim>\<open>started\<close> before it calls the handler of
  \<^verbatim>\<open>notificationStart\<close>, which notifies \<^verbatim>\<open>device_or_resource_busy\<close> unless it was cancelled.\<close>

definition run_handler :: "notification \<Rightarrow> notification \<times> int option" where
  "run_handler n =
     (case ready_handlers n of
        [] \<Rightarrow> (n, None)
      | h # hs \<Rightarrow>
          let n' = n\<lparr>ready_handlers := hs, started := False\<rparr>
          in if h = aborted then (n', None) else notify EBUSY n')"

section \<open>Sequences of operations\<close>

datatype notification_op = Start | Notify int | Elapse | RunHandler

fun notification_step :: "notification_op \<Rightarrow> notification \<Rightarrow> notification \<times> int option" where
  "notification_step Start n = (notification_start n, None)"
| "notification_step (Notify ec) n = notify ec n"
| "notification_step Elapse n = (timer_elapse n, None)"
| "notification_step RunHandler n = run_handler n"

text \<open>The signals sent by a sequence of operations, in order.\<close>

fun signals :: "notification_op list \<Rightarrow> notification \<Rightarrow> int list" where
  "signals [] n = []"
| "signals (op # ops) n =
     (case notification_step op n of
        (n', None) \<Rightarrow> signals ops n'
      | (n', Some v) \<Rightarrow> v # signals ops n')"

definition starts :: "notification_op list \<Rightarrow> nat" where
  "starts ops = length (filter (\<lambda>op. op = Start) ops)"

lemma starts_simps [simp]:
  "starts [] = 0"
  "starts (Start # ops) = Suc (starts ops)"
  "starts (Notify ec # ops) = starts ops"
  "starts (Elapse # ops) = starts ops"
  "starts (RunHandler # ops) = starts ops"
  by (simp_all add: starts_def)

lemmas notification_defs = notification_start_def notify_def timer_elapse_def timer_cancel_def
  run_handler_def Let_def

lemma run_handler_silent: "snd (run_handler n) = None"
  by (simp add: notification_defs split: list.split)

lemma run_handler_started: "started (fst (run_handler n)) \<Longrightarrow> started n"
  by (simp add: notification_defs split: list.splits if_splits)

lemma signals_le_starts: "length (signals ops n) \<le> starts ops + (if started n then 1 else 0)"
proof (induction ops arbitrary: n)
  case (Cons op ops)
  show ?case
  proof (cases op)
    case Start
    with Cons [of "notification_start n"] show ?thesis by (simp add: notification_defs split: if_splits)
  next
    case (Notify ec)
    with Cons [of "fst (notify ec n)"] show ?thesis by (auto simp: notify_def split: if_splits)
  next
    case Elapse
    with Cons [of "timer_elapse n"] show ?thesis by (auto simp: timer_elapse_def split: if_splits)
  next
    case RunHandler
    obtain n' where r: "run_handler n = (n', None)"
      using run_handler_silent [of n] by (cases "run_handler n") simp
    with RunHandler Cons [of n'] run_handler_started [of n] show ?thesis by (auto split: if_splits)
  qed
qed simp

lemma signals_values: "v \<in> set (signals ops n) \<Longrightarrow> Notify v \<in> set ops"
proof (induction ops arbitrary: n)
  case (Cons op ops)
  show ?case
  proof (cases op)
    case RunHandler
    obtain n' where "run_handler n = (n', None)"
      using run_handler_silent [of n] by (cases "run_handler n") simp
    with RunHandler Cons show ?thesis by auto
  qed (use Cons in \<open>auto simp: notify_def split: if_splits\<close>)
qed simp

text \<open>
  C37. A client is told the outcome of a request at most once: over any sequence of starts,
  notifications, expirations and handler runs, from the initial state, there are never more signals
  than starts, and every signal carries the value of some notification of the state machine.
\<close>

theorem signals_bounded:
  "length (signals ops notification_new) \<le> starts ops \<and>
   set (signals ops notification_new) \<subseteq> {v. Notify v \<in> set ops}"
  using signals_le_starts [of ops notification_new] signals_values [of _ ops notification_new]
  by (auto simp: notification_new_def)

text \<open>
  The outcome of a request is told when the state machine reaches it in time: if no handler is
  ready when the request starts, the first notification after it, with no handler run between, sends
  the signal with its value, whether or not the time is up by then; and afterwards the cancelled
  handler is harmless: nothing is sent until the next start.
\<close>

theorem started_is_signalled:
  assumes "ready_handlers n = []"
  shows "signals [Start, Notify ec] n = [ec] \<and> signals [Start, Elapse, Notify ec] n = [ec] \<and>
     signals [Start, Notify ec, RunHandler, RunHandler, Notify ec'] n = [ec]"
  using assms by (simp add: notification_defs)

theorem started_is_signalled_witness:
  "signals [Start, Notify 16] notification_new = [16]"
  using started_is_signalled [of notification_new 16] by (simp add: notification_new_def)

section \<open>The timeout\<close>

text \<open>The handler of an elapsed timer never sends the signal it is there to send: \<^verbatim>\<open>started\<close> is cleared
  before \<^verbatim>\<open>notify\<close> tests it. A later notification of the state machine is suppressed too.\<close>

lemma timeout_is_silent:
  assumes "ready_handlers n = []"
  shows "signals [Start, Elapse, RunHandler] n = [] \<and>
     signals [Start, Elapse, RunHandler, Notify ec] n = []"
  using assms by (simp add: notification_defs)

text \<open>A cancelled handler that has not run when the next request starts takes that request's signal.\<close>

lemma stale_handler_takes_signal:
  assumes "ready_handlers n = []" and "\<not> wait_pending n"
  shows "signals [Start, Notify ec, Start, RunHandler, Notify ec'] n = [ec]"
  using assms by (simp add: notification_defs)

end
