(* ===== verification/Process.thy ===== *)
theory Process
  imports NbdDevice
begin

text \<open>
  \<^verbatim>\<open>Process\<close> of \<^verbatim>\<open>src/system.hpp\<close>: the child that serves a block device. Its two coroutines are the
  programs below: the one \<^verbatim>\<open>spawn\<close> starts reads the console of the child until it closes and then
  reaps it, the one \<^verbatim>\<open>stop\<close> starts disconnects the device and waits for the child to leave.
\<close>

section \<open>The console\<close>

text \<open>
  \<^verbatim>\<open>async_read_until\<close> on the pipe, of which \<open>chunks\<close> are the portions that arrive before it closes: it
  returns when the buffer holds the delimiter, with the number of characters up to and including the
  first one, or with an error and 0 when the pipe closes first.
\<close>

definition newline :: char where "newline = CHR 0x0A"

fun read_until :: "string \<Rightarrow> string list \<Rightarrow> string \<times> nat \<times> bool \<times> string list" where
  "read_until line [] =
     (if newline \<in> set line then (line, Suc (length (takeWhile (\<lambda>c. c \<noteq> newline) line)), False, [])
      else (line, 0, True, []))"
| "read_until line (chunk # chunks) =
     (if newline \<in> set line
      then (line, Suc (length (takeWhile (\<lambda>c. c \<noteq> newline) line)), False, chunk # chunks)
      else read_until (line @ chunk) chunks)"

text \<open>The inner loop: what is logged of the buffer.\<close>

function log_lines :: "string \<Rightarrow> string list" where
  "log_lines line =
     (if line = [] then []
      else takeWhile (\<lambda>c. c \<noteq> newline) line #
        (case dropWhile (\<lambda>c. c \<noteq> newline) line of [] \<Rightarrow> [] | _ # rest \<Rightarrow> log_lines rest))"
  by pat_completeness auto
termination
proof (relation "measure length")
  fix line y rest
  assume "dropWhile (\<lambda>c. c \<noteq> newline) line = y # rest"
  then have "length (y # rest) \<le> length line" by (metis length_dropWhile_le)
  then show "(rest, line) \<in> measure length" by simp
qed simp

declare log_lines.simps [simp del]

lemma read_until_keeps:
  "read_until line chunks = (line', x, bec, chunks') \<Longrightarrow>
     line' @ concat chunks' = line @ concat chunks \<and> (bec \<longrightarrow> chunks' = [] \<and> newline \<notin> set line') \<and>
     (\<not> bec \<longrightarrow> newline \<in> set line' \<and> x = Suc (length (takeWhile (\<lambda>c. c \<noteq> newline) line')))"
  by (induction line chunks rule: read_until.induct) (auto split: if_splits)

lemma read_until_shrinks:
  assumes "(line', x, bec, chunks') = read_until line chunks" and "\<not> bec"
  shows "length (drop x line' @ concat chunks') < length (line @ concat chunks)"
proof -
  from assms have "read_until line chunks = (line', x, False, chunks')" by simp
  from read_until_keeps [OF this] have "length (line' @ concat chunks') = length (line @ concat chunks)"
    and "newline \<in> set line'" and "x = Suc (length (takeWhile (\<lambda>c. c \<noteq> newline) line'))" by simp_all
  then show ?thesis by (cases line') auto
qed

text \<open>The outer loop: every line of the log, until the pipe closes.\<close>

function read_console :: "string \<Rightarrow> string list \<Rightarrow> string list" where
  "read_console line chunks =
     (case read_until line chunks of
        (line', x, bec, chunks') \<Rightarrow>
          log_lines line' @ (if bec then [] else read_console (drop x line') chunks'))"
  by pat_completeness auto
termination
  by (relation "measure (\<lambda>(line, chunks). length (line @ concat chunks))")
    (use read_until_shrinks in \<open>auto simp del: length_append\<close>)

declare read_console.simps [simp del]

section \<open>The coroutines\<close>

text \<open>The waiting loop: at most \<open>n\<close> pauses of 100 ms while the child runs.\<close>

fun wait_exit :: "env \<Rightarrow> string \<Rightarrow> nat \<Rightarrow> unit wprog" where
  "wait_exit E name 0 = bindM (sys_bool E (ChildRunning name)) (\<lambda>_. returnM ())"
| "wait_exit E name (Suc waitCnt) =
     bindM (sys_bool E (ChildRunning name)) (\<lambda>running.
       if running then thenM (do_sys E (Sleep 100)) (wait_exit E name waitCnt) else returnM ())"

text \<open>The end of the coroutine of \<^verbatim>\<open>spawn\<close>: the exit code it hands to \<^verbatim>\<open>onExit\<close>.\<close>

definition process_reap :: "env \<Rightarrow> string \<Rightarrow> int wprog" where
  "process_reap E name =
     thenM (wait_exit E name 20)
    (bindM (sys_bool E (ChildRunning name)) (\<lambda>running.
     thenM (whenM running (do_sys E (Terminate_child name)))
       (sys E (WaitChild name))))"

text \<open>The coroutine of \<^verbatim>\<open>stop\<close>: \<open>True\<close> when it calls \<^verbatim>\<open>onTerminate\<close>.\<close>

definition process_stop :: "env \<Rightarrow> string \<Rightarrow> nbd_device \<Rightarrow> bool wprog" where
  "process_stop E name dev =
     thenM (nbd_disconnect E dev)
    (thenM (wait_exit E name 20)
    (bindM (sys_bool E (ChildRunning name)) (\<lambda>running.
       if running then thenM (do_sys E (Terminate_child name)) (returnM True) else returnM False)))"

section \<open>Bounds\<close>

definition is_pause :: "call \<times> int \<Rightarrow> bool" where
  "is_pause x = (case x of (Sleep _, _) \<Rightarrow> True | _ \<Rightarrow> False)"

definition is_kill :: "call \<times> int \<Rightarrow> bool" where
  "is_kill x = (case x of (Terminate_child _, _) \<Rightarrow> True | _ \<Rightarrow> False)"

lemma is_pause_kill_simps [simp]:
  "is_pause (Sleep n, r)" "\<not> is_pause (ChildRunning a, r)" "\<not> is_pause (Terminate_child a, r)"
  "is_kill (Terminate_child a, r)" "\<not> is_kill (ChildRunning a, r)" "\<not> is_kill (Sleep n, r)"
  "\<not> is_pause (OpenDevice a, r)" "\<not> is_pause (CloseDevice a, r)" "\<not> is_pause (IoctlDisconnect a, r)"
  "\<not> is_pause (IoctlClearSock a, r)"
  "\<not> is_kill (OpenDevice a, r)" "\<not> is_kill (CloseDevice a, r)" "\<not> is_kill (IoctlDisconnect a, r)"
  "\<not> is_kill (IoctlClearSock a, r)"
  by (simp_all add: is_pause_def is_kill_def)

lemma wait_exit_result:
  "\<exists>new. wait_exit E name n w = (Inr (), w\<lparr>hist := new @ hist w\<rparr>) \<and>
     tally is_pause new \<le> n \<and> tally is_kill new = 0"
proof (induction n arbitrary: w)
  case 0
  show ?case
    by (auto simp: bindM_def sys_bool_result returnM_def intro!: exI [of _ "[x]" for x])
next
  case (Suc n)
  let ?c = "ChildRunning name"
  let ?w1 = "w\<lparr>hist := (?c, ask E (hist w) ?c) # hist w\<rparr>"
  let ?w2 = "?w1\<lparr>hist := (Sleep 100, ask E (hist ?w1) (Sleep 100)) # hist ?w1\<rparr>"
  show ?case
  proof (cases "ask E (hist w) ?c > 0")
    case True
    from Suc.IH [of ?w2] obtain new where
      "wait_exit E name n ?w2 = (Inr (), ?w2\<lparr>hist := new @ hist ?w2\<rparr>)"
      "tally is_pause new \<le> n" "tally is_kill new = 0" by blast
    with True show ?thesis
      by (intro exI [of _ "new @ [(Sleep 100, ask E (hist ?w1) (Sleep 100)), (?c, ask E (hist w) ?c)]"])
        (simp add: bindM_def sys_bool_result then_do_sys)
  next
    case False
    then show ?thesis
      by (auto simp: bindM_def sys_bool_result returnM_def intro!: exI [of _ "[x]" for x])
  qed
qed

lemma nbd_disconnect_result:
  "\<exists>new. nbd_disconnect E d w = (Inr (), w\<lparr>hist := new @ hist w\<rparr>) \<and>
     tally is_pause new = 0 \<and> tally is_kill new = 0"
  by (cases "d = unknown"; cases "ask E (hist w) (OpenDevice (nbd_to_path d)) < 0")
    (auto simp: nbd_disconnect_def bind_sys then_do_sys do_sys_result returnM_def
      intro: exI [of _ "[]"] exI [of _ "[x]" for x] exI [of _ "[a, b, c, d]" for a b c d])

text \<open>
  C38. Stopping a child never throws and takes at most 20 pauses of 100 ms: it is killed, once, exactly
  when it still runs after them, and exactly then the state machine is told by the callback.
\<close>

theorem process_stop_bounded:
  "\<exists>killed new. process_stop E name dev w = (Inr killed, w\<lparr>hist := new @ hist w\<rparr>) \<and>
     tally is_pause new \<le> 20 \<and> tally is_kill new = (if killed then 1 else 0) \<and>
     (killed \<longleftrightarrow> (\<exists>h r. (ChildRunning name, r) # h = drop (tally is_kill new) new \<and> r > 0))"
proof -
  from nbd_disconnect_result [of E dev w] obtain h1 where
    h1: "nbd_disconnect E dev w = (Inr (), w\<lparr>hist := h1 @ hist w\<rparr>)"
      "tally is_pause h1 = 0" "tally is_kill h1 = 0" by blast
  let ?w1 = "w\<lparr>hist := h1 @ hist w\<rparr>"
  from wait_exit_result [of E name 20 ?w1] obtain h2 where
    h2: "wait_exit E name 20 ?w1 = (Inr (), ?w1\<lparr>hist := h2 @ hist ?w1\<rparr>)"
      "tally is_pause h2 \<le> 20" "tally is_kill h2 = 0" by blast
  let ?w2 = "?w1\<lparr>hist := h2 @ hist ?w1\<rparr>"
  let ?c = "ChildRunning name"
  let ?r = "ask E (hist ?w2) ?c"
  let ?w3 = "?w2\<lparr>hist := (?c, ?r) # hist ?w2\<rparr>"
  let ?k = "Terminate_child name"
  have eq: "process_stop E name dev w =
     (if ?r > 0 then (Inr True, ?w3\<lparr>hist := (?k, ask E (hist ?w3) ?k) # hist ?w3\<rparr>)
      else (Inr False, ?w3))"
    using h1 h2
    by (simp add: process_stop_def thenM_def bindM_def sys_bool_result do_sys_result returnM_def)
  show ?thesis
  proof (cases "?r > 0")
    case True
    with eq h1 h2 show ?thesis
      by (intro exI [of _ True] exI [of _ "(?k, ask E (hist ?w3) ?k) # (?c, ?r) # h2 @ h1"]) simp
  next
    case False
    with eq h1 h2 show ?thesis
      by (intro exI [of _ False] exI [of _ "(?c, ?r) # h2 @ h1"]) simp
  qed
qed

section \<open>What is logged of the console\<close>

lemma log_lines_Nil [simp]: "log_lines [] = []"
  by (subst log_lines.simps) simp

lemma line_split:
  "newline \<notin> set x \<Longrightarrow> takeWhile (\<lambda>c. c \<noteq> newline) (x @ newline # rest) = x"
  "newline \<notin> set x \<Longrightarrow> dropWhile (\<lambda>c. c \<noteq> newline) (x @ newline # rest) = newline # rest"
  "newline \<notin> set x \<Longrightarrow> takeWhile (\<lambda>c. c \<noteq> newline) (x @ u) = x @ takeWhile (\<lambda>c. c \<noteq> newline) u"
  "newline \<notin> set x \<Longrightarrow> dropWhile (\<lambda>c. c \<noteq> newline) x = []"
  by (induction x) auto

lemma log_lines_full:
  "newline \<notin> set x \<Longrightarrow> log_lines (x @ newline # rest) = x # log_lines rest"
  by (subst log_lines.simps) (simp add: line_split)

lemma log_lines_last: "newline \<notin> set x \<Longrightarrow> x \<noteq> [] \<Longrightarrow> log_lines x = [x]"
  by (subst log_lines.simps) (use line_split(3) [of x "[]"] in \<open>simp add: line_split\<close>)

lemma first_line:
  assumes "newline \<in> set s"
  obtains x rest where "s = x @ newline # rest" and "newline \<notin> set x"
  using assms by (meson split_list_first)

lemma log_lines_prefix:
  "prefix s t \<Longrightarrow> x \<in> set (log_lines s) \<Longrightarrow> \<exists>y\<in>set (log_lines t). prefix x y"
proof (induction s arbitrary: t rule: log_lines.induct)
  case (1 s)
  from "1.prems" obtain u where t: "t = s @ u" by (auto simp: prefix_def)
  show ?case
  proof (cases "newline \<in> set s")
    case True
    then obtain l rest where s: "s = l @ newline # rest" and l: "newline \<notin> set l" by (rule first_line)
    then have logs: "log_lines s = l # log_lines rest" "log_lines t = l # log_lines (rest @ u)"
      by (simp_all add: t log_lines_full)
    have drop: "s \<noteq> []" "dropWhile (\<lambda>c. c \<noteq> newline) s = newline # rest"
      using s l by (simp_all add: line_split)
    from "1.prems"(2) logs consider "x = l" | "x \<in> set (log_lines rest)" by auto
    then show ?thesis
    proof cases
      case 2
      from "1.IH" [OF drop, of "rest @ u"] 2 logs show ?thesis by auto
    qed (use logs in auto)
  next
    case False
    have "s \<noteq> []" using "1.prems"(2) by auto
    with False "1.prems"(2) have "x = s" by (simp add: log_lines_last)
    moreover have "takeWhile (\<lambda>c. c \<noteq> newline) t = s @ takeWhile (\<lambda>c. c \<noteq> newline) u"
      unfolding t using False by (rule line_split(3))
    ultimately show ?thesis using \<open>s \<noteq> []\<close> by (subst log_lines.simps) (simp add: t)
  qed
qed

text \<open>
  C39. Whatever the portions in which the output of the child arrives, reading ends when the pipe closes,
  every line of the output is logged, in the order of the output, and nothing is logged that is not a
  line of the output or the beginning of one.
\<close>

theorem console_complete:
  "subseq (log_lines (line @ concat chunks)) (read_console line chunks) \<and>
   list_all (\<lambda>x. list_ex (prefix x) (log_lines (line @ concat chunks))) (read_console line chunks)"
proof (induction line chunks rule: read_console.induct)
  case (1 line chunks)
  obtain line' x bec chunks' where run: "read_until line chunks = (line', x, bec, chunks')"
    by (cases "read_until line chunks")
  note keep = read_until_keeps [OF run]
  let ?all = "log_lines (line @ concat chunks)"
  have "prefix line' (line @ concat chunks)" using keep by (metis prefixI)
  then have now: "list_all (\<lambda>x. list_ex (prefix x) ?all) (log_lines line')"
    unfolding list_all_iff list_ex_iff using log_lines_prefix by blast
  have unfold: "read_console line chunks =
      log_lines line' @ (if bec then [] else read_console (drop x line') chunks')"
    by (subst read_console.simps) (simp add: run)
  show ?case
  proof (cases bec)
    case True
    with keep have "line @ concat chunks = line'" by (metis append_Nil2 concat.simps(1))
    with True now show ?thesis by (simp add: unfold)
  next
    case False
    with keep obtain l rest where line': "line' = l @ newline # rest" and l: "newline \<notin> set l"
      by (auto elim: first_line)
    then have x: "drop x line' = rest" using keep False by (simp add: line_split)
    have "line @ concat chunks = l @ newline # rest @ concat chunks'" using keep line' by simp
    with l have all: "?all = l # log_lines (rest @ concat chunks')" by (simp add: log_lines_full)
    from "1.IH" [OF run [symmetric] refl refl False] x
    have IH: "subseq (log_lines (rest @ concat chunks')) (read_console rest chunks')"
      "list_all (\<lambda>x. list_ex (prefix x) (log_lines (rest @ concat chunks'))) (read_console rest chunks')"
      by simp_all
    have "log_lines line' = l # log_lines rest" using line' l by (simp add: log_lines_full)
    with IH False x have "subseq ?all (read_console line chunks)"
      unfolding unfold all by (simp add: list_emb_append2)
    moreover from IH(2) have "list_all (\<lambda>x. list_ex (prefix x) ?all) (read_console rest chunks')"
      unfolding all by (auto simp: list_all_iff)
    ultimately show ?thesis using now False x by (simp add: unfold)
  qed
qed

text \<open>Lines that arrive together are logged more than once: each pass logs all of the buffer and consumes
  one line of it.\<close>

lemma console_repeats:
  assumes "newline \<notin> set a" and "newline \<notin> set b"
  shows "read_console [] [a @ newline # b @ [newline]] = [a, b, b]"
proof -
  have "drop (Suc (length a)) (a @ newline # b @ [newline]) = b @ [newline]" by simp
  with assms show ?thesis
    by (simp add: read_console.simps log_lines_full line_split del: drop_append)
qed

end
