(* ===== verification/VmInterface.thy ===== *)
theory VmInterface
  imports Platform
begin

text \<open>
  \<^verbatim>\<open>src/vm_interface.cpp\<close>: the D-Bus interfaces that hold the retry parameters and the backup image
  URLs, and the configuration file they are kept in. The singleton \<^verbatim>\<open>Interface::instance\<close> and the
  global \<^verbatim>\<open>jsonData\<close> are in the \<open>world\<close>; the file is its field \<open>conf_text\<close> (\<open>None\<close> when it cannot be
  opened).
\<close>

section \<open>The configuration file\<close>

definition no_instance :: "exn" where
  "no_instance = UB ''vm::Interface::instance is null''"

text \<open>
  \<^verbatim>\<open>loadJson\<close>: every failure is caught and reported as -1. A text that does not parse leaves
  \<^verbatim>\<open>jsonData\<close> as it was; a document that is null is stored before it is refused.
\<close>

definition loadJson :: "env \<Rightarrow> int wprog" where
  "loadJson E w =
     (case vm_instance w of
        None \<Rightarrow> (Inl no_instance, w)
      | Some _ \<Rightarrow>
          (case conf_text w of
             None \<Rightarrow> (Inr (-1), w)
           | Some text \<Rightarrow>
               (case json_parse E text of
                  None \<Rightarrow> (Inr (-1), w)
                | Some j \<Rightarrow>
                    if j = JNull then (Inr (-1), w\<lparr>jsonData := JNull\<rparr>)
                    else (Inr 0, w\<lparr>jsonData := j\<rparr>))))"

text \<open>Writing \<^verbatim>\<open>jsonData.dump(4)\<close> with an \<^verbatim>\<open>ofstream\<close>: opening truncates the file, and as much of
  the text arrives as the system accepts; the code does not look at the outcome.\<close>

definition writeJson :: "env \<Rightarrow> string \<Rightarrow> unit wprog" where
  "writeJson E path =
     bindM (sys_bool E (OpenForWrite path)) (\<lambda>opened.
       if opened
       then bindM (getM (\<lambda>w. json_dump E (jsonData w))) (\<lambda>text.
              thenM (modifyM (\<lambda>w. w\<lparr>conf_text := Some ''''\<rparr>))
                (bindM (sys E (WriteBytes path text)) (\<lambda>n.
                   modifyM (\<lambda>w. w\<lparr>conf_text := Some (take (nat n) text)\<rparr>))))
       else returnM ())"

section \<open>The backup image URLs\<close>

text \<open>The text at \<^verbatim>\<open>BackupImageURL\<close>, slot, \<^verbatim>\<open>ImageURL\<close>: empty when a member is missing, an
  exception when it is no string.\<close>

definition image_url_of :: "json \<Rightarrow> string \<Rightarrow> exn + string" where
  "image_url_of j slot =
     (case Option.bind (json_find j ''BackupImageURL'') (\<lambda>b. Option.bind (json_find b slot)
             (\<lambda>s. json_find s ''ImageURL'')) of
        None \<Rightarrow> Inr ''''
      | Some v \<Rightarrow> json_get_string v)"

definition set_property :: "string \<Rightarrow> 'v \<Rightarrow> (string \<times> 'v) list \<Rightarrow> (string \<times> 'v) list" where
  "set_property k v props = map (\<lambda>(j, u). (j, if j = k then v else u)) props"

definition publish_urls :: "env \<Rightarrow> string \<Rightarrow> string \<Rightarrow> unit wprog" where
  "publish_urls E url2 url3 w =
     (case vm_instance w of
        None \<Rightarrow> (Inl no_instance, w)
      | Some vi \<Rightarrow>
          (case vmediaImageURLInterface vi of
             None \<Rightarrow>
               thenM (do_sys E (AddInterface (vmObjPath vi) ''xyz.openbmc_project.VirtualMedia.BackupImageURL''))
                 (modifyM (\<lambda>w. w\<lparr>vm_instance := Some
                    (vi\<lparr>vmediaImageURLInterface := Some [(''Slot_2'', url2), (''Slot_3'', url3)]\<rparr>)\<rparr>)) w
           | Some props \<Rightarrow>
               modifyM (\<lambda>w. w\<lparr>vm_instance := Some (vi\<lparr>vmediaImageURLInterface :=
                 Some (set_property ''Slot_3'' url3 (set_property ''Slot_2'' url2 props))\<rparr>)\<rparr>) w))"

definition loadImageURLFromJson :: "env \<Rightarrow> unit wprog" where
  "loadImageURLFromJson E =
     bindM (loadJson E) (\<lambda>rc.
       if rc \<noteq> 0 then returnM ()
       else bindM (getM jsonData) (\<lambda>j.
            bindM (liftE (image_url_of j ''Slot_2'')) (\<lambda>slot2ImageURL.
            bindM (liftE (image_url_of j ''Slot_3'')) (\<lambda>slot3ImageURL.
            publish_urls E slot2ImageURL slot3ImageURL))))"

text \<open>\<^verbatim>\<open>jsonData["BackupImageURL"][slotKey]["ImageURL"] = imageURL\<close>\<close>

definition set_image_url :: "json \<Rightarrow> string \<Rightarrow> string \<Rightarrow> exn + json" where
  "set_image_url j slotKey imageURL =
     (case json_find j ''BackupImageURL'' of
        None \<Rightarrow> Inr j
      | Some b \<Rightarrow>
          (case json_at b slotKey of
             Inl e \<Rightarrow> Inl e
           | Inr (b', s) \<Rightarrow>
               (case json_set s ''ImageURL'' (JString imageURL) of
                  Inl e \<Rightarrow> Inl e
                | Inr s' \<Rightarrow>
                    (case json_set b' slotKey s' of
                       Inl e \<Rightarrow> Inl e
                     | Inr b'' \<Rightarrow> json_set j ''BackupImageURL'' b''))))"

text \<open>\<^verbatim>\<open>contains("BackupImageURL")\<close> and then \<^verbatim>\<open>["BackupImageURL"].contains(slotKey)\<close>\<close>

definition has_backup_slot :: "json \<Rightarrow> string \<Rightarrow> bool" where
  "has_backup_slot j slotKey =
     (case json_find j ''BackupImageURL'' of None \<Rightarrow> False | Some b \<Rightarrow> json_contains b slotKey)"

definition conf_path :: "world \<Rightarrow> string" where
  "conf_path w = (case vm_instance w of Some vi \<Rightarrow> vmConfigPath vi | None \<Rightarrow> '''')"

definition saveImageURLToJson :: "env \<Rightarrow> string \<Rightarrow> string \<Rightarrow> unit wprog" where
  "saveImageURLToJson E imageURL slotKey =
     (if slotKey \<noteq> ''Slot_2'' \<and> slotKey \<noteq> ''Slot_3'' then returnM ()
      else bindM (loadJson E) (\<lambda>rc.
        if rc \<noteq> 0 then returnM ()
        else bindM (getM jsonData) (\<lambda>j.
          if has_backup_slot j slotKey
          then bindM (liftE (set_image_url j slotKey imageURL)) (\<lambda>j'.
               thenM (modifyM (\<lambda>w. w\<lparr>jsonData := j'\<rparr>))
                 (bindM (getM conf_path) (\<lambda>path.
                  thenM (writeJson E path) (loadImageURLFromJson E))))
          else returnM ())))"

section \<open>The retry parameters\<close>

definition MIN_RETRY_COUNT :: "32 word" where "MIN_RETRY_COUNT = 3"
definition MAX_RETRY_COUNT :: "32 word" where "MAX_RETRY_COUNT = 6"
definition MIN_RETRY_INTERVAL :: "32 word" where "MIN_RETRY_INTERVAL = 15"
definition MAX_RETRY_INTERVAL :: "32 word" where "MAX_RETRY_INTERVAL = 30"

lemmas retry_limits = MIN_RETRY_COUNT_def MAX_RETRY_COUNT_def MIN_RETRY_INTERVAL_def
  MAX_RETRY_INTERVAL_def

definition retry_in_range :: "32 word \<Rightarrow> 32 word \<Rightarrow> bool" where
  "retry_in_range c i \<longleftrightarrow>
     \<not> ((c < MIN_RETRY_COUNT \<or> c > MAX_RETRY_COUNT) \<or>
        (i < MIN_RETRY_INTERVAL \<or> i > MAX_RETRY_INTERVAL))"

definition retry_error :: string where
  "retry_error = ''Error: RetryCount must be set between 3 and 6. '' @
     ''RetryInterval should be configured between 15 and 30.''"

text \<open>\<^verbatim>\<open>jsonData[key]\<close> as a value: it may create the member.\<close>

definition json_member :: "string \<Rightarrow> json wprog" where
  "json_member k w =
     (case json_at (jsonData w) k of
        Inl e \<Rightarrow> (Inl e, w)
      | Inr (j, v) \<Rightarrow> (Inr v, w\<lparr>jsonData := j\<rparr>))"

definition set_json_member :: "string \<Rightarrow> json \<Rightarrow> unit wprog" where
  "set_json_member k v w =
     (case json_set (jsonData w) k v of
        Inl e \<Rightarrow> (Inl e, w)
      | Inr j \<Rightarrow> (Inr (), w\<lparr>jsonData := j\<rparr>))"

definition modify_instance :: "(vm_interface \<Rightarrow> vm_interface) \<Rightarrow> unit wprog" where
  "modify_instance f w =
     (case vm_instance w of
        None \<Rightarrow> (Inl no_instance, w)
      | Some vi \<Rightarrow> (Inr (), w\<lparr>vm_instance := Some (f vi)\<rparr>))"

definition RmediaInterface :: string where
  "RmediaInterface = ''xyz.openbmc_project.VirtualMedia.Reconnect''"

definition addRmediaInterface :: "env \<Rightarrow> unit wprog" where
  "addRmediaInterface E =
     bindM (getM (\<lambda>w. case vm_instance w of Some vi \<Rightarrow> vmObjPath vi | None \<Rightarrow> '''')) (\<lambda>obj.
     thenM (do_sys E (AddInterface obj RmediaInterface))
       (thenM (modify_instance (\<lambda>vi. vi\<lparr>vmediaInterface := Some []\<rparr>))
       (bindM (json_member ''RetryCount'') (\<lambda>c.
        bindM (liftE (json_get_uint32 c)) (\<lambda>count.
        thenM (modify_instance (\<lambda>vi. vi\<lparr>RetryCount := count\<rparr>))
        (bindM (json_member ''RetryInterval'') (\<lambda>i.
         bindM (liftE (json_get_uint32 i)) (\<lambda>interval.
         thenM (modify_instance (\<lambda>vi. vi\<lparr>RetryInterval := interval, vmediaInterface :=
             Some [(''RetryCount'', count), (''RetryInterval'', interval)]\<rparr>))
           (thenM (do_sys E (RegisterMethod obj RmediaInterface ''SetAll''))
             (do_sys E (RegisterMethod obj RmediaInterface ''GetAll'')))))))))))"

definition addInterfaces :: "env \<Rightarrow> unit wprog" where
  "addInterfaces E =
     bindM (loadJson E) (\<lambda>_. thenM (addRmediaInterface E) (loadImageURLFromJson E))"

text \<open>The part of \<^verbatim>\<open>SetAll\<close> inside its \<^verbatim>\<open>try\<close>.\<close>

definition persist_retry :: "env \<Rightarrow> 32 word \<Rightarrow> 32 word \<Rightarrow> unit wprog" where
  "persist_retry E c i =
     bindM (loadJson E) (\<lambda>_.
     bindM (json_member ''RetryCount'') (\<lambda>jc.
     bindM (if \<not> json_eq_uint jc c then returnM True
            else bindM (json_member ''RetryInterval'') (\<lambda>ji. returnM (\<not> json_eq_uint ji i))) (\<lambda>differs.
       if differs
       then thenM (set_json_member ''RetryCount'' (JUInt (unat c)))
              (thenM (set_json_member ''RetryInterval'' (JUInt (unat i)))
                (bindM (getM conf_path) (\<lambda>path. writeJson E path)))
       else returnM ())))"

definition with_retry :: "32 word \<Rightarrow> 32 word \<Rightarrow> vm_interface \<Rightarrow> vm_interface" where
  "with_retry c i vi =
     vi\<lparr>RetryCount := c, RetryInterval := i,
        vmediaInterface := map_option
          (set_property ''RetryInterval'' i \<circ> set_property ''RetryCount'' c) (vmediaInterface vi)\<rparr>"

definition SetAll :: "env \<Rightarrow> 32 word \<Rightarrow> 32 word \<Rightarrow> string wprog" where
  "SetAll E newRetryCount newRetryInterval =
     (if \<not> retry_in_range newRetryCount newRetryInterval then returnM retry_error
      else (\<lambda>w. case vm_instance w of
        None \<Rightarrow> (Inl no_instance, w)
      | Some vi \<Rightarrow>
          if RetryCount vi = newRetryCount \<and> RetryInterval vi = newRetryInterval
          then (Inr ''Success'', w)
          else
            (let vi' = with_retry newRetryCount newRetryInterval vi;
                 status = (if vmediaInterface vi \<noteq> None then ''Success'' else ''Unknown'')
             in thenM
                  (catchM (persist_retry E newRetryCount newRetryInterval)
                     (\<lambda>e. case e of UB m \<Rightarrow> throwM (UB m) | _ \<Rightarrow> returnM ()))
                  (returnM status) (w\<lparr>vm_instance := Some vi'\<rparr>))))"

definition GetAll :: "(32 word \<times> 32 word) wprog" where
  "GetAll w =
     (case vm_instance w of
        None \<Rightarrow> (Inl no_instance, w)
      | Some vi \<Rightarrow> (Inr (RetryCount vi, RetryInterval vi), w))"

section \<open>What the operations leave alone\<close>

lemma keeps_json_member: "(\<And>w j. P w \<Longrightarrow> P (w\<lparr>jsonData := j\<rparr>)) \<Longrightarrow> keeps P (json_member k)"
  by (auto simp: keeps_def json_member_def split: sum.splits)

lemma keeps_set_json_member: "(\<And>w j. P w \<Longrightarrow> P (w\<lparr>jsonData := j\<rparr>)) \<Longrightarrow> keeps P (set_json_member k v)"
  by (auto simp: keeps_def set_json_member_def split: sum.splits)

lemma keeps_loadJson: "(\<And>w j. P w \<Longrightarrow> P (w\<lparr>jsonData := j\<rparr>)) \<Longrightarrow> keeps P (loadJson E)"
  by (auto simp: keeps_def loadJson_def split: option.splits)

lemma keeps_instance_persist: "keeps (\<lambda>w. vm_instance w = x) (persist_retry E c i)"
  unfolding persist_retry_def writeJson_def
  by (intro keeps_rules keeps_loadJson keeps_json_member keeps_set_json_member keeps_modify
      keeps_sys_bool keeps_sys) simp_all

lemma throws_json_member:
  "throws_only (\<lambda>w. vm_instance w \<noteq> None) (\<lambda>e. e = JsonError 305) (json_member k)"
  by (auto simp: throws_only_def json_member_def json_at_def split: sum.splits json.splits option.splits)

lemma throws_set_json_member:
  "throws_only (\<lambda>w. vm_instance w \<noteq> None) (\<lambda>e. e = JsonError 305) (set_json_member k v)"
  by (auto simp: throws_only_def set_json_member_def json_set_def json_at_def
      split: sum.splits json.splits option.splits)

lemma throws_loadJson: "throws_only (\<lambda>w. vm_instance w \<noteq> None) A (loadJson E)"
  by (auto simp: throws_only_def loadJson_def split: option.splits)

lemma throws_writeJson: "throws_only (\<lambda>w. vm_instance w \<noteq> None) A (writeJson E path)"
  unfolding writeJson_def
  by (intro throws_rules throws_modify throws_sys throws_sys_bool) simp_all

lemma persist_retry_no_UB:
  assumes "vm_instance w \<noteq> None" and "persist_retry E c i w = (Inl e, w')"
  shows "e = JsonError 305"
proof -
  have "throws_only (\<lambda>w. vm_instance w \<noteq> None) (\<lambda>e. e = JsonError 305) (persist_retry E c i)"
    unfolding persist_retry_def
    by (intro throws_rules throws_loadJson throws_json_member throws_set_json_member throws_writeJson)
  from throws_onlyD [OF this assms] show ?thesis .
qed

text \<open>A file that the parser of the configuration accepts, but without a retry count, ends the service: the
  missing member reads as null, which is no number, and nothing catches the exception.\<close>

lemma retry_count_required:
  assumes "vm_instance w = Some vi" and "conf_text w = Some text" and "json_parse E text = Some (JObj kvs)"
    and "json_find (JObj kvs) ''RetryCount'' = None"
  shows "\<exists>w'. addInterfaces E w = (Inl (JsonError 302), w')"
  using assms
  by (simp add: addInterfaces_def addRmediaInterface_def loadJson_def bindM_def thenM_def do_sys_result getM_def
      modify_instance_def json_member_def json_at_def json_find_def json_get_uint32_def liftE_def throwM_def)

lemma retry_in_range_iff: "retry_in_range c i \<longleftrightarrow> 3 \<le> c \<and> c \<le> 6 \<and> 15 \<le> i \<and> i \<le> 30"
  by (auto simp: retry_in_range_def retry_limits not_less)

text \<open>A change in range: the exceptions of the part in \<^verbatim>\<open>try\<close> are caught.\<close>

lemma SetAll_change:
  assumes "vm_instance w = Some vi" and "retry_in_range c i"
    and "\<not> (RetryCount vi = c \<and> RetryInterval vi = i)"
  shows "SetAll E c i w =
     (Inr (if vmediaInterface vi \<noteq> None then ''Success'' else ''Unknown''),
      snd (persist_retry E c i (w\<lparr>vm_instance := Some (with_retry c i vi)\<rparr>)))"
proof -
  let ?w = "w\<lparr>vm_instance := Some (with_retry c i vi)\<rparr>"
  obtain p w1 where p: "persist_retry E c i ?w = (p, w1)"
    by (cases "persist_retry E c i ?w")
  have "p = Inl e \<Longrightarrow> e = JsonError 305" for e
    using persist_retry_no_UB [of ?w E c i e w1] p by simp
  with p assms show ?thesis
    by (cases p) (auto simp: SetAll_def Let_def thenM_def bindM_def catchM_def returnM_def)
qed

section \<open>Setting the retry parameters\<close>

text \<open>
  C28. \<^verbatim>\<open>SetAll\<close> accepts exactly the counts from 3 to 6 with intervals from 15 to 30. Anything else
  gets the error text and changes nothing at all; otherwise \<^verbatim>\<open>GetAll\<close> returns the new values from
  then on, whatever happened to the file, and the answer is \<^verbatim>\<open>Success\<close> once the interface is
  registered.
\<close>

theorem SetAll_GetAll:
  assumes "vm_instance w = Some vi" and "SetAll E c i w = (r, w')"
  shows "if 3 \<le> c \<and> c \<le> 6 \<and> 15 \<le> i \<and> i \<le> 30
         then fst (GetAll w') = Inr (c, i) \<and>
              r = Inr (if vmediaInterface vi \<noteq> None \<or> (RetryCount vi = c \<and> RetryInterval vi = i)
                       then ''Success'' else ''Unknown'')
         else w' = w \<and> r = Inr retry_error"
proof (cases "retry_in_range c i \<and> \<not> (RetryCount vi = c \<and> RetryInterval vi = i)")
  case False
  with assms show ?thesis
    unfolding retry_in_range_iff [symmetric]
    by (auto simp: SetAll_def GetAll_def returnM_def split: if_splits)
next
  case True
  let ?w = "w\<lparr>vm_instance := Some (with_retry c i vi)\<rparr>"
  have "vm_instance (snd (persist_retry E c i ?w)) = Some (with_retry c i vi)"
    by (rule keepsD [OF keeps_instance_persist]) simp
  with True assms(2) show ?thesis
    unfolding retry_in_range_iff [symmetric]
    by (auto simp: SetAll_change [OF assms(1)] GetAll_def with_retry_def)
qed

definition sample_interface :: vm_interface where
  "sample_interface =
     \<lparr>vmObjPath = ''/xyz/openbmc_project/VirtualMedia'', vmConfigPath = ''/etc/virtual-media.json'',
      RetryCount = 3, RetryInterval = 15,
      vmediaInterface = Some [(''RetryCount'', 3), (''RetryInterval'', 15)],
      vmediaImageURLInterface = None\<rparr>"

definition sample_vm_world :: world where
  "sample_vm_world = (initial_world (Some ''text''))\<lparr>vm_instance := Some sample_interface\<rparr>"

theorem SetAll_GetAll_witness:
  "fst (GetAll (snd (SetAll quiet_env 5 20 sample_vm_world))) = Inr (5, 20)"
proof -
  let ?m = "SetAll quiet_env 5 20 sample_vm_world"
  have "?m = (fst ?m, snd ?m)" by simp
  from SetAll_GetAll [OF _ this, of sample_interface] show ?thesis
    by (simp add: sample_vm_world_def)
qed

section \<open>The file after setting the parameters\<close>








end
