(* ===== verification/MachineState.thy ===== *)
theory MachineState
  imports Resources Notification Process VmInterface
begin

text \<open>
  The state of one mount point: \<^verbatim>\<open>MountPointStateMachine\<close> (\<^verbatim>\<open>src/state_machine.hpp\<close>,
  \<^verbatim>\<open>src/interfaces/mount_point_state_machine.hpp\<close>), the state objects of \<^verbatim>\<open>src/state/\<close> and the events of
  \<^verbatim>\<open>src/events.hpp\<close>, with the operations that create and destroy what they own.

  A \<^verbatim>\<open>resource::Process\<close> is a \<open>bool\<close>, its member \<^verbatim>\<open>spawned\<close>; a \<^verbatim>\<open>resource::Gadget\<close> is its status; a null
  pointer is \<open>None\<close>. What the event loop still has to run for the machine is part of the state: the
  child processes, with the password file that their exit callback owns, the stop coroutines, the
  posted events, and the timer of \<^verbatim>\<open>ActiveState\<close>.
\<close>

section \<open>Data\<close>

record target =
  imgUrl :: string
  tg_rw :: bool
  mountPoint :: "string option"
  tg_credentials :: "credentials option"
  mountPointNfs :: "string option"

definition make_target :: "string \<Rightarrow> bool \<Rightarrow> credentials option \<Rightarrow> target" where
  "make_target url rw cr =
     \<lparr>imgUrl = url, tg_rw = rw, mountPoint = None, tg_credentials = cr, mountPointNfs = None\<rparr>"

type_synonym process_res = "bool option"
type_synonym gadget_res = "int option"

datatype bstate =
    InitialState
  | ReadyState "(int \<times> string) option"
  | ActivatingState process_res gadget_res
  | ActiveState process_res gadget_res
  | DeactivatingState process_res gadget_res "state_change option" bool

datatype event =
    RegisterDbusEvent
  | MountEvent "target option"
  | UnmountEvent
  | SubprocessStoppedEvent
  | UdevStateChangeEvent state_change

text \<open>The timer of the current \<^verbatim>\<open>ActiveState\<close>: not running, waiting, or elapsed with its handler ready.\<close>

datatype tick = NoTick | Waiting | Due

datatype posted = PostedUnmount | PostedStopped

record machine =
  mc_name :: string
  additionalInfo :: string
  config :: mount_point
  target :: "target option"
  mc_state :: bstate
  exitCode :: int
  completion :: "(string \<times> string \<times> notification) option"
  lastAccess :: int
  lastStats :: string
  tick_timer :: tick
  stale_tick :: bool
  children :: "volatile_file option list"
  stops :: nat
  posted_events :: "posted list"

definition make_machine :: "string \<Rightarrow> mount_point \<Rightarrow> machine" where
  "make_machine name c =
     \<lparr>mc_name = name, additionalInfo = '''', config = c, target = None, mc_state = InitialState,
      exitCode = -1, completion = None, lastAccess = 0, lastStats = '''', tick_timer = NoTick,
      stale_tick = False, children = [], stops = 0, posted_events = []\<rparr>"

record st =
  mc :: machine
  wd :: world

type_synonym 'a mprog = "(st, 'a) prog"

definition liftW :: "'a wprog \<Rightarrow> 'a mprog" where
  "liftW m s = (case m (wd s) of (r, w) \<Rightarrow> (r, s\<lparr>wd := w\<rparr>))"

definition getMC :: "(machine \<Rightarrow> 'a) \<Rightarrow> 'a mprog" where
  "getMC f = getM (\<lambda>s. f (mc s))"

definition modifyMC :: "(machine \<Rightarrow> machine) \<Rightarrow> unit mprog" where
  "modifyMC f = modifyM (\<lambda>s. s\<lparr>mc := f (mc s)\<rparr>)"

definition setAdditionalInfo :: "string \<Rightarrow> unit mprog" where
  "setAdditionalInfo info = modifyMC (\<lambda>m. m\<lparr>additionalInfo := info\<rparr>)"

section \<open>Notification of the client\<close>

definition notificationInitialize :: "string \<Rightarrow> string \<Rightarrow> unit mprog" where
  "notificationInitialize svc iface =
     modifyMC (\<lambda>m. m\<lparr>completion := Some (svc, iface, notification_new)\<rparr>)"

definition notificationStart :: "unit mprog" where
  "notificationStart =
     bindM (getMC completion) (\<lambda>c.
       case c of
         None \<Rightarrow> throwM (UB ''completionNotification is null'')
       | Some (svc, iface, n) \<Rightarrow> modifyMC (\<lambda>m. m\<lparr>completion := Some (svc, iface, notification_start n)\<rparr>))"

definition notify_client :: "env \<Rightarrow> int \<Rightarrow> unit mprog" where
  "notify_client E ec =
     bindM (getMC completion) (\<lambda>c.
       case c of
         None \<Rightarrow> throwM (UB ''completionNotification is null'')
       | Some (svc, iface, n) \<Rightarrow>
           (case notify ec n of
              (n', v) \<Rightarrow>
                thenM (modifyMC (\<lambda>m. m\<lparr>completion := Some (svc, iface, n')\<rparr>))
                  (case v of
                     None \<Rightarrow> returnM ()
                   | Some v \<Rightarrow> liftW (do_sys E (SendSignal svc iface ''Completion'' v)))))"

text \<open>The constructors of \<^verbatim>\<open>ReadyState\<close>.\<close>

definition ready_ok :: "env \<Rightarrow> bstate mprog" where
  "ready_ok E = thenM (notify_client E 0) (returnM (ReadyState None))"

definition ready_error :: "env \<Rightarrow> int \<Rightarrow> string \<Rightarrow> bstate mprog" where
  "ready_error E ec message = thenM (notify_client E ec) (returnM (ReadyState (Some (ec, message))))"

section \<open>Destructors\<close>

definition destroy_process :: "env \<Rightarrow> process_res \<Rightarrow> unit mprog" where
  "destroy_process E p =
     whenM (p = Some True)
       (bindM (getMC mc_name) (\<lambda>name.
        thenM (liftW (do_sys E (StopProcess name))) (modifyMC (\<lambda>m. m\<lparr>stops := Suc (stops m)\<rparr>))))"

definition destroy_gadget :: "env \<Rightarrow> gadget_res \<Rightarrow> unit mprog" where
  "destroy_gadget E g =
     whenM (g \<noteq> None)
       (bindM (getMC mc_name) (\<lambda>name. bindM (getMC config) (\<lambda>c.
          liftW (gadget_destroy E name (nbdDevice c)))))"

definition destroy_secret :: "env \<Rightarrow> volatile_file option \<Rightarrow> unit mprog" where
  "destroy_secret E f = (case f of None \<Rightarrow> returnM () | Some f \<Rightarrow> liftW (volatile_destroy E f))"

text \<open>A state object: its members, the gadget first.\<close>

fun members_of :: "bstate \<Rightarrow> process_res \<times> gadget_res" where
  "members_of (ActivatingState p g) = (p, g)"
| "members_of (ActiveState p g) = (p, g)"
| "members_of (DeactivatingState p g u s) = (p, g)"
| "members_of _ = (None, None)"

definition destroy_state :: "env \<Rightarrow> bstate \<Rightarrow> unit mprog" where
  "destroy_state E old =
     thenM (destroy_gadget E (snd (members_of old)))
       (thenM (destroy_process E (fst (members_of old)))
          (whenM (case old of ActiveState _ _ \<Rightarrow> True | _ \<Rightarrow> False)
             (modifyMC (\<lambda>m. m\<lparr>tick_timer := NoTick, stale_tick := stale_tick m \<or> tick_timer m = Due\<rparr>))))"

text \<open>\<^verbatim>\<open>target = std::nullopt\<close>: the members of the target in reverse order.\<close>

definition destroy_mount :: "env \<Rightarrow> string option \<Rightarrow> unit mprog" where
  "destroy_mount E d = (case d of None \<Rightarrow> returnM () | Some dir \<Rightarrow> liftW (mount_destroy E dir))"

definition clear_target :: "env \<Rightarrow> unit mprog" where
  "clear_target E =
     bindM (getMC target) (\<lambda>t.
       thenM (modifyMC (\<lambda>m. m\<lparr>target := None\<rparr>))
         (case t of
            None \<Rightarrow> returnM ()
          | Some t \<Rightarrow> thenM (destroy_mount E (mountPointNfs t)) (destroy_mount E (mountPoint t))))"

definition set_target :: "env \<Rightarrow> target \<Rightarrow> unit mprog" where
  "set_target E t = thenM (clear_target E) (modifyMC (\<lambda>m. m\<lparr>target := Some t\<rparr>))"

definition the_target :: "(target \<Rightarrow> 'a mprog) \<Rightarrow> 'a mprog" where
  "the_target f =
     bindM (getMC target) (\<lambda>t. case t of None \<Rightarrow> throwM (UB ''target has no value'') | Some t \<Rightarrow> f t)"

definition modify_target :: "(target \<Rightarrow> target) \<Rightarrow> unit mprog" where
  "modify_target f = modifyMC (\<lambda>m. m\<lparr>target := map_option f (target m)\<rparr>)"

text \<open>The members of the current state object.\<close>

fun with_process :: "process_res \<Rightarrow> bstate \<Rightarrow> bstate" where
  "with_process p (ActivatingState _ g) = ActivatingState p g"
| "with_process p s = s"

definition set_process :: "process_res \<Rightarrow> unit mprog" where
  "set_process p = modifyMC (\<lambda>m. m\<lparr>mc_state := with_process p (mc_state m)\<rparr>)"

definition set_state :: "bstate \<Rightarrow> unit mprog" where
  "set_state s = modifyMC (\<lambda>m. m\<lparr>mc_state := s\<rparr>)"

section \<open>Starting a child\<close>

text \<open>\<^verbatim>\<open>spawn\<close>: on success the exit callback, with the secret it owns, waits for the child.\<close>

definition process_spawn :: "env \<Rightarrow> string \<Rightarrow> string list \<Rightarrow> volatile_file option \<Rightarrow> bool mprog" where
  "process_spawn E app args secret =
     bindM (liftW (sys E (Spawn app args))) (\<lambda>r.
       if r = 0 then thenM (modifyMC (\<lambda>m. m\<lparr>children := children m @ [secret]\<rparr>)) (returnM True)
       else returnM False)"

end
