(* ===== verification/Activating.thy ===== *)
theory Activating
  imports MachineState
begin

text \<open>
  \<^verbatim>\<open>src/state/activating_state.cpp\<close>: the URLs it understands, and what it does on entering the state,
  for each mode and each kind of URL. An operation here returns the next state, or \<open>None\<close> to stay.
\<close>

section \<open>URLs\<close>

definition checkUrl :: "string \<Rightarrow> string \<Rightarrow> bool" where
  "checkUrl urlScheme imageUrl = (urlScheme = take (length urlScheme) imageUrl)"

definition getImagePathFromUrl :: "string \<Rightarrow> string \<Rightarrow> string option" where
  "getImagePathFromUrl urlScheme imageUrl =
     (if checkUrl urlScheme imageUrl then Some (drop (length urlScheme) imageUrl) else None)"

definition isNfsUrl :: "string \<Rightarrow> bool" where "isNfsUrl u = checkUrl ''nfs://'' u"
definition isHttpsUrl :: "string \<Rightarrow> bool" where "isHttpsUrl u = checkUrl ''https://'' u"
definition isCifsUrl :: "string \<Rightarrow> bool" where "isCifsUrl u = checkUrl ''smb://'' u"

definition getImagePathFromNfsUrl :: "string \<Rightarrow> string option" where
  "getImagePathFromNfsUrl imageUrl = getImagePathFromUrl ''nfs://'' imageUrl"

definition getImagePathFromHttpsUrl :: "string \<Rightarrow> string option" where
  "getImagePathFromHttpsUrl imageUrl = getImagePathFromUrl ''https://'' imageUrl"

definition getImagePathFromCifsUrl :: "string \<Rightarrow> string option" where
  "getImagePathFromCifsUrl imageUrl = getImagePathFromUrl ''smb://'' imageUrl"

definition getImagePath :: "string \<Rightarrow> string" where
  "getImagePath imageUrl =
     (case (if isHttpsUrl imageUrl then getImagePathFromHttpsUrl imageUrl else None) of
        Some imagePath \<Rightarrow> imagePath
      | None \<Rightarrow>
          (case (if isCifsUrl imageUrl then getImagePathFromCifsUrl imageUrl else None) of
             Some imagePath \<Rightarrow> imagePath
           | None \<Rightarrow>
               (case (if isNfsUrl imageUrl then getImagePathFromNfsUrl imageUrl else None) of
                  Some imagePath \<Rightarrow> imagePath
                | None \<Rightarrow> '''')))"

definition isLocalFile :: "string \<Rightarrow> bool" where
  "isLocalFile imagePath = starts_with imagePath ''/tmp/lmedia/''"

section \<open>Serving an image with nbdkit\<close>

definition nbdkit_args :: "env \<Rightarrow> mount_point \<Rightarrow> bool \<Rightarrow> string list \<Rightarrow> string list" where
  "nbdkit_args E c rw params =
     [''--unix'', unixSocket c, ''--run'', ''/usr/sbin/nbd-client '' @ join '' '' (toArgs c)] @
     (if verbose_nbdkit_logs E then [''--verbose''] else []) @
     (if \<not> rw then [''--readonly''] else []) @ params"

text \<open>The first \<^verbatim>\<open>spawnNbdKit\<close>: whether it returns a process. The secret is destroyed where the code
  lets go of it: on every way out but success.\<close>

definition spawn_nbdkit_body :: "env \<Rightarrow> volatile_file option \<Rightarrow> string list \<Rightarrow> bool mprog" where
  "spawn_nbdkit_body E secret params =
     bindM (getMC config) (\<lambda>c.
     bindM (liftW (fs_query E (Exists (unixSocket c)))) (\<lambda>old.
     bindM (if old then liftW (fs_query E (RemovePath (unixSocket c))) else returnM True) (\<lambda>free.
       if \<not> free then returnM False
       else the_target (\<lambda>t.
              process_spawn E ''/usr/sbin/nbdkit'' (nbdkit_args E c (tg_rw t) params) secret))))"

definition spawnNbdKit :: "env \<Rightarrow> volatile_file option \<Rightarrow> string list \<Rightarrow> bool mprog" where
  "spawnNbdKit E secret params =
     bindM
       (catchM (spawn_nbdkit_body E secret params)
          (\<lambda>e. if catchable e then thenM (destroy_secret E secret) (throwM e) else throwM e))
       (\<lambda>ok. if ok then returnM True else thenM (destroy_secret E secret) (returnM False))"

definition spawnNbdKit_file :: "env \<Rightarrow> string \<Rightarrow> bool mprog" where
  "spawnNbdKit_file E file = spawnNbdKit E None [''file'', ''file='' @ file]"

definition curl_params :: "string \<Rightarrow> string list" where
  "curl_params url =
     [''curl'', ''sslverify=false'', ''url='' @ url, ''cainfo='', ''capath=/etc/ssl/certs/authority'',
      ''ssl-version=tlsv1.2'', ''followlocation=false'',
      ''ssl-cipher-list=ECDHE-RSA-AES256-GCM-SHA384:ECDHE-ECDSA-AES256-GCM-SHA384'',
      ''tls13-ciphers=TLS_AES_256_GCM_SHA384'']"

definition spawnNbdKit_url :: "env \<Rightarrow> string \<Rightarrow> bool mprog" where
  "spawnNbdKit_url E url =
     the_target (\<lambda>t.
       case tg_credentials t of
         None \<Rightarrow> spawnNbdKit E None (curl_params url)
       | Some cr \<Rightarrow>
           bindM (liftW (volatile_create E (pack (Some (\<lambda>user pass. pass)) cr))) (\<lambda>secret.
             spawnNbdKit E (Some secret)
               (curl_params url @ [''user='' @ userBuf cr, ''password=+'' @ filePath secret])))"

text \<open>Both ways on after a spawn: a process to wait for, or an error state.\<close>

definition spawned_or :: "env \<Rightarrow> int \<Rightarrow> string \<Rightarrow> bool \<Rightarrow> bstate option mprog" where
  "spawned_or E ec message ok =
     (if ok then thenM (set_process (Some True)) (returnM None)
      else bindM (ready_error E ec message) (\<lambda>s. returnM (Some s)))"

definition fail_with :: "env \<Rightarrow> int \<Rightarrow> string \<Rightarrow> bstate option mprog" where
  "fail_with E ec message = bindM (ready_error E ec message) (\<lambda>s. returnM (Some s))"

section \<open>The kinds of media\<close>

text \<open>\<^verbatim>\<open>perms::owner_write\<close> is 0200; the answer to \<open>FileStatus\<close> is the mode, or minus an error number.\<close>

definition owner_writable :: "int \<Rightarrow> bool" where
  "owner_writable perms = ((perms div 128) mod 2 = 1)"

definition mountLocalFile :: "env \<Rightarrow> bstate option mprog" where
  "mountLocalFile E =
     the_target (\<lambda>t. let file = imgUrl t in
       bindM (liftW (fs_query E (Exists file))) (\<lambda>there.
       if \<not> there then fail_with E ENOENT ''Local file does not exist''
       else bindM (liftW (fs_query E (IsRegularFile file))) (\<lambda>regular.
       if \<not> regular then fail_with E EINVAL ''Path must be a regular file''
       else bindM (liftW (sys E (FileStatus file))) (\<lambda>perms.
       if perms < 0 then fail_with E (- perms) ''Unable to check file permissions''
       else if tg_rw t \<and> \<not> owner_writable perms then fail_with E EACCES ''File is not writable''
       else bindM (spawnNbdKit_file E file)
              (spawned_or E ECANCELED ''Unable to setup NBDKit for local file'')))))"

text \<open>The handler of \<^verbatim>\<open>resource::Error\<close> around the two kinds of shares.\<close>

definition catch_resource_error :: "env \<Rightarrow> bstate option mprog \<Rightarrow> bstate option mprog" where
  "catch_resource_error E m =
     catchM m (\<lambda>e. case e of ResourceError ec message \<Rightarrow> fail_with E ec message | _ \<Rightarrow> throwM e)"

definition escaped_by_mount :: "credentials \<Rightarrow> credentials" where
  "escaped_by_mount c = (if validateUsername (userBuf c) then escapeCommas c else c)"

definition mountSmbShare :: "env \<Rightarrow> bstate option mprog" where
  "mountSmbShare E =
     catch_resource_error E
       (bindM (getMC mc_name) (\<lambda>name.
        bindM (liftW (directory_create E name)) (\<lambda>mountDir.
        the_target (\<lambda>t.
          let remote = getImagePath (imgUrl t);
              remoteParent = ''//'' @ parent_path remote;
              localFile = path_append mountDir (filename remote)
          in thenM (modify_target (\<lambda>t. t\<lparr>tg_credentials := map_option escaped_by_mount (tg_credentials t)\<rparr>))
            (thenM (liftW (smbMount_create E mountDir (tg_credentials t) remoteParent (tg_rw t)))
            (thenM (modify_target (\<lambda>t. t\<lparr>mountPoint := Some mountDir\<rparr>))
            (thenM (destroy_mount E (mountPoint t))
            (bindM (spawnNbdKit_file E localFile)
               (spawned_or E ECANCELED ''Unable to setup NbdKit'')))))))))"

definition mountNfsShare :: "env \<Rightarrow> bstate option mprog" where
  "mountNfsShare E =
     catch_resource_error E
       (bindM (getMC mc_name) (\<lambda>name.
        bindM (liftW (directory_create E name)) (\<lambda>mountDir.
        the_target (\<lambda>t.
          let remote = getImagePath (imgUrl t);
              remoteParent = parent_path remote;
              localFile = path_append mountDir (filename remote)
          in thenM (liftW (nfsMount_create E mountDir remoteParent (tg_rw t)))
            (thenM (modify_target (\<lambda>t. t\<lparr>mountPointNfs := Some mountDir\<rparr>))
            (thenM (destroy_mount E (mountPointNfs t))
            (bindM (spawnNbdKit_file E localFile)
               (spawned_or E ECANCELED ''Unable to setup NbdKit''))))))))"

definition mountHttpsShare :: "env \<Rightarrow> bstate option mprog" where
  "mountHttpsShare E =
     the_target (\<lambda>t. bindM (spawnNbdKit_url E (imgUrl t))
       (spawned_or E EINVAL ''Failed to mount HTTPS share''))"

section \<open>Entering the state\<close>

definition activateProxyMode :: "env \<Rightarrow> bstate option mprog" where
  "activateProxyMode E =
     bindM (getMC target) (\<lambda>t.
       if \<not> multi_host E \<and> (case t of None \<Rightarrow> False | Some t \<Rightarrow> isLocalFile (imgUrl t))
       then mountLocalFile E
       else thenM (set_process (Some False))
           (bindM (getMC config) (\<lambda>c.
            bindM (process_spawn E ''/usr/sbin/nbd-client'' (toArgs c) None)
              (spawned_or E ECANCELED ''Failed to spawn process''))))"

definition missing_credentials :: string where
  "missing_credentials = ''The action InsertMedia requires the parameter '' @
     ''Username/password to be present in the request body''"

definition lacks_credentials :: "target \<Rightarrow> bool" where
  "lacks_credentials t =
     (case tg_credentials t of None \<Rightarrow> True | Some c \<Rightarrow> userBuf c = '''' \<or> passBuf c = '''')"

text \<open>\<^verbatim>\<open>creds[slotNumber] = std::make_shared<Credentials>(\<dots>)\<close>\<close>

definition store_creds :: "int \<Rightarrow> target \<Rightarrow> string \<Rightarrow> unit wprog" where
  "store_creds slotNumber t info =
     modifyM (\<lambda>w. w\<lparr>creds := (creds w)[nat slotNumber :=
        Some \<lparr>sc_url = imgUrl t, sc_rw = tg_rw t, sc_additionalInfo = info, sc_user = '''', sc_pass = ''''\<rparr>]\<rparr>)"

text \<open>\<^verbatim>\<open>asyncWrite\<close>: the members are set, and both strings go to the pipe with their terminators.\<close>

definition async_write :: "env \<Rightarrow> int \<Rightarrow> credentials \<Rightarrow> unit wprog" where
  "async_write E slotNumber cr =
     thenM (modifyM (\<lambda>w. w\<lparr>creds := (creds w)[nat slotNumber :=
        map_option (\<lambda>s. s\<lparr>sc_user := userBuf cr, sc_pass := passBuf cr\<rparr>) (creds w ! nat slotNumber)]\<rparr>))
       (do_sys E (WriteCredentials (nat slotNumber) (userBuf cr) (passBuf cr)))"

text \<open>What depends on the kind of URL.\<close>

definition activate_url :: "env \<Rightarrow> int \<Rightarrow> bstate option mprog" where
  "activate_url E slotNumber =
     the_target (\<lambda>t. bindM (getMC additionalInfo) (\<lambda>info.
       if \<not> multi_host E \<and> isLocalFile (imgUrl t) then mountLocalFile E
       else if isCifsUrl (imgUrl t)
       then (case tg_credentials t of
               None \<Rightarrow> fail_with E ECONNREFUSED missing_credentials
             | Some cr \<Rightarrow>
                 if lacks_credentials t then fail_with E ECONNREFUSED missing_credentials
                 else thenM (liftW (store_creds slotNumber t info))
                     (thenM (liftW (async_write E slotNumber cr)) (mountSmbShare E)))
       else if isHttpsUrl (imgUrl t)
       then (if lacks_credentials t then fail_with E ECONNREFUSED missing_credentials
             else mountHttpsShare E)
       else if isNfsUrl (imgUrl t)
       then thenM (liftW (store_creds slotNumber t info)) (mountNfsShare E)
       else fail_with E EINVAL ''URL not recognized''))"

text \<open>The directory of the socket: \<open>None\<close> when it is there or could be made.\<close>

definition prepare_socket_dir :: "env \<Rightarrow> string \<Rightarrow> (int \<times> string) option wprog" where
  "prepare_socket_dir E dir =
     bindM (fs_query E (Exists dir)) (\<lambda>there.
       if there then returnM None
       else bindM (sys E (CreateDirectories dir)) (\<lambda>r.
         if r < 0 then returnM (Some (- r, ''Failed to create parent directory for socket''))
         else bindM (sys E (SetPermissions dir)) (\<lambda>r2.
           if r2 < 0 then returnM (Some (- r2, ''Failed to set parent permissions directory for socket''))
           else returnM None)))"

definition activateLegacyMode :: "env \<Rightarrow> bstate option mprog" where
  "activateLegacyMode E =
     the_target (\<lambda>t. bindM (getMC mc_name) (\<lambda>name.
       thenM (liftW (saveImageURLToJson E (imgUrl t) name))
      (bindM (getMC config) (\<lambda>c.
       bindM (liftW (prepare_socket_dir E (parent_path (unixSocket c)))) (\<lambda>failed.
         case failed of
           Some (ec, message) \<Rightarrow> fail_with E ec message
         | None \<Rightarrow>
             bindM (liftE (extractSlotNumber name)) (\<lambda>slotNumber.
               if slotNumber < 0
               then fail_with E ECONNREFUSED ''Unable to process further because slotNumber is Inavlid''
               else activate_url E slotNumber))))))"

definition activating_onEnter :: "env \<Rightarrow> bstate option mprog" where
  "activating_onEnter E =
     thenM (modifyMC (\<lambda>m. m\<lparr>exitCode := -1\<rparr>))
       (bindM (getMC config) (\<lambda>c.
          if mp_mode c = proxy then activateProxyMode E else activateLegacyMode E))"

end
