(* ===== verification/Registration.thy ===== *)
theory Registration
  imports MachineState
begin

text \<open>
  \<^verbatim>\<open>InitialState\<close> (\<^verbatim>\<open>src/state/initial_state.hpp\<close>): cleaning up after a crash and putting the mount point
  on the bus, the getters of its properties, and the methods of the proxy and legacy services up to
  the event they emit.
\<close>

section \<open>Object paths\<close>

definition getObjectPath :: "env \<Rightarrow> mount_point \<Rightarrow> string" where
  "getObjectPath E c =
     (let nbdDevice = nbd_to_string (nbdDevice c);
          basePath =
            (if multi_host E \<and> (nbdDevice = ''nbd4'' \<or> nbdDevice = ''nbd5'' \<or> nbdDevice = ''nbd6'' \<or>
                nbdDevice = ''nbd7'')
             then ''/xyz/openbmc_project/VirtualMedia1'' else ''/xyz/openbmc_project/VirtualMedia'')
      in case mp_mode c of
           proxy \<Rightarrow> basePath @ ''/Proxy/''
         | local \<Rightarrow> basePath @ ''/Local/''
         | legacy \<Rightarrow> basePath @ ''/Legacy/'')"

definition service_interface :: "mount_point \<Rightarrow> string" where
  "service_interface c =
     ''xyz.openbmc_project.VirtualMedia.'' @ (if mp_mode c = legacy then ''Legacy'' else ''Proxy'')"

section \<open>Properties\<close>

definition prop_Active :: "machine \<Rightarrow> bool" where
  "prop_Active m = (case mc_state m of ActiveState _ _ \<Rightarrow> True | _ \<Rightarrow> False)"

definition prop_ExitCode :: "machine \<Rightarrow> int" where "prop_ExitCode m = exitCode m"

definition prop_ImageURL :: "machine \<Rightarrow> string" where
  "prop_ImageURL m = (case target m of Some t \<Rightarrow> imgUrl t | None \<Rightarrow> '''')"

definition prop_UserName :: "machine \<Rightarrow> string" where
  "prop_UserName m =
     (case target m of
        Some t \<Rightarrow> (case tg_credentials t of Some c \<Rightarrow> userBuf c | None \<Rightarrow> '''')
      | None \<Rightarrow> '''')"

definition prop_WriteProtected :: "machine \<Rightarrow> bool" where
  "prop_WriteProtected m = (case target m of Some t \<Rightarrow> \<not> tg_rw t | None \<Rightarrow> True)"

definition prop_RemainingInactivityTimeout :: "machine \<Rightarrow> int option" where
  "prop_RemainingInactivityTimeout m = remainingInactivityTimeout (config m)"

text \<open>The setters that refuse.\<close>

definition set_ImageURL :: "string \<Rightarrow> exn + int" where
  "set_ImageURL req = Inl (SdBusError EPERM ''Setting ImageURL property is not allowed'')"

definition set_RemainingInactivityTimeout :: "int \<Rightarrow> exn + int" where
  "set_RemainingInactivityTimeout req =
     Inl (SdBusError EPERM ''Setting RemainingInactivityTimeout property is not allowed'')"

section \<open>Registering\<close>

definition register_all :: "env \<Rightarrow> string \<Rightarrow> string \<Rightarrow> string list \<Rightarrow> unit wprog" where
  "register_all E obj iface names =
     thenM (do_sys E (AddInterface obj iface))
       (forM names (\<lambda>n. do_sys E (RegisterProperty obj iface n)))"

definition addMountPointInterface :: "env \<Rightarrow> string \<Rightarrow> mount_point \<Rightarrow> unit wprog" where
  "addMountPointInterface E name c =
     register_all E (getObjectPath E c @ name) ''xyz.openbmc_project.VirtualMedia.MountPoint''
       [''Device'', ''EndpointId'', ''Socket'', ''ImageURL'', ''UserName'', ''WriteProtected'', ''Timeout'',
        ''RemainingInactivityTimeout'']"

definition addProcessInterface :: "env \<Rightarrow> string \<Rightarrow> mount_point \<Rightarrow> unit wprog" where
  "addProcessInterface E name c =
     register_all E (getObjectPath E c @ name) ''xyz.openbmc_project.VirtualMedia.Process''
       [''Active'', ''ExitCode'']"

definition addServiceInterface :: "env \<Rightarrow> string \<Rightarrow> mount_point \<Rightarrow> unit mprog" where
  "addServiceInterface E name c =
     (let path = getObjectPath E c @ name; iface = service_interface c in
      thenM (liftW (do_sys E (AddInterface path iface)))
     (thenM (notificationInitialize path iface)
     (thenM (liftW (do_sys E (RegisterMethod path iface ''Unmount'')))
            (liftW (do_sys E (RegisterMethod path iface ''Mount''))))))"

text \<open>Cleaning up: the gadget that is still configured, and a directory that is still mounted.\<close>

definition cleanUpMountPoint :: "env \<Rightarrow> string \<Rightarrow> mount_point \<Rightarrow> unit wprog" where
  "cleanUpMountPoint E name c =
     thenM
       (bindM (isConfigured E name) (\<lambda>old.
          whenM old (thenM (configure_nbd E name (nbdDevice c) removed False '' '') (returnM ()))))
       (let localFile = path_append (tmp_dir E) name in
        bindM (fs_query E (Exists localFile)) (\<lambda>there.
          whenM there
            (bindM (sys E (Umount2 localFile ''MNT_FORCE'')) (\<lambda>r.
               whenM (r = 0) (do_sys E (RemovePath localFile))))))"

text \<open>The handler of \<^verbatim>\<open>RegisterDbusEvent\<close>, but for the registry of mount points of the local service,
  which belongs to the application.\<close>

definition initial_register :: "env \<Rightarrow> bstate option mprog" where
  "initial_register E =
     bindM (getMC config) (\<lambda>c. bindM (getMC mc_name) (\<lambda>name.
       let isLegacy = (mp_mode c = legacy); isLocal = (mp_mode c = local) in
       if isLegacy \<and> \<not> legacy_mode_enabled E
       then bindM (ready_error E EINVAL ''Legacy mode is not supported'') (\<lambda>s. returnM (Some s))
       else thenM (whenM (isLegacy \<or> isLocal) (liftW (cleanUpMountPoint E name c)))
           (thenM (liftW (addMountPointInterface E name c))
           (thenM (liftW (addProcessInterface E name c))
           (thenM (addServiceInterface E name c)
              (bindM (ready_ok E) (\<lambda>s. returnM (Some s))))))))"

section \<open>The names of the objects\<close>

text \<open>
  C40. A slot is unmounted through the object it is registered as: for the mount points of the shipped
  layout (a proxy mount point is slot 0 or 1, a legacy one is not), and a service whose base path
  matches the devices, the request that an expired session or an ejection makes goes to the object
  path and the interface under which the methods of the slot were registered.
\<close>

theorem unMount_reaches_object:
  assumes "mp_mode c \<noteq> local" and "mp_mode c = proxy \<longleftrightarrow> (name = ''Slot_0'' \<or> name = ''Slot_1'')"
    and "g_basePath w =
      (if multi_host E \<and> nbdDevice c \<in> {nbd4, nbd5, nbd6, nbd7} then ''VirtualMedia1'' else ''VirtualMedia'')"
  shows "unMount_target w name = (g_serviceName w, getObjectPath E c @ name, service_interface c)"
proof -
  have dev: "(nbd_to_string (nbdDevice c) = ''nbd4'' \<or> nbd_to_string (nbdDevice c) = ''nbd5'' \<or>
      nbd_to_string (nbdDevice c) = ''nbd6'' \<or> nbd_to_string (nbdDevice c) = ''nbd7'') \<longleftrightarrow>
      nbdDevice c \<in> {nbd4, nbd5, nbd6, nbd7}"
    by (cases "nbdDevice c") (simp_all add: nbd_name_defs)
  from assms(1,2) show ?thesis
    by (cases "mp_mode c")
      (simp_all add: unMount_target_def getServiceAndBasePath_def getObjectPath_def service_interface_def
        Let_def dev assms(3))
qed

theorem unMount_reaches_object_witness:
  "unMount_target (initial_world None) ''Slot_2'' =
     (''xyz.openbmc_project.VirtualMedia'', ''/xyz/openbmc_project/VirtualMedia/Legacy/Slot_2'',
      ''xyz.openbmc_project.VirtualMedia.Legacy'')"
proof -
  let ?c = "\<lparr>nbdDevice = nbd2, unixSocket = ''/s'', endPointId = '''', timeout = None, blocksize = None,
    remainingInactivityTimeout = None, verifyCertificate = True, mp_mode = legacy\<rparr>"
  from unMount_reaches_object [of ?c "''Slot_2''" "initial_world None" quiet_env] show ?thesis
    by (simp add: initial_world_def quiet_env_def getObjectPath_def service_interface_def Let_def)
qed

end
