(* ===== verification/Machine.thy ===== *)
theory Machine
  imports Activating Registration
begin

text \<open>
  The state machine of one mount point: the event handlers of all states (\<^verbatim>\<open>src/state/*.hpp\<close>,
  \<^verbatim>\<open>src/state/activating_state.cpp\<close>), \<^verbatim>\<open>changeState\<close> and \<^verbatim>\<open>emitEvent\<close> (\<^verbatim>\<open>src/state_machine.hpp\<close>), and
  what the event loop does with it.
\<close>

section \<open>Handlers\<close>

definition move_out :: "unit mprog" where
  "move_out = modifyMC (\<lambda>m. m\<lparr>mc_state :=
     (case mc_state m of
        ActivatingState p g \<Rightarrow> ActivatingState None None
      | ActiveState p g \<Rightarrow> ActiveState None None
      | s \<Rightarrow> s)\<rparr>)"

text \<open>\<^verbatim>\<open>DeactivatingState::evaluate\<close>, on the two events received so far.\<close>

definition evaluate :: "env \<Rightarrow> state_change option \<Rightarrow> bool \<Rightarrow> bstate option mprog" where
  "evaluate E udevStateChangeEvent subprocessStoppedEvent =
     (case udevStateChangeEvent of
        Some devState \<Rightarrow>
          if subprocessStoppedEvent
          then (if devState = removed
                then bindM (ready_ok E) (\<lambda>s. returnM (Some s))
                else fail_with E ECONNREFUSED ''Not expected udev state'')
          else returnM None
      | None \<Rightarrow> returnM None)"

text \<open>
  The constructors of \<^verbatim>\<open>DeactivatingState\<close>: the members are moved in. The one that takes an event
  handles it; with the other event missing \<^verbatim>\<open>evaluate\<close> has no result to lose.
\<close>

definition make_deactivating ::
    "process_res \<Rightarrow> gadget_res \<Rightarrow> event option \<Rightarrow> bstate mprog" where
  "make_deactivating p g e =
     thenM move_out
       (returnM (case e of
          Some (UdevStateChangeEvent d) \<Rightarrow> DeactivatingState p g (Some d) False
        | Some SubprocessStoppedEvent \<Rightarrow> DeactivatingState p g None True
        | _ \<Rightarrow> DeactivatingState p g None False))"

definition some_state :: "bstate mprog \<Rightarrow> bstate option mprog" where
  "some_state m = bindM m (\<lambda>s. returnM (Some s))"

definition rw_of_target :: "machine \<Rightarrow> bool" where
  "rw_of_target m = (case target m of Some t \<Rightarrow> tg_rw t | None \<Rightarrow> False)"

text \<open>\<^verbatim>\<open>ActivatingState::handleEvent(UdevStateChangeEvent)\<close>\<close>

definition activating_udev :: "env \<Rightarrow> process_res \<Rightarrow> gadget_res \<Rightarrow> state_change \<Rightarrow> bstate option mprog" where
  "activating_udev E p g devState =
     (if devState = inserted
      then bindM (getMC id) (\<lambda>m.
           bindM (liftW (gadget_create E (mc_name m) (nbdDevice (config m)) devState (rw_of_target m)
                           (additionalInfo m))) (\<lambda>status.
           thenM (set_state (ActivatingState p (Some status)))
          (thenM (destroy_gadget E g)
             (if status \<noteq> 0
              then (if status = -2
                    then fail_with E ERANGE ''Image size is below minimum supported limit (600KB)''
                    else fail_with E EINVAL ''USB gadget configuration failed'')
              else thenM move_out
                  (thenM (notify_client E 0)
                     (thenM (modifyMC (\<lambda>m. m\<lparr>lastAccess := 0, lastStats := ''''\<rparr>))
                        (returnM (Some (ActiveState p (Some status))))))))))
      else some_state (make_deactivating p g (Some (UdevStateChangeEvent devState))))"

definition activating_stopped :: "env \<Rightarrow> bstate option mprog" where
  "activating_stopped E =
     bindM (getMC target) (\<lambda>t.
       if (case t of Some t \<Rightarrow> isHttpsUrl (imgUrl t) | None \<Rightarrow> False)
       then fail_with E EPROTO ''HTTPS media redirection failed''
       else fail_with E ENOENT ''Invalid image path or image does not exist'')"

text \<open>\<^verbatim>\<open>handleEvent\<close> of every state; the last case is the template for any other event.\<close>

definition initial_handle :: "env \<Rightarrow> event \<Rightarrow> bstate option mprog" where
  "initial_handle E e = (case e of RegisterDbusEvent \<Rightarrow> initial_register E | _ \<Rightarrow> returnM None)"

definition ready_handle :: "env \<Rightarrow> event \<Rightarrow> bstate option mprog" where
  "ready_handle E e =
     (case e of
        MountEvent t \<Rightarrow>
          thenM notificationStart
            (thenM (case t of Some t \<Rightarrow> set_target E t | None \<Rightarrow> returnM ())
               (returnM (Some (ActivatingState None None))))
      | UnmountEvent \<Rightarrow> throwM (SdBusError EPERM ''Operation not permitted in ready state'')
      | _ \<Rightarrow> returnM None)"

definition activating_handle :: "env \<Rightarrow> process_res \<Rightarrow> gadget_res \<Rightarrow> event \<Rightarrow> bstate option mprog" where
  "activating_handle E p g e =
     (case e of
        UdevStateChangeEvent d \<Rightarrow> activating_udev E p g d
      | SubprocessStoppedEvent \<Rightarrow> activating_stopped E
      | _ \<Rightarrow> throwM (SdBusError EBUSY ''Resource is busy''))"

definition active_handle :: "env \<Rightarrow> process_res \<Rightarrow> gadget_res \<Rightarrow> event \<Rightarrow> bstate option mprog" where
  "active_handle E p g e =
     (case e of
        UdevStateChangeEvent d \<Rightarrow> some_state (make_deactivating p g (Some e))
      | SubprocessStoppedEvent \<Rightarrow> some_state (make_deactivating p g (Some e))
      | UnmountEvent \<Rightarrow> thenM notificationStart (some_state (make_deactivating p g None))
      | MountEvent _ \<Rightarrow> throwM (SdBusError EPERM ''Operation not permitted in active state'')
      | RegisterDbusEvent \<Rightarrow> throwM (SdBusError EOPNOTSUPP ''Operation not supported in active state''))"

definition deactivating_handle ::
    "env \<Rightarrow> process_res \<Rightarrow> gadget_res \<Rightarrow> state_change option \<Rightarrow> bool \<Rightarrow> event \<Rightarrow> bstate option mprog" where
  "deactivating_handle E p g u st e =
     (case e of
        UdevStateChangeEvent d \<Rightarrow>
          thenM (set_state (DeactivatingState p g (Some d) st)) (evaluate E (Some d) st)
      | SubprocessStoppedEvent \<Rightarrow>
          thenM (set_state (DeactivatingState p g u True)) (evaluate E u True)
      | _ \<Rightarrow> throwM (SdBusError EBUSY ''Resource is busy''))"

text \<open>\<^verbatim>\<open>BasicStateT::handleEvent\<close>: the dispatch on the state.\<close>

definition handleEvent :: "env \<Rightarrow> event \<Rightarrow> bstate option mprog" where
  "handleEvent E e =
     bindM (getMC mc_state) (\<lambda>s.
       case s of
         InitialState \<Rightarrow> initial_handle E e
       | ReadyState _ \<Rightarrow> ready_handle E e
       | ActivatingState p g \<Rightarrow> activating_handle E p g e
       | ActiveState p g \<Rightarrow> active_handle E p g e
       | DeactivatingState p g u st \<Rightarrow> deactivating_handle E p g u st e)"

lemmas handle_defs = initial_handle_def ready_handle_def activating_handle_def active_handle_def
  deactivating_handle_def

section \<open>Entering a state\<close>

definition ready_onEnter :: "env \<Rightarrow> bstate option mprog" where
  "ready_onEnter E =
     thenM (clear_target E)
       (thenM (modifyMC (\<lambda>m. m\<lparr>config := (config m)\<lparr>remainingInactivityTimeout := Some 0\<rparr>\<rparr>))
          (returnM None))"

definition active_onEnter :: "bstate option mprog" where
  "active_onEnter = thenM (modifyMC (\<lambda>m. m\<lparr>tick_timer := Waiting\<rparr>)) (returnM None)"

definition deactivating_onEnter ::
    "env \<Rightarrow> process_res \<Rightarrow> gadget_res \<Rightarrow> state_change option \<Rightarrow> bool \<Rightarrow> bstate option mprog" where
  "deactivating_onEnter E p g u st =
     thenM (set_state (DeactivatingState p None u st))
       (thenM (destroy_gadget E g)
          (thenM (set_state (DeactivatingState None None u st))
             (thenM (destroy_process E p) (returnM None))))"

definition onEnter :: "env \<Rightarrow> bstate option mprog" where
  "onEnter E =
     bindM (getMC mc_state) (\<lambda>s.
       case s of
         InitialState \<Rightarrow> returnM None
       | ReadyState _ \<Rightarrow> ready_onEnter E
       | ActivatingState _ _ \<Rightarrow> activating_onEnter E
       | ActiveState _ _ \<Rightarrow> active_onEnter
       | DeactivatingState p g u st \<Rightarrow> deactivating_onEnter E p g u st)"

text \<open>
  \<^verbatim>\<open>changeState\<close> calls itself with the state that \<^verbatim>\<open>onEnter\<close> returns. Its depth is bounded by \<open>fuel\<close>;
  2 is always enough (theorem \<open>changeState_depth\<close>).
\<close>

definition no_fuel :: exn where "no_fuel = UB ''changeState: out of fuel''"

fun changeState :: "env \<Rightarrow> nat \<Rightarrow> bstate \<Rightarrow> unit mprog" where
  "changeState E 0 newState = throwM no_fuel"
| "changeState E (Suc fuel) newState =
     bindM (getMC mc_state) (\<lambda>old.
     thenM (set_state newState)
    (thenM (destroy_state E old)
    (bindM (onEnter E) (\<lambda>next.
       case next of None \<Rightarrow> returnM () | Some s \<Rightarrow> changeState E fuel s))))"

definition emitEvent :: "env \<Rightarrow> event \<Rightarrow> unit mprog" where
  "emitEvent E e =
     bindM (handleEvent E e) (\<lambda>next.
       case next of None \<Rightarrow> returnM () | Some s \<Rightarrow> changeState E 2 s)"

definition emitUdevStateChangeEvent :: "env \<Rightarrow> nbd_device \<Rightarrow> state_change \<Rightarrow> unit mprog" where
  "emitUdevStateChangeEvent E dev devState =
     bindM (getMC config) (\<lambda>c.
       if nbdDevice c = dev then emitEvent E (UdevStateChangeEvent devState) else returnM ())"

section \<open>The D-Bus methods\<close>

definition in_ready :: "machine \<Rightarrow> bool" where
  "in_ready m = (case mc_state m of ReadyState _ \<Rightarrow> True | _ \<Rightarrow> False)"

definition proxyMount :: "env \<Rightarrow> string \<Rightarrow> bool mprog" where
  "proxyMount E info =
     bindM (getMC in_ready) (\<lambda>ready.
     thenM (whenM ready (setAdditionalInfo info))
    (thenM (emitEvent E (MountEvent None)) (returnM True)))"

text \<open>The buffer and the number of bytes that came through the pipe, if one was given.\<close>

definition legacyMount ::
    "env \<Rightarrow> string \<Rightarrow> bool \<Rightarrow> (string \<times> nat) option \<Rightarrow> string \<Rightarrow> bool mprog" where
  "legacyMount E url rw secret info =
     bindM (getMC in_ready) (\<lambda>ready.
     thenM (whenM ready (setAdditionalInfo info))
    (bindM (liftE
        (case secret of
           None \<Rightarrow> Inr None
         | Some (buf, n) \<Rightarrow>
             (case parse_secret buf n of
                Inl e \<Rightarrow> Inl e
              | Inr (user, pass) \<Rightarrow> Inr (Some (make_credentials user pass))))) (\<lambda>cr.
     thenM (emitEvent E (MountEvent (Some (make_target url rw cr)))) (returnM True))))"

definition unmountMethod :: "env \<Rightarrow> bool mprog" where
  "unmountMethod E = thenM (emitEvent E UnmountEvent) (returnM True)"

section \<open>The event loop\<close>

text \<open>The timer handler of \<^verbatim>\<open>ActiveState\<close> at the time \<open>now\<close> (seconds of the steady clock).\<close>

definition active_tick :: "env \<Rightarrow> int \<Rightarrow> int \<Rightarrow> unit mprog" where
  "active_tick E limit now =
     bindM (getMC mc_name) (\<lambda>name.
     bindM (liftW (getStats E name)) (\<lambda>stats.
     bindM (getMC lastStats) (\<lambda>old.
     thenM (case stats of
              Some s \<Rightarrow> whenM (s \<noteq> old) (modifyMC (\<lambda>m. m\<lparr>lastStats := s, lastAccess := now\<rparr>))
            | None \<Rightarrow> returnM ())
    (bindM (getMC lastAccess) (\<lambda>la.
       let timeSinceLastAccess = now - la in
       if timeSinceLastAccess \<ge> limit
       then modifyMC (\<lambda>m. m\<lparr>tick_timer := NoTick, posted_events := posted_events m @ [PostedUnmount]\<rparr>)
       else modifyMC (\<lambda>m. m\<lparr>tick_timer := Waiting,
              config := (config m)\<lparr>remainingInactivityTimeout :=
                Some (limit - timeSinceLastAccess)\<rparr>\<rparr>))))))"

datatype loop_op =
    Register
  | ProxyMount string
  | LegacyMount string bool "(string \<times> nat) option" string
  | UnmountCall
  | Udev nbd_device state_change
  | ChildExit nat
  | RunStop
  | RunPosted
  | TimerElapse
  | RunTick int
  | NotificationElapse
  | RunNotification

definition update_notification :: "env \<Rightarrow> (notification \<Rightarrow> notification \<times> int option) \<Rightarrow> unit mprog" where
  "update_notification E f =
     bindM (getMC completion) (\<lambda>c.
       case c of
         None \<Rightarrow> returnM ()
       | Some (svc, iface, n) \<Rightarrow>
           (case f n of
              (n', v) \<Rightarrow>
                thenM (modifyMC (\<lambda>m. m\<lparr>completion := Some (svc, iface, n')\<rparr>))
                  (case v of
                     None \<Rightarrow> returnM ()
                   | Some v \<Rightarrow> liftW (do_sys E (SendSignal svc iface ''Completion'' v)))))"

text \<open>An exception that leaves a handler run by the event loop itself leaves \<^verbatim>\<open>main\<close>; one that leaves a
  D-Bus method is the answer of the method.\<close>

definition remove_child :: "nat \<Rightarrow> machine \<Rightarrow> machine" where
  "remove_child i m = m\<lparr>children := take i (children m) @ drop (Suc i) (children m)\<rparr>"

definition child_exit :: "env \<Rightarrow> nat \<Rightarrow> unit mprog" where
  "child_exit E i =
     bindM (getMC children) (\<lambda>cs.
       if i < length cs
       then bindM (getMC mc_name) (\<lambda>name.
            bindM (liftW (process_reap E name)) (\<lambda>code.
            thenM (modifyMC (\<lambda>m. (remove_child i m)\<lparr>exitCode := code\<rparr>))
              (noexceptM
                 (thenM (emitEvent E SubprocessStoppedEvent) (destroy_secret E (cs ! i))))))
       else returnM ())"

definition run_stop :: "env \<Rightarrow> unit mprog" where
  "run_stop E =
     bindM (getMC stops) (\<lambda>n.
       if n = 0 then returnM ()
       else bindM (getMC mc_name) (\<lambda>name. bindM (getMC config) (\<lambda>c.
            bindM (liftW (process_stop E name (nbdDevice c))) (\<lambda>told.
              modifyMC (\<lambda>m. m\<lparr>stops := n - 1,
                posted_events := posted_events m @ (if told then [PostedStopped] else [])\<rparr>)))))"

definition run_posted :: "env \<Rightarrow> unit mprog" where
  "run_posted E =
     bindM (getMC posted_events) (\<lambda>ps.
       case ps of
         [] \<Rightarrow> returnM ()
       | p # ps' \<Rightarrow>
           thenM (modifyMC (\<lambda>m. m\<lparr>posted_events := ps'\<rparr>))
             (noexceptM (emitEvent E (case p of PostedUnmount \<Rightarrow> UnmountEvent
                | PostedStopped \<Rightarrow> SubprocessStoppedEvent))))"

definition run_tick :: "env \<Rightarrow> int \<Rightarrow> int \<Rightarrow> unit mprog" where
  "run_tick E limit now =
     bindM (getMC (\<lambda>m. (tick_timer m, stale_tick m))) (\<lambda>(t, stale).
       if stale then throwM (UB ''handler of a destroyed ActiveState'')
       else if t = Due then active_tick E limit now
       else returnM ())"

definition loop_step :: "env \<Rightarrow> int \<Rightarrow> loop_op \<Rightarrow> unit mprog" where
  "loop_step E limit op =
     (case op of
        Register \<Rightarrow> emitEvent E RegisterDbusEvent
      | ProxyMount info \<Rightarrow> thenM (proxyMount E info) (returnM ())
      | LegacyMount url rw secret info \<Rightarrow> thenM (legacyMount E url rw secret info) (returnM ())
      | UnmountCall \<Rightarrow> thenM (unmountMethod E) (returnM ())
      | Udev dev d \<Rightarrow> noexceptM (emitUdevStateChangeEvent E dev d)
      | ChildExit i \<Rightarrow> child_exit E i
      | RunStop \<Rightarrow> run_stop E
      | RunPosted \<Rightarrow> run_posted E
      | TimerElapse \<Rightarrow> modifyMC (\<lambda>m. if tick_timer m = Waiting then m\<lparr>tick_timer := Due\<rparr> else m)
      | RunTick now \<Rightarrow> run_tick E limit now
      | NotificationElapse \<Rightarrow> update_notification E (\<lambda>n. (timer_elapse n, None))
      | RunNotification \<Rightarrow> update_notification E run_handler)"

end
