(* ===== verification/Accounting.thy ===== *)
theory Accounting
  imports Machine
begin

text \<open>
  What a machine owns, against what the history says was acquired and released. \<open>own bk k M R\<close> says that
  the books balance but for the processes and mounts \<open>bk\<close> that the other mount points hold, and \<open>k\<close> child
  processes and \<open>M d\<close> mounts on the directory \<open>d\<close> that are in transit (acquired, and not yet or no longer a
  member of the machine), and that \<open>R\<close> holds of the machine.
\<close>

section \<open>The books\<close>

definition counted :: "call \<times> int \<Rightarrow> bool" where
  "counted x \<longleftrightarrow> is_spawn x \<or> is_stop x \<or> (\<exists>d. is_mount_of d x) \<or> (\<exists>d. is_release_of d x)"

definition held_process :: "bstate \<Rightarrow> int" where
  "held_process s = (if fst (members_of s) = Some True then 1 else 0)"

definition held_mounts :: "target option \<Rightarrow> string \<Rightarrow> int" where
  "held_mounts t d =
     (case t of
        None \<Rightarrow> 0
      | Some t \<Rightarrow> (if mountPoint t = Some d then 1 else 0) + (if mountPointNfs t = Some d then 1 else 0))"

definition running :: "hist \<Rightarrow> int" where
  "running h = int (tally is_spawn h) - int (tally is_stop h)"

type_synonym books = "int \<times> (string \<Rightarrow> int)"

definition own :: "books \<Rightarrow> int \<Rightarrow> (string \<Rightarrow> int) \<Rightarrow> (machine \<Rightarrow> bool) \<Rightarrow> st \<Rightarrow> bool" where
  "own bk k M R s \<longleftrightarrow>
     running (hist (wd s)) = fst bk + k + held_process (mc_state (mc s)) \<and>
     (\<forall>d. mounted d (hist (wd s)) = snd bk d + M d + held_mounts (target (mc s)) d) \<and> R (mc s)"

abbreviation "settled bk \<equiv> own bk 0 (\<lambda>_. 0)"

lemma running_append [simp]: "running (a @ b) = running a + running b"
  by (simp add: running_def)

lemma running_Nil [simp]: "running [] = 0"
  by (simp add: running_def)

lemma uncounted:
  assumes "tally counted h = 0"
  shows "running h = 0" and "mounted d h = 0"
proof -
  have "tally is_spawn h = 0 \<and> tally is_stop h = 0 \<and> tally (is_mount_of d) h = 0 \<and>
      tally (is_release_of d) h = 0"
    using assms by (auto simp: tally_def filter_empty_conv counted_def)
  then show "running h = 0" and "mounted d h = 0" by (simp_all add: running_def mounted_def)
qed

lemma counted_simps [simp]:
  "counted (Spawn a b, r) = (r = 0)" "counted (StopProcess a, r)"
  by (simp_all add: counted_def is_mount_of_def is_release_of_def is_spawn_def is_stop_def)

lemma counted_resource: "counted (c, r) \<Longrightarrow> is_resource_call c"
  by (cases c)
    (auto simp: counted_def is_spawn_def is_stop_def is_mount_of_def is_release_of_def is_resource_call_def)

lemma counted_only_append [simp]: "only_append counted"
  using counted_resource by (auto simp: only_append_def)

lemma not_counted [simp]: "\<not> is_resource_call c \<Longrightarrow> \<not> counted (c, r)"
  using counted_resource by blast

lemma not_counted_force [simp]: "\<not> counted (Umount2 d ''MNT_FORCE'', r)"
  by (simp add: counted_def is_spawn_def is_stop_def is_mount_of_def is_release_of_def DETACH_FORCE_def)

lemma resource_call_simps [simp]:
  "\<not> is_resource_call (AppendLine a b)" "\<not> is_resource_call (Exists a)"
  "\<not> is_resource_call (RemovePath a)" "\<not> is_resource_call (CreateDirectories a)"
  "\<not> is_resource_call (SetPermissions a)" "\<not> is_resource_call (FileStatus a)"
  "\<not> is_resource_call (IsRegularFile a)" "\<not> is_resource_call (SendSignal a b c n)"
  "\<not> is_resource_call (AddInterface a b)" "\<not> is_resource_call (RegisterProperty a b c)"
  "\<not> is_resource_call (RegisterMethod a b c)" "\<not> is_resource_call (MakeTempFile a)"
  "\<not> is_resource_call (WriteBytes a b)" "\<not> is_resource_call (OpenForWrite a)"
  "\<not> is_resource_call (ChildRunning a)" "\<not> is_resource_call (Sleep i)"
  "\<not> is_resource_call (Terminate_child a)" "\<not> is_resource_call (WaitChild a)"
  "\<not> is_resource_call (OpenDevice a)" "\<not> is_resource_call (CloseDevice a)"
  "\<not> is_resource_call (IoctlDisconnect a)" "\<not> is_resource_call (IoctlClearSock a)"
  "\<not> is_resource_call (WriteCredentials i a b)" "\<not> is_resource_call (ReadStats a)"
  by (simp_all add: is_resource_call_def)

section \<open>Operations that leave the books alone\<close>

abbreviation "quiet \<equiv> at_most counted 0"

lemma quiet_for: "(\<And>x. quiet (f x)) \<Longrightarrow> quiet (forM xs f)"
  by (induction xs) (auto intro!: at_most_return at_most_then_none)

lemma quiet_noexcept: "quiet m \<Longrightarrow> quiet (noexceptM m)"
  unfolding noexceptM_def by (intro at_most_catch_none at_most_throw)

lemma quiet_configure: "quiet (configure_nbd E name dev ch rw info)"
  unfolding configure_nbd_def by (rule at_most_configure) simp_all

lemma quiet_gadget_create: "quiet (gadget_create E name dev d rw info)"
  unfolding gadget_create_def
  by (intro at_most_catch_none quiet_configure at_most_rules)

lemma quiet_gadget_destroy: "quiet (gadget_destroy E name dev)"
  unfolding gadget_destroy_def
  by (intro quiet_noexcept at_most_steps quiet_configure)

lemma quiet_volatile_create: "quiet (volatile_create E c)"
  unfolding volatile_create_def
  by (intro at_most_steps at_most_sys) simp_all

lemma quiet_volatile_destroy: "quiet (volatile_destroy E f)"
  unfolding volatile_destroy_def purgeFileContents_def sys_bool_def
  by (intro at_most_steps at_most_sys quiet_for at_most_do_sys) simp_all

text \<open>What the configuration file is written with, and nothing else.\<close>

lemma at_most_loadJson: "at_most q 0 (loadJson E)"
  by (rule at_most_unchanged) (simp add: loadJson_def split: option.splits)

lemma at_most_loadImageURL:
  assumes "\<And>p i r. \<not> q (AddInterface p i, r)"
  shows "at_most q 0 (loadImageURLFromJson E)"
proof -
  have "at_most q 0 (publish_urls E a b)" for a b
    using assms by (auto simp: at_most_def publish_urls_def then_do_sys modifyM_def split: option.splits
        intro!: exI [of _ "[x]" for x])
  then show ?thesis
    unfolding loadImageURLFromJson_def by (intro at_most_steps at_most_loadJson)
qed

lemma at_most_saveImageURL:
  assumes "\<And>p i r. \<not> q (AddInterface p i, r)" and "\<And>p r. \<not> q (OpenForWrite p, r)"
    and "\<And>p b r. \<not> q (WriteBytes p b, r)"
  shows "at_most q 0 (saveImageURLToJson E url slot)"
  unfolding saveImageURLToJson_def writeJson_def sys_bool_def
  by (intro at_most_steps at_most_loadJson at_most_loadImageURL at_most_sys at_most_modify)
    (simp_all add: assms)

lemmas quiet_loadJson = at_most_loadJson [of counted]

lemma quiet_loadImageURL: "quiet (loadImageURLFromJson E)"
  by (rule at_most_loadImageURL) simp

lemma quiet_saveImageURL: "quiet (saveImageURLToJson E url slot)"
  by (rule at_most_saveImageURL) simp_all

lemma quiet_wait_exit: "quiet (wait_exit E name n)"
proof (induction n)
  case (Suc n)
  then show ?case
    unfolding wait_exit.simps sys_bool_def
    by (intro at_most_steps at_most_sys at_most_do_sys) simp_all
qed (auto simp: sys_bool_def intro!: at_most_steps at_most_sys)

lemma quiet_nbd_disconnect: "quiet (nbd_disconnect E d)"
  unfolding nbd_disconnect_def by (intro at_most_steps at_most_sys at_most_do_sys) simp_all

lemma quiet_process_reap: "quiet (process_reap E name)"
  unfolding process_reap_def sys_bool_def
  by (intro at_most_when at_most_steps at_most_sys at_most_do_sys quiet_wait_exit) simp_all

lemma quiet_process_stop: "quiet (process_stop E name dev)"
  unfolding process_stop_def sys_bool_def
  by (intro at_most_steps at_most_sys at_most_do_sys quiet_wait_exit quiet_nbd_disconnect) simp_all

lemma quiet_directory_create: "quiet (directory_create E name)"
  unfolding directory_create_def sys_bool_def by (intro at_most_steps at_most_sys) simp

lemma quiet_prepare_socket_dir: "quiet (prepare_socket_dir E dir)"
  unfolding prepare_socket_dir_def by (intro at_most_steps at_most_fs_query at_most_sys) simp_all

lemma quiet_store_creds: "quiet (store_creds n t i)"
  unfolding store_creds_def by (rule at_most_modify) simp

lemma quiet_async_write: "quiet (async_write E n c)"
  unfolding async_write_def by (intro at_most_steps at_most_modify at_most_do_sys) simp_all

lemma quiet_register_all: "quiet (register_all E ob i ns)"
  unfolding register_all_def by (intro at_most_steps quiet_for at_most_do_sys) simp_all

lemma quiet_cleanUp: "quiet (cleanUpMountPoint E name c)"
  unfolding cleanUpMountPoint_def Let_def
  by (intro at_most_when at_most_steps at_most_isConfigured quiet_configure at_most_fs_query at_most_sys
      at_most_do_sys) simp_all

lemma quiet_getStats: "quiet (getStats E n)"
  unfolding getStats_def Let_def by (intro at_most_steps at_most_sys at_most_do_sys at_most_fs_query) simp_all

section \<open>Triples\<close>

lemma own_liftW:
  assumes "quiet m"
  shows "triple (own bk k M R) (liftW m) (\<lambda>_. own bk k M R) (\<lambda>_. own bk k M R)"
  unfolding triple_keeps
proof (rule keepsI)
  fix s
  assume own: "own bk k M R s"
  obtain r w where m: "m (wd s) = (r, w)" by (cases "m (wd s)")
  from at_mostD [OF assms m] obtain new where "hist w = new @ hist (wd s)" "tally counted new = 0"
    by auto
  with own m show "own bk k M R (snd (liftW m s))"
    by (simp add: own_def liftW_def uncounted)
qed

lemma own_modifyMC:
  assumes "\<And>m. R m \<Longrightarrow> R' (f m) \<and> k' + held_process (mc_state (f m)) = k + held_process (mc_state m) \<and>
    (\<forall>d. M' d + held_mounts (target (f m)) d = M d + held_mounts (target m) d)"
  shows "triple (own bk k M R) (modifyMC f) (\<lambda>_. own bk k' M' R') X"
  using assms by (fastforce simp: triple_def modifyMC_def modifyM_def own_def)

lemma own_getMC:
  assumes "\<And>x. triple (own bk k M (\<lambda>m. R m \<and> f m = x)) (g x) Q X"
  shows "triple (own bk k M R) (bindM (getMC f) g) Q X"
  unfolding triple_def
proof (intro allI impI)
  fix s
  assume "own bk k M R s"
  then have "own bk k M (\<lambda>m. R m \<and> f m = f (mc s)) s" by (simp add: own_def)
  with assms [of "f (mc s)"] show "case bindM (getMC f) g s of (Inl e, s') \<Rightarrow> X e s' | (Inr a, s') \<Rightarrow> Q a s'"
    by (simp add: triple_def getMC_def)
qed

lemma own_the_target:
  assumes "\<And>t. triple (own bk k M (\<lambda>m. R m \<and> target m = Some t)) (f t) Q X"
    and "\<And>s. own bk k M R s \<Longrightarrow> X (UB ''target has no value'') s"
  shows "triple (own bk k M R) (the_target f) Q X"
  unfolding the_target_def
proof (rule own_getMC)
  fix x
  show "triple (own bk k M (\<lambda>m. R m \<and> target m = x)) (case x of None \<Rightarrow> throwM (UB ''target has no value'')
      | Some t \<Rightarrow> f t) Q X"
    using assms by (cases x) (auto intro!: triple_throw simp: own_def)
qed

lemma own_weaken: "own bk k M R s \<Longrightarrow> (\<And>m. R m \<Longrightarrow> R' m) \<Longrightarrow> own bk k M R' s"
  by (simp add: own_def)

text \<open>The exceptions after which the program goes on.\<close>

definition unless_crash :: "(st \<Rightarrow> bool) \<Rightarrow> exn \<Rightarrow> st \<Rightarrow> bool" where
  "unless_crash P e s \<longleftrightarrow> (catchable e \<longrightarrow> P s)"

lemma unless_crash_UB [simp]: "unless_crash P (UB m) s" "unless_crash P Terminate s"
  by (simp_all add: unless_crash_def)

lemma unless_crashI: "P s \<Longrightarrow> unless_crash P e s"
  by (simp add: unless_crash_def)

lemma triple_noexcept:
  assumes "triple P m Q X"
  shows "triple P (noexceptM m) Q (unless_crash Y)"
proof (rule tripleI)
  fix s a s'
  assume "P s" "noexceptM m s = (Inr a, s')"
  then show "Q a s'"
    using triple_Inr [OF assms]
    by (auto simp: noexceptM_def catchM_def throwM_def split: prod.splits sum.splits)
next
  fix s e s'
  assume "noexceptM m s = (Inl e, s')"
  then have "\<not> catchable e" by (rule noexceptM_throws)
  then show "unless_crash Y e s'" by (simp add: unless_crash_def)
qed

text \<open>Quiet operations that must not throw leave the books as they are.\<close>

lemma own_quiet: "quiet m \<Longrightarrow> (\<And>e s. own bk k M R s \<Longrightarrow> X e s) \<Longrightarrow>
    triple (own bk k M R) (liftW m) (\<lambda>_. own bk k M R) X"
  by (rule triple_weaken [OF own_liftW])

lemma own_never_throws:
  assumes "quiet m" and "\<And>w. \<exists>a w'. m w = (Inr a, w')"
  shows "triple (own bk k M R) (liftW m) (\<lambda>_. own bk k M R) X"
proof (rule tripleI)
  fix s a s'
  assume "own bk k M R s" "liftW m s = (Inr a, s')"
  then show "own bk k M R s'" by (rule triple_Inr [OF own_liftW [OF assms(1)]])
next
  fix s e s'
  assume "liftW m s = (Inl e, s')"
  with assms(2) [of "wd s"] show "X e s'" by (auto simp: liftW_def)
qed

lemma do_sys_returns: "\<exists>a w'. do_sys E c w = (Inr a, w')"
  by (simp add: do_sys_result)

subsection \<open>Acquiring and releasing\<close>

lemma own_process_spawn:
  assumes "\<And>m cs. R m \<Longrightarrow> R (m\<lparr>children := cs\<rparr>)"
  shows "triple (own bk k M R) (process_spawn E app args sec)
     (\<lambda>ok. own bk (if ok then k + 1 else k) M R) X"
proof (rule tripleI)
  fix s ok s'
  assume own: "own bk k M R s" and run: "process_spawn E app args sec s = (Inr ok, s')"
  have counts: "mounted d ((Spawn app args, r) # h) = mounted d h"
    "running ((Spawn app args, r) # h) = running h + (if r = 0 then 1 else 0)" for d h r
    by (simp_all add: mounted_def running_def is_mount_of_def is_release_of_def is_stop_def)
  from own run assms show "own bk (if ok then k + 1 else k) M R s'"
    by (auto simp: process_spawn_def liftW_def bindM_def thenM_def sys_result modifyMC_def modifyM_def
        returnM_def own_def counts split: if_splits)
next
  fix s e s'
  assume "process_spawn E app args sec s = (Inl e, s')"
  then show "X e s'"
    by (auto simp: process_spawn_def liftW_def bindM_def thenM_def sys_result modifyMC_def modifyM_def
        returnM_def split: if_splits)
qed

lemma own_destroy_process:
  assumes "\<And>m n. R m \<Longrightarrow> R (m\<lparr>stops := n\<rparr>)"
  shows "triple (own bk (if p = Some True then k + 1 else k) M R) (destroy_process E p) (\<lambda>_. own bk k M R) X"
proof (rule tripleI)
  fix s a s'
  assume own: "own bk (if p = Some True then k + 1 else k) M R s" and run: "destroy_process E p s = (Inr a, s')"
  have counts: "mounted d ((StopProcess n, r) # h) = mounted d h"
    "running ((StopProcess n, r) # h) = running h - 1" for d h r n
    by (simp_all add: mounted_def running_def is_mount_of_def is_release_of_def is_spawn_def)
  from own run assms show "own bk k M R s'"
    by (auto simp: destroy_process_def whenM_def liftW_def bindM_def thenM_def do_sys_result getMC_def
        getM_def modifyMC_def modifyM_def returnM_def own_def counts split: if_splits)
next
  fix s e s'
  assume "destroy_process E p s = (Inl e, s')"
  then show "X e s'"
    by (auto simp: destroy_process_def whenM_def liftW_def bindM_def thenM_def do_sys_result getMC_def
        getM_def modifyMC_def modifyM_def returnM_def split: if_splits)
qed

lemma own_destroy_gadget:
  "triple (own bk k M R) (destroy_gadget E g) (\<lambda>_. own bk k M R) (unless_crash Y)"
proof -
  have "triple (own bk k M R') (liftW (gadget_destroy E n d)) (\<lambda>_. own bk k M R') (unless_crash Y)" for n d R'
  proof (rule tripleI)
    fix s a s'
    assume "own bk k M R' s" "liftW (gadget_destroy E n d) s = (Inr a, s')"
    then show "own bk k M R' s'" by (rule triple_Inr [OF own_liftW [OF quiet_gadget_destroy]])
  next
    fix s e s'
    assume "liftW (gadget_destroy E n d) s = (Inl e, s')"
    then obtain w where "gadget_destroy E n d (wd s) = (Inl e, w)"
      by (auto simp: liftW_def split: prod.splits)
    then have "\<not> catchable e" unfolding gadget_destroy_def by (rule noexceptM_throws)
    then show "unless_crash Y e s'" by (simp add: unless_crash_def)
  qed
  then have "triple (own bk k M (\<lambda>m. R m \<and> mc_name m = n \<and> config m = c))
      (liftW (gadget_destroy E n (nbdDevice c))) (\<lambda>_. own bk k M R) (unless_crash Y)" for n c
    by (rule triple_weaken) (auto simp: own_def)
  then show ?thesis
    unfolding destroy_gadget_def
    by (intro triple_when own_getMC) (simp_all add: conj_assoc)
qed

lemma own_destroy_mount:
  "triple (own bk k (\<lambda>d. M d + (if dir = Some d then 1 else 0)) R) (destroy_mount E dir) (\<lambda>_. own bk k M R) X"
proof (cases dir)
  case None
  then show ?thesis by (simp add: destroy_mount_def triple_return)
next
  case (Some l)
  have counts: "running ((Umount2 a b, r) # h) = running h" "running ((RemovePath a, r) # h) = running h"
      "mounted d ((RemovePath a, r) # h) = mounted d h" for a b r h d
    by (simp_all add: running_def is_spawn_def is_stop_def mounted_def is_mount_of_def is_release_of_def)
  show ?thesis
    unfolding Some destroy_mount_def triple_def
    by (auto simp: liftW_def mount_destroy_def directory_destroy_def then_do_sys do_sys_result own_def
        counts mounted_release split: if_splits)
qed

text \<open>A share: \<open>mounted\<close> goes up by one on its directory if the constructor returns.\<close>

lemma own_mount:
  assumes "\<And>w d. mounted d (hist (snd (m w))) = mounted d (hist w) + (if fst (m w) = Inr () \<and> d = dir then 1 else 0)"
    and "\<And>w. running (hist (snd (m w))) = running (hist w)"
  shows "triple (own bk k M R) (liftW m) (\<lambda>_. own bk k (\<lambda>d. M d + (if d = dir then 1 else 0)) R) (\<lambda>_. own bk k M R)"
proof (rule tripleI)
  fix s a s'
  assume "own bk k M R s" "liftW m s = (Inr a, s')"
  with assms(1) [where w = "wd s"] assms(2) [of "wd s"]
  show "own bk k (\<lambda>d. M d + (if d = dir then 1 else 0)) R s'"
    by (auto simp: liftW_def own_def split: prod.splits)
next
  fix s e s'
  assume "own bk k M R s" "liftW m s = (Inl e, s')"
  with assms(1) [where w = "wd s"] assms(2) [of "wd s"] show "own bk k M R s'"
    by (auto simp: liftW_def own_def split: prod.splits)
qed

lemma secure_calls_running: "list_all (secure_mount_call rw l) new \<Longrightarrow> running new = 0"
  by (induction new)
    (auto simp: secure_mount_call_def running_def is_spawn_def is_stop_def split: call.splits prod.splits)

context share_driver
begin

lemma create_running: "running (hist (snd (mount_create E mount_op msg dir remote rw w))) = running (hist w)"
proof -
  have rm: "running ((RemovePath d, r) # h) = running h" for d r h
    by (simp add: running_def is_spawn_def is_stop_def)
  show ?thesis
    by (cases rule: mount_cases [of remote rw w])
      (simp_all add: mount_create_def bindM_def thenM_def directory_destroy_def do_sys_result throwM_def
        returnM_def secure_calls_running rm)
qed

end

lemma own_nfsMount_create:
  "triple (own bk k M R) (liftW (nfsMount_create E dir remote rw))
     (\<lambda>_. own bk k (\<lambda>d. M d + (if d = dir then 1 else 0)) R) (\<lambda>_. own bk k M R)"
  by (rule own_mount) (simp_all add: mount_books nfs.create_running nfsMount_create_def)

lemma own_smbMount_create:
  "triple (own bk k M R) (liftW (smbMount_create E dir cr remote rw))
     (\<lambda>_. own bk k (\<lambda>d. M d + (if d = dir then 1 else 0)) R) (\<lambda>_. own bk k M R)"
  by (rule own_mount) (simp_all add: mount_books smb.create_running smbMount_create_def)

end
