(* ===== verification/Invariant.thy ===== *)
theory Invariant
  imports Accounting
begin

text \<open>
  The invariant of the state machine: what each state guarantees, and that the books balance. It is
  proved for every operation, first for activation, then for entering a state, for the handlers and
  for the steps of the event loop.
\<close>

section \<open>The invariant\<close>

definition machine_ok :: "machine \<Rightarrow> bool" where
  "machine_ok m \<longleftrightarrow>
     (case mc_state m of
        InitialState \<Rightarrow> target m = None \<and> tick_timer m = NoTick
      | ReadyState _ \<Rightarrow> target m = None \<and> remainingInactivityTimeout (config m) = Some 0 \<and>
          completion m \<noteq> None \<and> tick_timer m = NoTick
      | ActivatingState p g \<Rightarrow> g = None \<and> completion m \<noteq> None \<and> tick_timer m = NoTick
      | ActiveState p g \<Rightarrow> completion m \<noteq> None
      | DeactivatingState p g u st \<Rightarrow> p = None \<and> g = None \<and> completion m \<noteq> None \<and>
          tick_timer m = NoTick \<and> \<not> (u \<noteq> None \<and> st))"

abbreviation "consistent bk \<equiv> settled bk machine_ok"

text \<open>While \<^verbatim>\<open>onEnter\<close> of \<^verbatim>\<open>ActivatingState\<close> runs, before it has a running process.\<close>

definition act :: "machine \<Rightarrow> bool" where
  "act m \<longleftrightarrow> (\<exists>p. mc_state m = ActivatingState p None \<and> p \<noteq> Some True) \<and> completion m \<noteq> None \<and>
     tick_timer m = NoTick"

lemma act_updates [simp]:
  "act (m\<lparr>children := cs\<rparr>) = act m" "act (m\<lparr>target := t\<rparr>) = act m" "act (m\<lparr>exitCode := c\<rparr>) = act m"
  "act m \<Longrightarrow> act (m\<lparr>completion := Some x\<rparr>)"
  by (simp_all add: act_def)

lemma act_ok: "act m \<Longrightarrow> machine_ok m"
  by (auto simp: act_def machine_ok_def)

text \<open>The outcome of an operation of activation.\<close>

definition act_result :: "books \<Rightarrow> bstate option \<Rightarrow> st \<Rightarrow> bool" where
  "act_result bk r s \<longleftrightarrow>
     (case r of None \<Rightarrow> consistent bk s | Some s' \<Rightarrow> (\<exists>e. s' = ReadyState e) \<and> settled bk act s)"

lemma own_imp: "own bk k M R s \<Longrightarrow> (\<And>m. R m \<Longrightarrow> R' m) \<Longrightarrow> own bk k M R' s"
  by (rule own_weaken)

section \<open>Activation\<close>

lemma own_notify_establishes:
  assumes "\<And>m x. R m \<Longrightarrow> R' (m\<lparr>completion := Some x\<rparr>)"
  shows "triple (own bk k M R) (notify_client E ec) (\<lambda>_. own bk k M R') (unless_crash Y)"
proof -
  have send: "triple (own bk k M R') (case v of None \<Rightarrow> returnM () | Some v \<Rightarrow> liftW (do_sys E (SendSignal a b c v)))
      (\<lambda>_. own bk k M R') (unless_crash Y)" for v a b c
    by (intro triple_option triple_return own_never_throws at_most_do_sys do_sys_returns) simp_all
  show ?thesis
    unfolding notify_client_def
  proof (rule own_getMC)
    fix x
    show "triple (own bk k M (\<lambda>m. R m \<and> completion m = x))
        (case x of None \<Rightarrow> throwM (UB ''completionNotification is null'')
         | Some (svc, iface, n) \<Rightarrow>
             (case notify ec n of (n', v) \<Rightarrow>
                thenM (modifyMC (\<lambda>m. m\<lparr>completion := Some (svc, iface, n')\<rparr>))
                  (case v of None \<Rightarrow> returnM ()
                   | Some v \<Rightarrow> liftW (do_sys E (SendSignal svc iface ''Completion'' v)))))
        (\<lambda>_. own bk k M R') (unless_crash Y)"
      using assms
      by (cases x) (auto split: prod.splits intro!: triple_throw triple_then [OF own_modifyMC send])
  qed
qed

lemma own_notify_client:
  assumes "\<And>m x. R m \<Longrightarrow> R (m\<lparr>completion := Some x\<rparr>)"
  shows "triple (own bk k M R) (notify_client E ec) (\<lambda>_. own bk k M R) (unless_crash Y)"
  using assms by (rule own_notify_establishes)

lemma act_fail_with: "triple (settled bk act) (fail_with E ec msg) (act_result bk) (unless_crash Y)"
  unfolding fail_with_def ready_error_def thenM_def bindM_assoc
  by (rule triple_bind [OF own_notify_client])
    (auto intro!: triple_return simp: act_result_def)

lemma act_spawned_or:
  "triple (own bk (if ok then 1 else 0) (\<lambda>_. 0) act) (spawned_or E ec msg ok) (act_result bk) (unless_crash Y)"
proof (cases ok)
  case True
  have "triple (own bk 1 (\<lambda>_. 0) act) (set_process (Some True)) (\<lambda>_. consistent bk) X" for X
    unfolding set_process_def
    by (rule own_modifyMC) (auto simp: act_def machine_ok_def held_process_def)
  with True show ?thesis
    unfolding spawned_or_def
    by (auto intro!: triple_then triple_return simp: act_result_def)
next
  case False
  with act_fail_with [of bk E ec msg Y] show ?thesis
    by (simp add: spawned_or_def fail_with_def)
qed

lemma act_destroy_secret: "triple (settled bk act) (destroy_secret E f) (\<lambda>_. settled bk act) (unless_crash (settled bk act))"
  unfolding destroy_secret_def
  by (intro triple_option triple_return own_quiet quiet_volatile_destroy unless_crashI)

lemma own_quiet_drop:
  "quiet m \<Longrightarrow> triple (own bk k M (\<lambda>m. R m \<and> C m)) (liftW m) (\<lambda>_. own bk k M R) (unless_crash (own bk k M R))"
  by (rule triple_weaken [OF own_liftW [where bk = bk and k = k and M = M and R = R]])
    (auto simp: unless_crash_def own_def)

lemma act_spawn_body:
  "triple (settled bk act) (spawn_nbdkit_body E sec ps) (\<lambda>ok. own bk (if ok then 1 else 0) (\<lambda>_. 0) act)
     (unless_crash (settled bk act))"
proof -
  have q: "quiet (fs_query E (Exists f))" "quiet (fs_query E (RemovePath f))" for f
    by (rule at_most_fs_query; simp)+
  have spawn: "triple (settled bk (\<lambda>m. act m \<and> C m)) (process_spawn E app args sec)
      (\<lambda>ok. own bk (if ok then 1 else 0) (\<lambda>_. 0) act) X" for app args X C
    by (rule triple_weaken [OF own_process_spawn [where bk = bk and R = act and k = 0 and M = "\<lambda>_. 0"]])
      (auto simp: own_def)
  show ?thesis
    unfolding spawn_nbdkit_body_def
  proof (rule own_getMC, rule triple_bind)
    fix c
    show "triple (settled bk (\<lambda>m. act m \<and> config m = c)) (liftW (fs_query E (Exists (unixSocket c))))
        (\<lambda>_. settled bk act) (unless_crash (settled bk act))"
      by (rule own_quiet_drop [OF q(1)])
  next
    fix c old
    show "triple (settled bk act)
        (bindM (if old then liftW (fs_query E (RemovePath (unixSocket c))) else returnM True)
          (\<lambda>free. if \<not> free then returnM False
            else the_target (\<lambda>t. process_spawn E ''/usr/sbin/nbdkit'' (nbdkit_args E c (tg_rw t) ps) sec)))
        (\<lambda>ok. own bk (if ok then 1 else 0) (\<lambda>_. 0) act) (unless_crash (settled bk act))"
      by (rule triple_bind [where R = "\<lambda>_. settled bk act"])
        (auto intro!: triple_if triple_return own_quiet q unless_crashI own_the_target spawn)
  qed
qed

lemma act_spawnNbdKit:
  "triple (settled bk act) (spawnNbdKit E sec ps) (\<lambda>ok. own bk (if ok then 1 else 0) (\<lambda>_. 0) act)
     (unless_crash (settled bk act))"
proof -
  have handler: "triple (unless_crash (settled bk act) e)
      (if catchable e then thenM (destroy_secret E sec) (throwM e) else throwM e)
      (\<lambda>ok. own bk (if ok then 1 else 0) (\<lambda>_. 0) act) (unless_crash (settled bk act))" for e
  proof (cases "catchable e")
    case True
    then have "triple (settled bk act) (thenM (destroy_secret E sec) (throwM e))
        (\<lambda>ok. own bk (if ok then 1 else 0) (\<lambda>_. 0) act) (unless_crash (settled bk act))"
      by (intro triple_then [OF act_destroy_secret] triple_throw unless_crashI)
    with True show ?thesis
      by (auto elim: triple_pre simp: unless_crash_def)
  qed (auto intro!: triple_throw simp: unless_crash_def)
  show ?thesis
    unfolding spawnNbdKit_def
  proof (rule triple_bind [OF triple_catch [OF act_spawn_body handler]])
    fix ok
    show "triple (own bk (if ok then 1 else 0) (\<lambda>_. 0) act)
        (if ok then returnM True else thenM (destroy_secret E sec) (returnM False))
        (\<lambda>ok. own bk (if ok then 1 else 0) (\<lambda>_. 0) act) (unless_crash (settled bk act))"
      by (cases ok) (auto intro!: triple_return triple_then [OF act_destroy_secret])
  qed
qed

lemma act_triple_the_target:
  assumes "\<And>t. triple (own bk k M (\<lambda>m. act m \<and> target m = Some t)) (f t) Q (unless_crash Y)"
  shows "triple (own bk k M act) (the_target f) Q (unless_crash Y)"
  using assms by (rule own_the_target) simp

lemma act_drop: "triple (settled bk act) m Q X \<Longrightarrow> triple (settled bk (\<lambda>m. act m \<and> C m)) m Q X"
  by (erule triple_pre) (simp add: own_def)

lemma act_file_then:
  "triple (settled bk act) (bindM (spawnNbdKit_file E f) (spawned_or E ec msg)) (act_result bk)
     (unless_crash (settled bk act))"
  unfolding spawnNbdKit_file_def
  by (rule triple_bind [OF act_spawnNbdKit act_spawned_or])

lemma act_fs_query:
  "triple (settled bk act) (liftW (fs_query E c)) (\<lambda>_. settled bk act) (unless_crash (settled bk act))"
  if "\<not> is_resource_call c"
  using that by (intro own_quiet at_most_fs_query unless_crashI) simp_all

lemma act_sys:
  "triple (settled bk act) (liftW (sys E c)) (\<lambda>_. settled bk act) (unless_crash (settled bk act))"
  if "\<not> is_resource_call c"
  using that by (intro own_quiet at_most_sys unless_crashI) simp_all

lemma act_mountLocalFile:
  "triple (settled bk act) (mountLocalFile E) (act_result bk) (unless_crash (settled bk act))"
  unfolding mountLocalFile_def Let_def
  by (intro act_triple_the_target act_drop triple_bind [OF act_fs_query] triple_bind [OF act_sys]
      triple_if act_fail_with act_file_then) simp_all

lemma act_catch_resource_error:
  assumes "triple (settled bk act) m (act_result bk) (unless_crash (settled bk act))"
  shows "triple (settled bk act) (catch_resource_error E m) (act_result bk) (unless_crash (settled bk act))"
  unfolding catch_resource_error_def
proof (rule triple_catch [OF assms])
  fix e
  show "triple (unless_crash (settled bk act) e)
      (case e of ResourceError ec message \<Rightarrow> fail_with E ec message | _ \<Rightarrow> throwM e)
      (act_result bk) (unless_crash (settled bk act))"
    by (cases e)
      (auto intro!: triple_throw triple_pre [OF act_fail_with] simp: unless_crash_def)
qed


lemma act_new_mount:
  "triple (own bk 0 (\<lambda>d. 0 + (if d = dir then 1 else 0)) (\<lambda>m. act m \<and> target m = Some t))
     (modify_target (\<lambda>t. t\<lparr>mountPoint := Some dir\<rparr>))
     (\<lambda>_. own bk 0 (\<lambda>d. 0 + (if mountPoint t = Some d then 1 else 0)) act) X"
  unfolding modify_target_def
  by (rule own_modifyMC) (auto simp: held_mounts_def)

lemma act_new_mount_nfs:
  "triple (own bk 0 (\<lambda>d. 0 + (if d = dir then 1 else 0)) (\<lambda>m. act m \<and> target m = Some t))
     (modify_target (\<lambda>t. t\<lparr>mountPointNfs := Some dir\<rparr>))
     (\<lambda>_. own bk 0 (\<lambda>d. 0 + (if mountPointNfs t = Some d then 1 else 0)) act) X"
  unfolding modify_target_def
  by (rule own_modifyMC) (auto simp: held_mounts_def)

lemma act_mount_then:
  assumes "triple (settled bk (\<lambda>m. act m \<and> target m = Some t)) create
      (\<lambda>_. own bk 0 (\<lambda>d. 0 + (if d = dir then 1 else 0)) (\<lambda>m. act m \<and> target m = Some t))
      (\<lambda>_. settled bk (\<lambda>m. act m \<and> target m = Some t))"
    and "triple (own bk 0 (\<lambda>d. 0 + (if d = dir then 1 else 0)) (\<lambda>m. act m \<and> target m = Some t)) store
      (\<lambda>_. own bk 0 (\<lambda>d. 0 + (if old = Some d then 1 else 0)) act) (unless_crash (settled bk act))"
  shows "triple (settled bk (\<lambda>m. act m \<and> target m = Some t))
     (thenM create (thenM store (thenM (destroy_mount E old)
        (bindM (spawnNbdKit_file E f) (spawned_or E ec msg)))))
     (act_result bk) (unless_crash (settled bk act))"
proof (rule triple_then)
  show "triple (settled bk (\<lambda>m. act m \<and> target m = Some t)) create
      (\<lambda>_. own bk 0 (\<lambda>d. 0 + (if d = dir then 1 else 0)) (\<lambda>m. act m \<and> target m = Some t))
      (unless_crash (settled bk act))"
    by (rule triple_weaken [OF assms(1)]) (auto simp: unless_crash_def own_def)
  show "triple (own bk 0 (\<lambda>d. 0 + (if d = dir then 1 else 0)) (\<lambda>m. act m \<and> target m = Some t))
     (thenM store (thenM (destroy_mount E old) (bindM (spawnNbdKit_file E f) (spawned_or E ec msg))))
     (act_result bk) (unless_crash (settled bk act))"
    by (rule triple_then [OF assms(2) triple_then [OF own_destroy_mount act_file_then]])
qed

lemma act_mountNfsShare:
  "triple (settled bk act) (mountNfsShare E) (act_result bk) (unless_crash (settled bk act))"
  unfolding mountNfsShare_def Let_def
proof (intro act_catch_resource_error own_getMC)
  fix name
  have dir: "triple (settled bk (\<lambda>m. act m \<and> mc_name m = name)) (liftW (directory_create E name))
      (\<lambda>_. settled bk act) (unless_crash (settled bk act))"
    by (intro act_drop own_quiet quiet_directory_create unless_crashI)
  show "triple (settled bk (\<lambda>m. act m \<and> mc_name m = name))
     (bindM (liftW (directory_create E name)) (\<lambda>mountDir. the_target (\<lambda>t.
        thenM (liftW (nfsMount_create E mountDir (parent_path (getImagePath (imgUrl t))) (tg_rw t)))
         (thenM (modify_target (\<lambda>t. t\<lparr>mountPointNfs := Some mountDir\<rparr>))
           (thenM (destroy_mount E (mountPointNfs t))
             (bindM (spawnNbdKit_file E (path_append mountDir (filename (getImagePath (imgUrl t)))))
               (spawned_or E ECANCELED ''Unable to setup NbdKit'')))))))
     (act_result bk) (unless_crash (settled bk act))"
    by (intro triple_bind [OF dir] act_triple_the_target act_mount_then [OF own_nfsMount_create act_new_mount_nfs])
qed

lemma act_escape_credentials:
  "triple (settled bk (\<lambda>m. act m \<and> target m = Some t))
     (modify_target (\<lambda>t. t\<lparr>tg_credentials := map_option escaped_by_mount (tg_credentials t)\<rparr>))
     (\<lambda>_. settled bk (\<lambda>m. act m \<and>
        target m = Some (t\<lparr>tg_credentials := map_option escaped_by_mount (tg_credentials t)\<rparr>))) X"
  unfolding modify_target_def
  by (rule own_modifyMC) (auto simp: held_mounts_def)

lemma act_mountSmbShare:
  "triple (settled bk act) (mountSmbShare E) (act_result bk) (unless_crash (settled bk act))"
  unfolding mountSmbShare_def Let_def
proof (intro act_catch_resource_error own_getMC)
  fix name
  have dir: "triple (settled bk (\<lambda>m. act m \<and> mc_name m = name)) (liftW (directory_create E name))
      (\<lambda>_. settled bk act) (unless_crash (settled bk act))"
    by (intro act_drop own_quiet quiet_directory_create unless_crashI)
  have store: "triple (own bk 0 (\<lambda>d. 0 + (if d = dir then 1 else 0)) (\<lambda>m. act m \<and>
        target m = Some (t\<lparr>tg_credentials := c\<rparr>)))
     (modify_target (\<lambda>t. t\<lparr>mountPoint := Some dir\<rparr>))
     (\<lambda>_. own bk 0 (\<lambda>d. 0 + (if mountPoint t = Some d then 1 else 0)) act) X" for dir t c X
    using act_new_mount [of bk dir "t\<lparr>tg_credentials := c\<rparr>" X] by simp
  show "triple (settled bk (\<lambda>m. act m \<and> mc_name m = name))
     (bindM (liftW (directory_create E name)) (\<lambda>mountDir. the_target (\<lambda>t.
        thenM (modify_target (\<lambda>t. t\<lparr>tg_credentials := map_option escaped_by_mount (tg_credentials t)\<rparr>))
         (thenM (liftW (smbMount_create E mountDir (tg_credentials t)
              (''//'' @ parent_path (getImagePath (imgUrl t))) (tg_rw t)))
         (thenM (modify_target (\<lambda>t. t\<lparr>mountPoint := Some mountDir\<rparr>))
           (thenM (destroy_mount E (mountPoint t))
             (bindM (spawnNbdKit_file E (path_append mountDir (filename (getImagePath (imgUrl t)))))
               (spawned_or E ECANCELED ''Unable to setup NbdKit''))))))))
     (act_result bk) (unless_crash (settled bk act))"
    by (intro triple_bind [OF dir] act_triple_the_target triple_then [OF act_escape_credentials]
        act_mount_then [OF own_smbMount_create store])
qed

lemma act_mountHttpsShare:
  "triple (settled bk act) (mountHttpsShare E) (act_result bk) (unless_crash (settled bk act))"
proof -
  have create: "triple (settled bk act) (liftW (volatile_create E c)) (\<lambda>_. settled bk act)
      (unless_crash (settled bk act))" for c
    by (intro own_quiet quiet_volatile_create unless_crashI)
  have "triple (settled bk act) (spawnNbdKit_url E url) (\<lambda>ok. own bk (if ok then 1 else 0) (\<lambda>_. 0) act)
      (unless_crash (settled bk act))" for url
    unfolding spawnNbdKit_url_def
    by (intro act_triple_the_target act_drop triple_option act_spawnNbdKit triple_bind [OF create])
  then show ?thesis
    unfolding mountHttpsShare_def
    by (intro act_triple_the_target act_drop triple_bind [OF _ act_spawned_or])
qed

lemma act_set_process: "triple (settled bk act) (set_process (Some False)) (\<lambda>_. settled bk act) X"
  unfolding set_process_def
  by (rule own_modifyMC) (auto simp: act_def held_process_def)

lemma act_activateProxyMode:
  "triple (settled bk act) (activateProxyMode E) (act_result bk) (unless_crash (settled bk act))"
proof -
  have spawn: "triple (settled bk act) (process_spawn E app args sec)
      (\<lambda>ok. own bk (if ok then 1 else 0) (\<lambda>_. 0) act) (unless_crash (settled bk act))" for app args sec
    by (rule triple_weaken [OF own_process_spawn [where bk = bk and R = act and k = 0 and M = "\<lambda>_. 0"]]) auto
  show ?thesis
    unfolding activateProxyMode_def
    by (intro own_getMC act_drop triple_if act_mountLocalFile triple_then [OF act_set_process]
        triple_bind [OF spawn act_spawned_or])
qed

lemma act_quiet: "quiet m \<Longrightarrow> triple (settled bk act) (liftW m) (\<lambda>_. settled bk act) (unless_crash (settled bk act))"
  by (intro own_quiet unless_crashI)

lemma act_activate_url:
  "triple (settled bk act) (activate_url E n) (act_result bk) (unless_crash (settled bk act))"
  unfolding activate_url_def
  by (intro act_triple_the_target own_getMC act_drop triple_if triple_option act_mountLocalFile
      act_fail_with act_mountHttpsShare triple_then [OF act_quiet [OF quiet_store_creds]]
      triple_then [OF act_quiet [OF quiet_async_write]] act_mountSmbShare act_mountNfsShare)

lemma act_activateLegacyMode:
  "triple (settled bk act) (activateLegacyMode E) (act_result bk) (unless_crash (settled bk act))"
  unfolding activateLegacyMode_def
  by (intro act_triple_the_target own_getMC act_drop triple_option triple_if act_fail_with
      act_activate_url triple_then [OF act_quiet [OF quiet_saveImageURL]]
      triple_bind [OF act_quiet [OF quiet_prepare_socket_dir]])
    (auto intro!: act_fail_with triple_bind [where R = "\<lambda>_. settled bk act"] triple_liftE unless_crashI
      triple_if act_activate_url split: option.splits prod.splits)

lemma act_onEnter:
  "triple (settled bk act) (activating_onEnter E) (act_result bk) (unless_crash (settled bk act))"
proof -
  have set: "triple (settled bk act) (modifyMC (\<lambda>m. m\<lparr>exitCode := c\<rparr>)) (\<lambda>_. settled bk act) X" for c X
    by (rule own_modifyMC) simp
  show ?thesis
    unfolding activating_onEnter_def
    by (rule triple_then [OF set])
      (intro own_getMC act_drop triple_if act_activateProxyMode act_activateLegacyMode)
qed

section \<open>Entering a state\<close>

text \<open>A new state object that is about to become current: what it owns is in transit.\<close>

definition new_ok :: "bstate \<Rightarrow> bool" where
  "new_ok s \<longleftrightarrow>
     (case s of
        InitialState \<Rightarrow> False
      | ReadyState _ \<Rightarrow> True
      | ActivatingState p g \<Rightarrow> p = None \<and> g = None
      | ActiveState p g \<Rightarrow> True
      | DeactivatingState p g u st \<Rightarrow> \<not> (u \<noteq> None \<and> st))"

definition changing :: "machine \<Rightarrow> bool" where
  "changing m \<longleftrightarrow> completion m \<noteq> None \<and>
     (tick_timer m \<noteq> NoTick \<longrightarrow> (\<exists>p g. mc_state m = ActiveState p g))"

definition entered :: "bstate \<Rightarrow> machine \<Rightarrow> bool" where
  "entered s m \<longleftrightarrow> mc_state m = s \<and> completion m \<noteq> None \<and> tick_timer m = NoTick"

definition enter_result :: "books \<Rightarrow> bstate option \<Rightarrow> st \<Rightarrow> bool" where
  "enter_result bk r s \<longleftrightarrow>
     (case r of None \<Rightarrow> consistent bk s | Some s' \<Rightarrow> (\<exists>e. s' = ReadyState e) \<and> settled bk changing s)"

lemma consistent_crash: "consistent bk s \<Longrightarrow> unless_crash (consistent bk) e s"
  by (rule unless_crashI)

lemma own_clear_target:
  assumes "\<And>m. R m \<Longrightarrow> R' (m\<lparr>target := None\<rparr>)"
  shows "triple (settled bk R) (clear_target E) (\<lambda>_. settled bk R') X"
  unfolding clear_target_def
proof (rule own_getMC)
  fix t
  let ?M = "\<lambda>d. held_mounts t d"
  have clear: "triple (settled bk (\<lambda>m. R m \<and> target m = t)) (modifyMC (\<lambda>m. m\<lparr>target := None\<rparr>))
      (\<lambda>_. own bk 0 ?M R') X"
    by (rule own_modifyMC) (use assms in \<open>auto simp: held_mounts_def\<close>)
  have "triple (own bk 0 ?M R') (case t of None \<Rightarrow> returnM () | Some t \<Rightarrow>
      thenM (destroy_mount E (mountPointNfs t)) (destroy_mount E (mountPoint t))) (\<lambda>_. settled bk R') X"
  proof (cases t)
    case None
    then show ?thesis by (auto intro!: triple_return simp: held_mounts_def)
  next
    case (Some t')
    have "triple (own bk 0 (\<lambda>d. (0 + (if mountPoint t' = Some d then 1 else 0)) + (if mountPointNfs t' = Some d then 1 else 0)) R')
        (thenM (destroy_mount E (mountPointNfs t')) (destroy_mount E (mountPoint t'))) (\<lambda>_. settled bk R') X"
      by (rule triple_then [OF own_destroy_mount own_destroy_mount])
    with Some show ?thesis by (simp add: held_mounts_def)
  qed
  then show "triple (settled bk (\<lambda>m. R m \<and> target m = t))
     (thenM (modifyMC (\<lambda>m. m\<lparr>target := None\<rparr>))
       (case t of None \<Rightarrow> returnM () | Some t \<Rightarrow>
          thenM (destroy_mount E (mountPointNfs t)) (destroy_mount E (mountPoint t))))
     (\<lambda>_. settled bk R') X"
    by (rule triple_then [OF clear])
qed

lemma enter_ready:
  "triple (settled bk (entered (ReadyState e))) (onEnter E) (enter_result bk) (unless_crash (consistent bk))"
proof -
  have set: "triple (settled bk (\<lambda>m. entered (ReadyState e) m \<and> target m = None))
      (modifyMC (\<lambda>m. m\<lparr>config := (config m)\<lparr>remainingInactivityTimeout := Some 0\<rparr>\<rparr>))
      (\<lambda>_. consistent bk) X" for X
    by (rule own_modifyMC) (auto simp: entered_def machine_ok_def)
  have clear: "triple (settled bk (\<lambda>m. entered (ReadyState e) m \<and> mc_state m = s)) (clear_target E)
      (\<lambda>_. settled bk (\<lambda>m. entered (ReadyState e) m \<and> target m = None)) X" for s X
    by (rule own_clear_target) (auto simp: entered_def)
  have "triple (settled bk (\<lambda>m. entered (ReadyState e) m \<and> mc_state m = s))
      (thenM (clear_target E) (thenM (modifyMC (\<lambda>m. m\<lparr>config := (config m)\<lparr>remainingInactivityTimeout := Some 0\<rparr>\<rparr>))
         (returnM None))) (enter_result bk) X" for s X
    by (rule triple_then [OF clear triple_then [OF set]]) (auto intro!: triple_return simp: enter_result_def)
  then show ?thesis
    unfolding onEnter_def ready_onEnter_def active_onEnter_def deactivating_onEnter_def
    by (intro own_getMC) (auto simp: triple_def own_def entered_def split: bstate.splits)
qed

lemma enter_active:
  "triple (settled bk (entered (ActiveState p g))) (onEnter E) (enter_result bk) (unless_crash (consistent bk))"
proof -
  have "triple (settled bk (\<lambda>m. entered (ActiveState p g) m \<and> mc_state m = s))
      (modifyMC (\<lambda>m. m\<lparr>tick_timer := Waiting\<rparr>)) (\<lambda>_. consistent bk) X" for X s
    by (rule own_modifyMC) (auto simp: entered_def machine_ok_def)
  then have "triple (settled bk (\<lambda>m. entered (ActiveState p g) m \<and> mc_state m = s))
      (thenM (modifyMC (\<lambda>m. m\<lparr>tick_timer := Waiting\<rparr>)) (returnM None)) (enter_result bk) X" for X s
    by (rule triple_then) (auto intro!: triple_return simp: enter_result_def)
  then show ?thesis
    unfolding onEnter_def ready_onEnter_def active_onEnter_def deactivating_onEnter_def
    by (intro own_getMC) (auto simp: triple_def own_def entered_def split: bstate.splits)
qed

lemma enter_activating:
  "triple (settled bk (entered (ActivatingState None None))) (onEnter E) (enter_result bk) (unless_crash (consistent bk))"
proof -
  have ok: "settled bk act s \<Longrightarrow> consistent bk s" for s by (erule own_imp) (rule act_ok)
  have ch: "settled bk act s \<Longrightarrow> settled bk changing s" for s
    by (erule own_imp) (auto simp: act_def changing_def)
  have "triple (settled bk (\<lambda>m. entered (ActivatingState None None) m \<and> mc_state m = s)) (activating_onEnter E)
      (enter_result bk) (unless_crash (consistent bk))" for s
  proof (rule triple_weaken [OF act_onEnter])
    show "settled bk act t" if "settled bk (\<lambda>m. entered (ActivatingState None None) m \<and> mc_state m = s) t" for t
      using that by (auto simp: own_def entered_def act_def)
    show "enter_result bk r t" if "act_result bk r t" for r t
      using that ch by (auto simp: act_result_def enter_result_def split: option.splits)
    show "unless_crash (consistent bk) e t" if "unless_crash (settled bk act) e t" for e t
      using that ok by (simp add: unless_crash_def)
  qed
  then show ?thesis
    unfolding onEnter_def ready_onEnter_def active_onEnter_def deactivating_onEnter_def
    by (intro own_getMC) (auto simp: triple_def own_def entered_def split: bstate.splits)
qed

lemma enter_deactivating:
  assumes "\<not> (u \<noteq> None \<and> st)"
  shows "triple (settled bk (entered (DeactivatingState p g u st))) (onEnter E) (enter_result bk)
    (unless_crash (consistent bk))"
proof -
  let ?s = "\<lambda>p g. DeactivatingState p g u st"
  have take: "triple (settled bk (\<lambda>m. entered (?s p g) m \<and> mc_state m = ?s p g)) (set_state (?s p None))
      (\<lambda>_. settled bk (entered (?s p None))) X" for X
    unfolding set_state_def by (rule own_modifyMC) (auto simp: entered_def held_process_def)
  have drop: "triple (settled bk (entered (?s p None))) (set_state (?s None None))
      (\<lambda>_. own bk (if p = Some True then 0 + 1 else 0) (\<lambda>_. 0) (entered (?s None None))) X" for X
    unfolding set_state_def by (rule own_modifyMC) (auto simp: entered_def held_process_def)
  have stop: "triple (own bk (if p = Some True then 0 + 1 else 0) (\<lambda>_. 0) (entered (?s None None)))
      (destroy_process E p) (\<lambda>_. settled bk (entered (?s None None))) X" for X
    by (rule own_destroy_process) (simp add: entered_def)
  have ret: "triple (settled bk (entered (?s None None))) (returnM None) (enter_result bk) X" for X
  proof (rule triple_return)
    fix s
    assume "settled bk (entered (?s None None)) s"
    then have "consistent bk s" by (rule own_imp) (use assms in \<open>auto simp: entered_def machine_ok_def\<close>)
    then show "enter_result bk None s" by (simp add: enter_result_def)
  qed
  have "triple (settled bk (\<lambda>m. entered (?s p g) m \<and> mc_state m = ?s p g))
      (thenM (set_state (?s p None)) (thenM (destroy_gadget E g) (thenM (set_state (?s None None))
        (thenM (destroy_process E p) (returnM None))))) (enter_result bk) (unless_crash (consistent bk))"
    by (rule triple_then [OF take triple_then [OF own_destroy_gadget triple_then [OF drop
          triple_then [OF stop ret]]]])
  then show ?thesis
    unfolding onEnter_def ready_onEnter_def active_onEnter_def deactivating_onEnter_def
    by (intro own_getMC) (auto simp: triple_def own_def entered_def split: bstate.splits)
qed

lemma enter_state:
  assumes "new_ok s"
  shows "triple (settled bk (entered s)) (onEnter E) (enter_result bk) (unless_crash (consistent bk))"
  using assms
  by (cases s) (auto simp: new_ok_def enter_ready enter_active enter_activating enter_deactivating)

section \<open>Changing the state\<close>

text \<open>Between the assignment of the new state and the destruction of the old one.\<close>

definition leaving :: "bstate \<Rightarrow> bstate \<Rightarrow> machine \<Rightarrow> bool" where
  "leaving old new m \<longleftrightarrow> mc_state m = new \<and> completion m \<noteq> None \<and>
     (tick_timer m \<noteq> NoTick \<longrightarrow> (\<exists>p g. old = ActiveState p g))"

lemma leave_state:
  "triple (own bk (held_process old) (\<lambda>_. 0) (leaving old new)) (destroy_state E old)
     (\<lambda>_. settled bk (entered new)) (unless_crash Y)"
proof -
  have proc: "triple (own bk (held_process old) (\<lambda>_. 0) (leaving old new))
      (destroy_process E (fst (members_of old))) (\<lambda>_. settled bk (leaving old new)) X" for X
  proof -
    have held: "held_process old = (if fst (members_of old) = Some True then 0 + 1 else 0)"
      by (simp add: held_process_def)
    show ?thesis unfolding held by (rule own_destroy_process) (simp add: leaving_def)
  qed
  have cancel: "triple (settled bk (leaving old new))
      (modifyMC (\<lambda>m. m\<lparr>tick_timer := NoTick, stale_tick := stale_tick m \<or> tick_timer m = Due\<rparr>))
      (\<lambda>_. settled bk (entered new)) X" for X
    by (rule own_modifyMC) (simp add: leaving_def entered_def)
  have timer: "triple (settled bk (leaving old new))
      (whenM (case old of ActiveState _ _ \<Rightarrow> True | _ \<Rightarrow> False)
        (modifyMC (\<lambda>m. m\<lparr>tick_timer := NoTick, stale_tick := stale_tick m \<or> tick_timer m = Due\<rparr>)))
      (\<lambda>_. settled bk (entered new)) X" for X
    by (rule triple_when [OF cancel])
      (auto simp: own_def leaving_def entered_def split: bstate.splits)
  show ?thesis
    unfolding destroy_state_def
    by (rule triple_then [OF own_destroy_gadget triple_then [OF proc timer]])
qed

text \<open>A pending change of state: the new object owns what it holds, the old one is still current.\<close>

abbreviation pending :: "books \<Rightarrow> bstate \<Rightarrow> st \<Rightarrow> bool" where
  "pending bk s \<equiv> own bk (held_process s) (\<lambda>_. 0) changing"

lemma changeState_consistent:
  "new_ok s \<Longrightarrow> triple (pending bk s) (changeState E n s) (\<lambda>_. consistent bk) (unless_crash (consistent bk))"
proof (induction n arbitrary: s)
  case 0
  then show ?case by (auto intro!: triple_throw simp: no_fuel_def)
next
  case (Suc n)
  have set: "triple (own bk (held_process s) (\<lambda>_. 0) (\<lambda>m. changing m \<and> mc_state m = old)) (set_state s)
      (\<lambda>_. own bk (held_process old) (\<lambda>_. 0) (leaving old s)) X" for old X
    unfolding set_state_def
    by (rule own_modifyMC) (auto simp: changing_def leaving_def)
  have follow: "triple (enter_result bk r) (case r of None \<Rightarrow> returnM () | Some s' \<Rightarrow> changeState E n s')
      (\<lambda>_. consistent bk) (unless_crash (consistent bk))" for r
  proof (cases r)
    case None
    then show ?thesis by (auto intro!: triple_return simp: enter_result_def)
  next
    case (Some s')
    show ?thesis
    proof (cases "\<exists>e. s' = ReadyState e")
      case True
      then have "new_ok s'" "held_process s' = 0" by (auto simp: new_ok_def held_process_def)
      with Suc.IH [of s'] Some show ?thesis
        by (auto elim!: triple_pre simp: enter_result_def)
    qed (use Some in \<open>auto simp: enter_result_def triple_def\<close>)
  qed
  show ?case
    unfolding changeState.simps
    by (intro own_getMC triple_then [OF set] triple_then [OF leave_state]
        triple_bind [OF enter_state [OF Suc.prems] follow])
qed

text \<open>After a handler: its result is the state to change to.\<close>

definition handled :: "books \<Rightarrow> bstate option \<Rightarrow> st \<Rightarrow> bool" where
  "handled bk r s \<longleftrightarrow> (case r of None \<Rightarrow> consistent bk s | Some s' \<Rightarrow> new_ok s' \<and> pending bk s' s)"

lemma handled_change:
  "triple (handled bk r) (case r of None \<Rightarrow> returnM () | Some s \<Rightarrow> changeState E n s)
     (\<lambda>_. consistent bk) (unless_crash (consistent bk))"
proof (cases r)
  case None
  then show ?thesis by (auto intro!: triple_return simp: handled_def)
next
  case (Some s)
  with changeState_consistent [of s bk E n] show ?thesis
    by (cases "new_ok s") (auto elim!: triple_pre simp: handled_def triple_def)
qed

section \<open>Handlers\<close>

text \<open>The invariant of the current state, with the state known.\<close>

definition in_state :: "bstate \<Rightarrow> machine \<Rightarrow> bool" where
  "in_state s m \<longleftrightarrow> machine_ok m \<and> mc_state m = s"

lemma in_state_simps:
  "in_state InitialState m \<longleftrightarrow> mc_state m = InitialState \<and> target m = None \<and> tick_timer m = NoTick"
  "in_state (ReadyState e) m \<longleftrightarrow> mc_state m = ReadyState e \<and> target m = None \<and>
     remainingInactivityTimeout (config m) = Some 0 \<and> completion m \<noteq> None \<and> tick_timer m = NoTick"
  "in_state (ActivatingState p g) m \<longleftrightarrow> mc_state m = ActivatingState p g \<and> g = None \<and>
     completion m \<noteq> None \<and> tick_timer m = NoTick"
  "in_state (ActiveState p g) m \<longleftrightarrow> mc_state m = ActiveState p g \<and> completion m \<noteq> None"
  "in_state (DeactivatingState p g u st) m \<longleftrightarrow> mc_state m = DeactivatingState p g u st \<and> p = None \<and>
     g = None \<and> completion m \<noteq> None \<and> tick_timer m = NoTick \<and> \<not> (u \<noteq> None \<and> st)"
  by (auto simp: in_state_def machine_ok_def)

lemma in_state_completion:
  "in_state s m \<Longrightarrow> s \<noteq> InitialState \<Longrightarrow> completion m \<noteq> None"
  "in_state s m \<Longrightarrow> in_state s (m\<lparr>completion := Some x\<rparr>)"
  by (cases s; simp add: in_state_simps)+

lemma changing_completion [simp]: "changing m \<Longrightarrow> changing (m\<lparr>completion := Some x\<rparr>)"
  by (simp add: changing_def)

lemma handled_none: "consistent bk s \<Longrightarrow> handled bk None s"
  by (simp add: handled_def)

lemma handled_some: "new_ok n \<Longrightarrow> pending bk n s \<Longrightarrow> handled bk (Some n) s"
  by (simp add: handled_def)

lemma in_state_consistent: "settled bk (in_state s) t \<Longrightarrow> consistent bk t"
  by (erule own_imp) (simp add: in_state_def)

lemma handle_fail: "triple (settled bk changing) (fail_with E ec msg) (handled bk) (unless_crash (consistent bk))"
  unfolding fail_with_def ready_error_def thenM_def bindM_assoc
  by (rule triple_bind [OF own_notify_client])
    (auto intro!: triple_return handled_some simp: new_ok_def held_process_def)

lemma handle_ok:
  "triple (settled bk changing) (bindM (ready_ok E) (\<lambda>s. returnM (Some s))) (handled bk) (unless_crash (consistent bk))"
  unfolding ready_ok_def thenM_def bindM_assoc
  by (rule triple_bind [OF own_notify_client])
    (auto intro!: triple_return handled_some simp: new_ok_def held_process_def)

lemma handle_refused:
  "triple (settled bk (in_state s)) (throwM e) (handled bk) (unless_crash (consistent bk))"
  by (rule triple_throw) (simp add: unless_crash_def in_state_consistent)

lemma handle_ignored:
  "triple (settled bk (in_state s)) (returnM None) (handled bk) (unless_crash (consistent bk))"
  by (rule triple_return) (simp add: handled_none in_state_consistent)

lemma handle_notificationStart:
  "s \<noteq> InitialState \<Longrightarrow> triple (settled bk (in_state s)) notificationStart (\<lambda>_. settled bk (in_state s)) X"
  unfolding notificationStart_def
proof (rule own_getMC)
  fix x
  assume s: "s \<noteq> InitialState"
  show "triple (settled bk (\<lambda>m. in_state s m \<and> completion m = x))
     (case x of None \<Rightarrow> throwM (UB ''completionNotification is null'')
      | Some (svc, iface, n) \<Rightarrow> modifyMC (\<lambda>m. m\<lparr>completion := Some (svc, iface, notification_start n)\<rparr>))
     (\<lambda>_. settled bk (in_state s)) X"
    using s by (cases x)
      (auto intro!: triple_throw own_modifyMC simp: own_def in_state_completion(2)
        dest: in_state_completion(1))
qed

subsection \<open>Ready\<close>

definition fresh_event :: "event \<Rightarrow> bool" where
  "fresh_event e = (case e of MountEvent (Some t) \<Rightarrow> mountPoint t = None \<and> mountPointNfs t = None | _ \<Rightarrow> True)"

lemma handle_ready_mount:
  assumes "fresh_event (MountEvent t)"
  shows "triple (settled bk (in_state (ReadyState err)))
     (thenM notificationStart (thenM (case t of Some t \<Rightarrow> set_target E t | None \<Rightarrow> returnM ())
        (returnM (Some (ActivatingState None None))))) (handled bk) (unless_crash (consistent bk))"
proof -
  have ret: "triple (settled bk changing) (returnM (Some (ActivatingState None None))) (handled bk) X" for X
    by (rule triple_return) (auto intro!: handled_some simp: new_ok_def held_process_def)
  have clear: "triple (settled bk (in_state (ReadyState err))) (clear_target E)
      (\<lambda>_. settled bk (\<lambda>m. changing m \<and> target m = None)) X" for X
    by (rule own_clear_target) (simp add: in_state_simps changing_def)
  have put: "triple (settled bk (\<lambda>m. changing m \<and> target m = None)) (modifyMC (\<lambda>m. m\<lparr>target := Some t'\<rparr>))
      (\<lambda>_. settled bk changing) X" if "t = Some t'" for t' X
    by (rule own_modifyMC) (use assms that in \<open>auto simp: fresh_event_def changing_def held_mounts_def\<close>)
  have target: "triple (settled bk (in_state (ReadyState err)))
      (case t of Some t \<Rightarrow> set_target E t | None \<Rightarrow> returnM ()) (\<lambda>_. settled bk changing) X" for X
  proof (cases t)
    case None
    then show ?thesis
      by (auto intro!: triple_return elim!: own_imp simp: in_state_simps changing_def)
  next
    case (Some t')
    show ?thesis
      unfolding Some option.case set_target_def by (rule triple_then [OF clear put [OF Some]])
  qed
  show ?thesis
    by (rule triple_then [OF handle_notificationStart triple_then [OF target ret]]) simp
qed

subsection \<open>Leaving Activating or Active\<close>

definition occupied :: "bstate \<Rightarrow> process_res \<Rightarrow> gadget_res \<Rightarrow> bool" where
  "occupied s p g \<longleftrightarrow> s = ActivatingState p g \<or> s = ActiveState p g"

lemma handle_move_out:
  assumes "occupied s p g" and "held_process s = held_process n"
  shows "triple (settled bk (\<lambda>m. changing m \<and> mc_state m = s)) move_out (\<lambda>_. pending bk n) X"
proof -
  have "n' = held_process n" if "n' = held_process s" for n' using that assms(2) by simp
  with assms show ?thesis
    unfolding move_out_def
    by (intro own_modifyMC) (auto simp: occupied_def changing_def held_process_def)
qed

lemma in_state_changing:
  "occupied s p g \<Longrightarrow> settled bk (in_state s) t \<Longrightarrow> settled bk (\<lambda>m. changing m \<and> mc_state m = s) t"
  by (erule own_imp) (auto simp: occupied_def in_state_simps changing_def)

lemma handle_deactivate:
  assumes "occupied s p g"
  shows "triple (settled bk (in_state s)) (some_state (make_deactivating p g e)) (handled bk) (unless_crash (consistent bk))"
proof -
  let ?n = "case e of Some (UdevStateChangeEvent d) \<Rightarrow> DeactivatingState p g (Some d) False
        | Some SubprocessStoppedEvent \<Rightarrow> DeactivatingState p g None True
        | _ \<Rightarrow> DeactivatingState p g None False"
  have held: "held_process s = held_process ?n" and ok: "new_ok ?n"
    using assms by (auto simp: occupied_def held_process_def new_ok_def split: option.split event.split)
  have "triple (pending bk ?n) (returnM (Some ?n)) (handled bk) (unless_crash (consistent bk))"
    by (rule triple_return) (rule handled_some [OF ok])
  then have "triple (settled bk (\<lambda>m. changing m \<and> mc_state m = s)) (thenM move_out (returnM (Some ?n))) (handled bk)
      (unless_crash (consistent bk))"
    by (rule triple_then [OF handle_move_out [OF assms held]])
  then show ?thesis
    unfolding some_state_def make_deactivating_def
    by (auto simp: thenM_def bindM_assoc elim!: triple_pre dest: in_state_changing [OF assms])
qed

lemma handle_deactivate_notified:
  assumes "occupied s p g"
  shows "triple (settled bk (in_state s)) (thenM notificationStart (some_state (make_deactivating p g e)))
    (handled bk) (unless_crash (consistent bk))"
proof (rule triple_then [OF handle_notificationStart handle_deactivate [OF assms]])
  show "s \<noteq> InitialState" using assms by (auto simp: occupied_def)
qed

lemma handle_activating_udev:
  "triple (settled bk (in_state (ActivatingState p g))) (activating_udev E p g d) (handled bk) (unless_crash (consistent bk))"
proof (cases "d = inserted")
  case False
  then show ?thesis
    by (simp add: activating_udev_def handle_deactivate occupied_def)
next
  case True
  let ?s = "ActivatingState p g"
  let ?t = "\<lambda>status. ActivatingState p (Some status)"
  have create: "triple (settled bk (\<lambda>m. in_state ?s m \<and> id m = x)) (liftW (gadget_create E n dev d' rw info))
      (\<lambda>_. settled bk (in_state ?s)) (unless_crash (consistent bk))" for x n dev d' rw info
    by (rule own_quiet [THEN triple_weaken], rule quiet_gadget_create)
      (auto intro!: unless_crashI dest: in_state_consistent elim: own_imp intro: own_imp)
  have store: "triple (settled bk (in_state ?s)) (set_state (?t status))
      (\<lambda>_. settled bk (\<lambda>m. changing m \<and> mc_state m = ?t status)) X" for status X
    unfolding set_state_def
    by (rule own_modifyMC) (auto simp: in_state_simps changing_def held_process_def)
  have fail: "triple (settled bk (\<lambda>m. changing m \<and> mc_state m = ?t status)) (fail_with E ec msg) (handled bk)
      (unless_crash (consistent bk))" for status ec msg
    by (rule triple_pre [OF handle_fail]) (erule own_imp, simp)
  have out: "triple (settled bk (\<lambda>m. changing m \<and> mc_state m = ?t status)) move_out
      (\<lambda>_. pending bk (ActiveState p (Some status))) X" for status X
    by (rule handle_move_out) (auto simp: occupied_def held_process_def)
  have reset: "triple (pending bk n) (modifyMC (\<lambda>m. m\<lparr>lastAccess := 0, lastStats := ''''\<rparr>)) (\<lambda>_. pending bk n) X" for n X
    by (rule own_modifyMC) (simp add: changing_def)
  have ret: "triple (pending bk (ActiveState p (Some status))) (returnM (Some (ActiveState p (Some status))))
      (handled bk) X" for status X
    by (rule triple_return) (auto intro!: handled_some simp: new_ok_def)
  show ?thesis
    unfolding activating_udev_def if_P [OF True]
    by (intro own_getMC triple_bind [OF create] triple_then [OF store] triple_then [OF own_destroy_gadget]
        triple_if fail triple_then [OF out triple_then [OF own_notify_client triple_then [OF reset ret]]])
      simp
qed

lemma handle_activating_stopped:
  "triple (settled bk (in_state (ActivatingState p g))) (activating_stopped E) (handled bk) (unless_crash (consistent bk))"
proof -
  have "triple (settled bk (\<lambda>m. in_state (ActivatingState p g) m \<and> C m)) (fail_with E ec msg) (handled bk)
      (unless_crash (consistent bk))" for ec msg C
    by (rule triple_pre [OF handle_fail]) (erule own_imp, simp add: in_state_simps changing_def)
  then show ?thesis
    unfolding activating_stopped_def by (intro own_getMC triple_if)
qed

subsection \<open>Deactivating and registration\<close>

lemma handle_evaluate:
  "triple (settled bk (\<lambda>m. changing m \<and> mc_state m = DeactivatingState None None u st))
     (evaluate E u st) (handled bk) (unless_crash (consistent bk))"
proof -
  have wait: "triple (settled bk (\<lambda>m. changing m \<and> mc_state m = DeactivatingState None None u st))
      (returnM None) (handled bk) X" if "\<not> (u \<noteq> None \<and> st)" for X
    by (intro triple_return handled_none)
      (erule own_imp, use that in \<open>auto simp: changing_def machine_ok_def\<close>)
  have drop: "settled bk (\<lambda>m. changing m \<and> mc_state m = DeactivatingState None None u st) s \<Longrightarrow>
      settled bk changing s" for s
    by (erule own_imp) simp
  show ?thesis
    unfolding evaluate_def
    by (intro triple_option triple_if wait triple_pre [OF handle_ok drop] triple_pre [OF handle_fail drop])
      simp_all
qed

lemma handle_deactivating:
  "triple (settled bk (in_state (DeactivatingState p g u st)))
     (thenM (set_state (DeactivatingState p g u' st')) (evaluate E u' st')) (handled bk) (unless_crash (consistent bk))"
proof -
  have set: "triple (settled bk (in_state (DeactivatingState p g u st))) (set_state (DeactivatingState p g u' st'))
      (\<lambda>_. settled bk (\<lambda>m. changing m \<and> mc_state m = DeactivatingState None None u' st')) X" for X
    unfolding set_state_def
    by (rule own_modifyMC) (auto simp: in_state_simps changing_def held_process_def)
  show ?thesis
    by (rule triple_then [OF set handle_evaluate])
qed

lemma handle_register:
  "triple (settled bk (in_state InitialState)) (initial_register E) (handled bk) (unless_crash (consistent bk))"
proof -
  let ?R = "in_state InitialState"
  have quietly: "triple (settled bk ?R) (liftW m) (\<lambda>_. settled bk ?R) (unless_crash (consistent bk))" if "quiet m"
    for m :: "unit wprog"
    by (rule own_quiet [OF that]) (rule unless_crashI, rule in_state_consistent)
  have bus: "triple (settled bk R) (liftW (do_sys E c)) (\<lambda>_. settled bk R) X" if "\<not> is_resource_call c" for c R X
    by (rule own_never_throws [OF at_most_do_sys do_sys_returns]) (simp add: that)
  have init: "triple (settled bk ?R) (notificationInitialize a b) (\<lambda>_. settled bk changing) X" for a b X
    unfolding notificationInitialize_def
    by (rule own_modifyMC) (simp add: in_state_simps changing_def)
  have service: "triple (settled bk ?R) (addServiceInterface E n c) (\<lambda>_. settled bk changing)
      (unless_crash (consistent bk))" for n c
    unfolding addServiceInterface_def Let_def
    by (intro triple_then [OF bus] triple_then [OF init] bus) simp_all
  have clean: "triple (settled bk ?R) (whenM b (liftW (cleanUpMountPoint E n c))) (\<lambda>_. settled bk ?R)
      (unless_crash (consistent bk))" for b n c
    by (intro triple_when quietly quiet_cleanUp)
  have disabled: "triple (settled bk ?R) (bindM (ready_error E ec msg) (\<lambda>s. returnM (Some s))) (handled bk)
      (unless_crash (consistent bk))" for ec msg
    unfolding ready_error_def thenM_def bindM_assoc
    by (rule triple_bind [OF own_notify_establishes [where R' = changing]])
      (auto intro!: triple_return handled_some simp: new_ok_def held_process_def in_state_simps changing_def)
  have add: "quiet (addMountPointInterface E n c)" "quiet (addProcessInterface E n c)" for n c
    by (simp_all add: addMountPointInterface_def addProcessInterface_def quiet_register_all)
  let ?body = "\<lambda>c name.
      (let isLegacy = (mp_mode c = legacy); isLocal = (mp_mode c = local) in
       if isLegacy \<and> \<not> legacy_mode_enabled E
       then bindM (ready_error E EINVAL ''Legacy mode is not supported'') (\<lambda>s. returnM (Some s))
       else thenM (whenM (isLegacy \<or> isLocal) (liftW (cleanUpMountPoint E name c)))
           (thenM (liftW (addMountPointInterface E name c))
           (thenM (liftW (addProcessInterface E name c))
           (thenM (addServiceInterface E name c)
              (bindM (ready_ok E) (\<lambda>s. returnM (Some s)))))))"
  have "triple (settled bk ?R) (?body c name) (handled bk) (unless_crash (consistent bk))" for c name
    unfolding Let_def
    by (intro triple_if disabled triple_then [OF clean] triple_then [OF quietly [OF add(1)]]
        triple_then [OF quietly [OF add(2)]] triple_then [OF service] handle_ok)
  then show ?thesis
    unfolding initial_register_def
    by (intro own_getMC) (rule triple_pre, assumption, erule own_imp, simp)
qed

text \<open>Every handler: the invariant before, the invariant or a pending change of state after.\<close>

lemma handleEvent_handled:
  assumes "fresh_event e"
  shows "triple (consistent bk) (handleEvent E e) (handled bk) (unless_crash (consistent bk))"
  unfolding handleEvent_def
proof (rule own_getMC)
  fix s
  have known: "settled bk (\<lambda>m. machine_ok m \<and> mc_state m = s) = settled bk (in_state s)"
    by (rule arg_cong [where f = "settled bk"]) (rule ext, simp add: in_state_def)
  show "triple (settled bk (\<lambda>m. machine_ok m \<and> mc_state m = s)) (case s of
         InitialState \<Rightarrow> initial_handle E e
       | ReadyState _ \<Rightarrow> ready_handle E e
       | ActivatingState p g \<Rightarrow> activating_handle E p g e
       | ActiveState p g \<Rightarrow> active_handle E p g e
       | DeactivatingState p g u st \<Rightarrow> deactivating_handle E p g u st e) (handled bk) (unless_crash (consistent bk))"
    unfolding known
    using assms
    by (cases s; cases e)
      (simp_all add: handle_defs handle_refused handle_ignored handle_register handle_ready_mount
        handle_activating_udev handle_activating_stopped handle_deactivate handle_deactivate_notified
        handle_deactivating occupied_def)
qed

lemma emitEvent_consistent:
  "fresh_event e \<Longrightarrow> triple (consistent bk) (emitEvent E e) (\<lambda>_. consistent bk) (unless_crash (consistent bk))"
  unfolding emitEvent_def by (rule triple_bind [OF handleEvent_handled handled_change])

section \<open>The event loop\<close>

lemma machine_ok_updates [simp]:
  "machine_ok (m\<lparr>additionalInfo := i\<rparr>) = machine_ok m" "machine_ok (m\<lparr>children := cs\<rparr>) = machine_ok m"
  "machine_ok (m\<lparr>exitCode := c\<rparr>) = machine_ok m" "machine_ok (m\<lparr>stops := n\<rparr>) = machine_ok m"
  "machine_ok (m\<lparr>posted_events := ps\<rparr>) = machine_ok m" "machine_ok (m\<lparr>lastAccess := la\<rparr>) = machine_ok m"
  "machine_ok (m\<lparr>lastStats := ls\<rparr>) = machine_ok m" "machine_ok (m\<lparr>stale_tick := b\<rparr>) = machine_ok m"
  "machine_ok m \<Longrightarrow> machine_ok (m\<lparr>completion := Some x\<rparr>)"
  by (auto simp: machine_ok_def split: bstate.splits)

lemma machine_ok_tick:
  "machine_ok m \<Longrightarrow> tick_timer m \<noteq> NoTick \<Longrightarrow> machine_ok (m\<lparr>tick_timer := t\<rparr>)"
  "machine_ok m \<Longrightarrow> tick_timer m \<noteq> NoTick \<Longrightarrow> machine_ok (m\<lparr>tick_timer := t, config := c\<rparr>)"
  by (auto simp: machine_ok_def split: bstate.splits)

lemma ok_modify:
  assumes "\<And>m. R m \<Longrightarrow> machine_ok (f m) \<and> mc_state (f m) = mc_state m \<and> target (f m) = target m"
  shows "triple (settled bk R) (modifyMC f) (\<lambda>_. consistent bk) X"
  by (rule own_modifyMC) (use assms in simp)

lemma ok_quiet: "quiet m \<Longrightarrow> triple (consistent bk) (liftW m) (\<lambda>_. consistent bk) (unless_crash (consistent bk))"
  by (erule own_quiet) (rule unless_crashI)

lemma ok_return: "triple (consistent bk) (returnM x) (\<lambda>_. consistent bk) X"
  by (rule triple_return)

lemma ok_get: "(\<And>x. triple (consistent bk) (g x) Q X) \<Longrightarrow> triple (consistent bk) (bindM (getMC f) g) Q X"
  by (rule own_getMC, rule triple_pre) (assumption, simp add: own_def)

lemma ok_bind:
  "triple (consistent bk) m (\<lambda>_. consistent bk) X \<Longrightarrow> (\<And>x. triple (consistent bk) (f x) Q X) \<Longrightarrow>
   triple (consistent bk) (bindM m f) Q X"
  by (rule triple_bind)

lemma ok_then:
  "triple (consistent bk) m (\<lambda>_. consistent bk) X \<Longrightarrow> triple (consistent bk) n Q X \<Longrightarrow>
   triple (consistent bk) (thenM m n) Q X"
  by (rule triple_then)

lemmas ok_steps = ok_get ok_return triple_if ok_bind ok_then

lemma ok_proxyMount: "triple (consistent bk) (proxyMount E info) (\<lambda>_. consistent bk) (unless_crash (consistent bk))"
  unfolding proxyMount_def setAdditionalInfo_def
  by (intro ok_steps triple_when ok_modify emitEvent_consistent) (simp_all add: fresh_event_def)

lemma ok_legacyMount:
  "triple (consistent bk) (legacyMount E url rw secret info) (\<lambda>_. consistent bk) (unless_crash (consistent bk))"
  unfolding legacyMount_def setAdditionalInfo_def
  by (intro ok_steps triple_when ok_modify emitEvent_consistent triple_liftE unless_crashI)
    (simp_all add: fresh_event_def make_target_def)

lemma ok_unmountMethod: "triple (consistent bk) (unmountMethod E) (\<lambda>_. consistent bk) (unless_crash (consistent bk))"
  unfolding unmountMethod_def by (intro ok_steps emitEvent_consistent) (simp add: fresh_event_def)

lemma ok_udev: "triple (consistent bk) (emitUdevStateChangeEvent E dev d) (\<lambda>_. consistent bk) (unless_crash (consistent bk))"
  unfolding emitUdevStateChangeEvent_def
  by (intro ok_steps emitEvent_consistent) (simp add: fresh_event_def)

lemma ok_noexcept:
  "triple (consistent bk) m (\<lambda>_. consistent bk) (unless_crash (consistent bk)) \<Longrightarrow>
   triple (consistent bk) (noexceptM m) (\<lambda>_. consistent bk) (unless_crash (consistent bk))"
  by (rule triple_noexcept)

lemma ok_destroy_secret: "triple (consistent bk) (destroy_secret E f) (\<lambda>_. consistent bk) (unless_crash (consistent bk))"
  unfolding destroy_secret_def by (intro triple_option ok_return ok_quiet quiet_volatile_destroy)

lemma ok_child_exit: "triple (consistent bk) (child_exit E i) (\<lambda>_. consistent bk) (unless_crash (consistent bk))"
  unfolding child_exit_def remove_child_def
  by (intro ok_steps ok_quiet quiet_process_reap ok_noexcept ok_modify emitEvent_consistent
      ok_destroy_secret) (simp_all add: fresh_event_def)

lemma ok_run_stop: "triple (consistent bk) (run_stop E) (\<lambda>_. consistent bk) (unless_crash (consistent bk))"
  unfolding run_stop_def
  by (intro ok_steps ok_quiet quiet_process_stop ok_modify) simp

lemma ok_run_posted: "triple (consistent bk) (run_posted E) (\<lambda>_. consistent bk) (unless_crash (consistent bk))"
proof -
  have "triple (consistent bk) (thenM (modifyMC (\<lambda>m. m\<lparr>posted_events := ps\<rparr>))
      (noexceptM (emitEvent E (case p of PostedUnmount \<Rightarrow> UnmountEvent
         | PostedStopped \<Rightarrow> SubprocessStoppedEvent)))) (\<lambda>_. consistent bk) (unless_crash (consistent bk))" for p ps
    by (intro ok_steps ok_modify ok_noexcept emitEvent_consistent)
      (simp_all add: fresh_event_def split: posted.split)
  then show ?thesis
    unfolding run_posted_def
    by (intro ok_get) (simp add: ok_return split: list.split)
qed

lemma ok_update_notification:
  "triple (consistent bk) (update_notification E f) (\<lambda>_. consistent bk) (unless_crash (consistent bk))"
proof -
  have send: "triple (consistent bk) (case v of None \<Rightarrow> returnM () | Some v \<Rightarrow> liftW (do_sys E (SendSignal a b c v)))
      (\<lambda>_. consistent bk) (unless_crash (consistent bk))" for v a b c
    by (intro triple_option ok_return ok_quiet at_most_do_sys) simp
  have "triple (consistent bk) (case f n of (n', v) \<Rightarrow>
        thenM (modifyMC (\<lambda>m. m\<lparr>completion := Some (svc, iface, n')\<rparr>))
          (case v of None \<Rightarrow> returnM () | Some v \<Rightarrow> liftW (do_sys E (SendSignal svc iface ''Completion'' v))))
     (\<lambda>_. consistent bk) (unless_crash (consistent bk))" for n svc iface
    by (auto split: prod.split intro!: ok_then ok_modify send)
  then show ?thesis
    unfolding update_notification_def
    by (intro ok_get) (auto simp: ok_return split: option.split prod.split)
qed

text \<open>The timer handler: it rearms the timer or gives it up for a posted unmount.\<close>

lemma ok_active_tick:
  "triple (settled bk (\<lambda>m. machine_ok m \<and> tick_timer m = Due)) (active_tick E limit now)
     (\<lambda>_. consistent bk) (unless_crash (consistent bk))"
proof -
  let ?R = "\<lambda>m. machine_ok m \<and> tick_timer m = Due"
  have get: "triple (settled bk ?R) (bindM (getMC f) g) Q X" if "\<And>x. triple (settled bk ?R) (g x) Q X"
    for f :: "machine \<Rightarrow> 'b" and g :: "'b \<Rightarrow> unit mprog" and Q X
    by (rule own_getMC, rule triple_pre [OF that]) (erule own_imp, simp)
  have stats: "triple (settled bk ?R) (liftW (getStats E n)) (\<lambda>_. settled bk ?R) (unless_crash (consistent bk))" for n
    by (rule own_quiet [OF quiet_getStats]) (rule unless_crashI, erule own_imp, simp)
  have stat: "triple (settled bk ?R) (case stats of Some s \<Rightarrow> whenM (s \<noteq> old) (modifyMC (\<lambda>m. m\<lparr>lastStats := s, lastAccess := now\<rparr>))
      | None \<Rightarrow> returnM ()) (\<lambda>_. settled bk ?R) X" for stats old X
    by (intro triple_option triple_when own_modifyMC triple_return) simp_all
  show ?thesis
    unfolding active_tick_def Let_def
    by (intro get triple_bind [OF stats] triple_then [OF stat] triple_if ok_modify)
      (simp_all add: machine_ok_tick)
qed

lemma ok_run_tick: "triple (consistent bk) (run_tick E limit now) (\<lambda>_. consistent bk) (unless_crash (consistent bk))"
  unfolding run_tick_def
proof (rule own_getMC)
  fix x
  have ready: "triple (settled bk (\<lambda>m. machine_ok m \<and> tick_timer m = Due \<and> C m))
      (active_tick E limit now) (\<lambda>_. consistent bk) (unless_crash (consistent bk))" for C
    by (rule triple_pre [OF ok_active_tick]) (erule own_imp, simp)
  have idle: "triple (settled bk (\<lambda>m. machine_ok m \<and> C m)) (returnM ()) (\<lambda>_. consistent bk) X" for C X
    by (rule triple_return) (erule own_imp, simp)
  show "triple (settled bk (\<lambda>m. machine_ok m \<and> (tick_timer m, stale_tick m) = x))
     (case x of (t, stale) \<Rightarrow> if stale then throwM (UB ''handler of a destroyed ActiveState'')
       else if t = Due then active_tick E limit now else returnM ())
     (\<lambda>_. consistent bk) (unless_crash (consistent bk))"
    by (cases x) (auto intro: ready idle triple_throw)
qed

lemma loop_step_consistent:
  "triple (consistent bk) (loop_step E limit op) (\<lambda>_. consistent bk) (unless_crash (consistent bk))"
proof (cases op)
  case TimerElapse
  have "triple (consistent bk) (modifyMC (\<lambda>m. if tick_timer m = Waiting then m\<lparr>tick_timer := Due\<rparr> else m))
      (\<lambda>_. consistent bk) (unless_crash (consistent bk))"
    by (rule ok_modify) (simp add: machine_ok_tick)
  with TimerElapse show ?thesis by (simp add: loop_step_def)
qed (simp_all add: loop_step_def ok_steps ok_proxyMount ok_legacyMount ok_unmountMethod ok_noexcept ok_udev
    ok_child_exit ok_run_stop ok_run_posted ok_run_tick ok_update_notification emitEvent_consistent
    fresh_event_def)

end
