(* ===== verification/Reachable.thy ===== *)
theory Reachable
  imports Invariant
begin

text \<open>
  The states a mount point can reach: it starts as the constructor leaves it, and every step of the
  event loop that does not end the process leads on. An interface for systems with an invariant, its
  interpretation on the state machine, and what the invariant says of the reachable states.
\<close>

section \<open>Reachable states\<close>

inductive run :: "('s \<Rightarrow> bool) \<Rightarrow> ('l \<Rightarrow> 's \<Rightarrow> 's \<Rightarrow> bool) \<Rightarrow> 's \<Rightarrow> bool"
  for init :: "'s \<Rightarrow> bool" and step :: "'l \<Rightarrow> 's \<Rightarrow> 's \<Rightarrow> bool" where
  begins: "init s \<Longrightarrow> run init step s"
| continues: "run init step s \<Longrightarrow> step l s s' \<Longrightarrow> run init step s'"

locale invariant_system =
  fixes init :: "'s \<Rightarrow> bool" and step :: "'l \<Rightarrow> 's \<Rightarrow> 's \<Rightarrow> bool" and good :: "'s \<Rightarrow> bool"
  assumes init_good: "init s \<Longrightarrow> good s"
    and step_good: "good s \<Longrightarrow> step l s s' \<Longrightarrow> good s'"
begin

lemma run_good: "run init step s \<Longrightarrow> good s"
  by (induction rule: run.induct) (auto intro: init_good step_good)

lemma run_property: "run init step s \<Longrightarrow> (\<And>t. good t \<Longrightarrow> P t) \<Longrightarrow> P s"
  by (blast intro: run_good)

end

section \<open>The steps of a mount point\<close>

text \<open>A step of the event loop from which the process goes on: it returns, or it answers a D-Bus
  request with an exception.\<close>

inductive machine_step :: "env \<Rightarrow> int \<Rightarrow> loop_op \<Rightarrow> st \<Rightarrow> st \<Rightarrow> bool"
  for E :: env and limit :: int where
  returns: "loop_step E limit op s = (Inr u, s') \<Longrightarrow> machine_step E limit op s s'"
| answers: "loop_step E limit op s = (Inl e, s') \<Longrightarrow> catchable e \<Longrightarrow> machine_step E limit op s s'"

inductive_cases machine_stepE: "machine_step E limit op s s'"

lemma machine_step_triple:
  assumes "machine_step E limit op s s'" and "triple P (loop_step E limit op) (\<lambda>_. Q) (unless_crash Q)" and "P s"
  shows "Q s'"
  using assms(1)
proof (rule machine_stepE)
  show "Q s'" if "loop_step E limit op s = (Inr u, s')" for u
    by (rule triple_Inr [OF assms(2,3) that])
  show "Q s'" if "loop_step E limit op s = (Inl e, s')" "catchable e" for e
    using triple_Inl [OF assms(2,3) that(1)] that(2) by (simp add: unless_crash_def)
qed

definition machine_init :: "string \<Rightarrow> mount_point \<Rightarrow> st \<Rightarrow> bool" where
  "machine_init name c s \<longleftrightarrow> mc s = make_machine name c \<and> hist (wd s) = []"

abbreviation reachable :: "env \<Rightarrow> int \<Rightarrow> string \<Rightarrow> mount_point \<Rightarrow> st \<Rightarrow> bool" where
  "reachable E limit name c \<equiv> run (machine_init name c) (machine_step E limit)"

text \<open>A mount point on its own: the others hold nothing.\<close>

definition no_books :: books where "no_books = (0, \<lambda>_. 0)"

lemma machine_init_consistent: "machine_init name c s \<Longrightarrow> consistent no_books s"
  by (simp add: machine_init_def own_def make_machine_def machine_ok_def held_process_def
      held_mounts_def mounted_def no_books_def)

interpretation mp: invariant_system "machine_init name c" "machine_step E limit" "consistent no_books"
  for name c E limit
proof unfold_locales
  show "consistent no_books s" if "machine_init name c s" for s
    using that by (rule machine_init_consistent)
  show "consistent no_books s'" if "consistent no_books s" "machine_step E limit op s s'" for op s s'
    by (rule machine_step_triple [OF that(2) loop_step_consistent that(1)])
qed

section \<open>A reachable state\<close>

definition sample_mount_point :: mount_point where
  "sample_mount_point = \<lparr>nbdDevice = nbd0, unixSocket = ''/s'', endPointId = '''', timeout = None,
     blocksize = None, remainingInactivityTimeout = None, verifyCertificate = True, mp_mode = proxy\<rparr>"

definition sample_start :: st where
  "sample_start = \<lparr>mc = make_machine ''Slot_0'' sample_mount_point, wd = initial_world None\<rparr>"

lemma sample_init: "machine_init ''Slot_0'' sample_mount_point sample_start"
  by (simp add: machine_init_def sample_start_def initial_world_def)

lemma liftW_do_sys: "liftW (do_sys E c) s = (Inr (), s\<lparr>wd := (wd s)\<lparr>hist := (c, ask E (hist (wd s)) c) # hist (wd s)\<rparr>\<rparr>)"
  by (simp add: liftW_def do_sys_result)

lemma register_all_returns:
  "\<exists>w'. register_all E ob i ns w = (Inr (), w') \<and> conf_text w' = conf_text w"
proof -
  have "\<exists>w'. forM ns (\<lambda>n. do_sys E (RegisterProperty ob i n)) w = (Inr (), w') \<and> conf_text w' = conf_text w" for w
  proof (induction ns arbitrary: w)
    case (Cons n ns)
    show ?case using Cons.IH [of "w\<lparr>hist := x # hist w\<rparr>" for x] by (simp add: then_do_sys)
  qed (simp add: returnM_def)
  from this [of "w\<lparr>hist := x # hist w\<rparr>" for x] show ?thesis by (simp add: register_all_def then_do_sys)
qed

lemma liftW_returns: "m (wd s) = (Inr a, w) \<Longrightarrow> liftW m s = (Inr a, s\<lparr>wd := w\<rparr>)"
  by (simp add: liftW_def)

lemma addServiceInterface_returns:
  "\<exists>w'. addServiceInterface E name c s =
     (Inr (), s\<lparr>mc := (mc s)\<lparr>completion :=
        Some (getObjectPath E c @ name, service_interface c, notification_new)\<rparr>, wd := w'\<rparr>) \<and>
     conf_text w' = conf_text (wd s)"
  by (simp add: addServiceInterface_def Let_def thenM_def bindM_def liftW_do_sys notificationInitialize_def
      modifyMC_def modifyM_def) (rule exI, rule conjI, rule refl, simp)

lemma enter_ready_fresh:
  assumes "mc_state (mc s) = InitialState" and "target (mc s) = None"
  shows "changeState E (Suc n) (ReadyState e) s =
     (Inr (), s\<lparr>mc := (mc s)\<lparr>mc_state := ReadyState e, config := (config (mc s))\<lparr>remainingInactivityTimeout := Some 0\<rparr>\<rparr>\<rparr>)"
  using assms
  by (simp add: set_state_def destroy_state_def destroy_gadget_def destroy_process_def
      whenM_def getMC_def modifyMC_def modifyM_def thenM_def bindM_def returnM_def onEnter_def
      ready_onEnter_def clear_target_def getM_def)

text \<open>A proxy mount point always becomes ready when it is registered.\<close>

lemma proxy_registers:
  assumes m: "mc s = make_machine name c" and "mp_mode c = proxy"
  shows "\<exists>s'. loop_step E limit Register s = (Inr (), s') \<and> mc_state (mc s') = ReadyState None \<and>
     conf_text (wd s') = conf_text (wd s) \<and> target (mc s') = None \<and> completion (mc s') \<noteq> None \<and>
     mp_mode (config (mc s')) = proxy"
proof -
  obtain w1 where w1: "addMountPointInterface E name c (wd s) = (Inr (), w1)" "conf_text w1 = conf_text (wd s)"
    unfolding addMountPointInterface_def using register_all_returns by blast
  obtain w2 where w2: "addProcessInterface E name c w1 = (Inr (), w2)" "conf_text w2 = conf_text w1"
    unfolding addProcessInterface_def using register_all_returns by blast
  define s2 where "s2 = s\<lparr>wd := w2\<rparr>"
  obtain w3 where w3: "addServiceInterface E name c s2 =
     (Inr (), s2\<lparr>mc := (mc s2)\<lparr>completion :=
        Some (getObjectPath E c @ name, service_interface c, notification_new)\<rparr>, wd := w3\<rparr>)"
    "conf_text w3 = conf_text (wd s2)"
    using addServiceInterface_returns by blast
  define s3 where "s3 = s2\<lparr>mc := (mc s2)\<lparr>completion :=
        Some (getObjectPath E c @ name, service_interface c, notification_new)\<rparr>, wd := w3\<rparr>"
  have ok: "ready_ok E s3 = (Inr (ReadyState None), s3)"
    by (simp add: ready_ok_def notify_client_def thenM_def bindM_def getMC_def getM_def s3_def notify_def
        notification_new_def modifyMC_def modifyM_def returnM_def)
  have "handleEvent E RegisterDbusEvent s = (Inr (Some (ReadyState None)), s3)"
    using assms(2) m w1 w2 w3 ok
    by (simp add: handleEvent_def initial_handle_def initial_register_def getMC_def bindM_def thenM_def
        getM_def whenM_def returnM_def make_machine_def Let_def liftW_def s2_def s3_def)
  moreover have "mc_state (mc s3) = InitialState" "target (mc s3) = None"
    and "completion (mc s3) \<noteq> None" "mp_mode (config (mc s3)) = proxy"
    using assms(2) m by (simp_all add: s3_def s2_def make_machine_def)
  moreover have "conf_text (wd s3) = conf_text (wd s)"
    using w1(2) w2(2) w3(2) by (simp add: s3_def s2_def)
  ultimately show ?thesis
    using enter_ready_fresh [of s3 E 1 None]
    by (simp add: loop_step_def emitEvent_def bindM_def numeral_2_eq_2 del: changeState.simps)
qed

lemma sample_ready:
  "\<exists>s. reachable quiet_env 0 ''Slot_0'' sample_mount_point s \<and> mc_state (mc s) = ReadyState None"
proof -
  from proxy_registers [of sample_start "''Slot_0''" sample_mount_point] obtain s where
    "loop_step quiet_env 0 Register sample_start = (Inr (), s)" and s: "mc_state (mc s) = ReadyState None"
    by (auto simp: sample_start_def sample_mount_point_def)
  then have "machine_step quiet_env 0 Register sample_start s" by (intro returns)
  moreover have "reachable quiet_env 0 ''Slot_0'' sample_mount_point sample_start"
    using sample_init by (rule begins)
  ultimately show ?thesis using s by (blast intro: continues)
qed


section \<open>What every reachable state satisfies\<close>

text \<open>
  C1. A mount point that is ready holds nothing: in every reachable state in \<^verbatim>\<open>ReadyState\<close>, whatever
  happened before (failed activations, refused and repeated requests, expired timers, ejections),
  there is no target, every child process that was started has been told to stop, every share that
  was mounted has been released, no timer runs, and the published inactivity timeout is 0.
\<close>

theorem ready_holds_nothing:
  assumes "reachable E limit name c s" and "mc_state (mc s) = ReadyState e"
  shows "target (mc s) = None \<and> running (hist (wd s)) = 0 \<and> (\<forall>d. mounted d (hist (wd s)) = 0) \<and>
     tick_timer (mc s) = NoTick \<and> prop_RemainingInactivityTimeout (mc s) = Some 0"
  using mp.run_good [OF assms(1)] assms(2)
  by (simp add: own_def no_books_def machine_ok_def held_process_def held_mounts_def prop_RemainingInactivityTimeout_def)

theorem ready_holds_nothing_witness:
  "\<exists>s. reachable quiet_env 0 ''Slot_0'' sample_mount_point s \<and> target (mc s) = None \<and>
     running (hist (wd s)) = 0 \<and> mounted ''/tmp/Slot_0'' (hist (wd s)) = 0"
proof -
  from sample_ready obtain s where
    s: "reachable quiet_env 0 ''Slot_0'' sample_mount_point s" "mc_state (mc s) = ReadyState None" by blast
  from ready_holds_nothing [OF s] s(1) show ?thesis by blast
qed




text \<open>
  The shape of the reachable states: the inactivity timer runs only in \<^verbatim>\<open>ActiveState\<close>; a
  \<^verbatim>\<open>DeactivatingState\<close> has given up its process and its gadget and never sits on both events it waits
  for; and once the mount point has left \<^verbatim>\<open>InitialState\<close> the notification of the client exists, so that
  no later handler dereferences a null pointer there.
\<close>

lemma reachable_shape:
  assumes "reachable E limit name c s"
  shows "(tick_timer (mc s) \<noteq> NoTick \<longrightarrow> (\<exists>p g. mc_state (mc s) = ActiveState p g)) \<and>
     (\<forall>p g u st. mc_state (mc s) = DeactivatingState p g u st \<longrightarrow>
        p = None \<and> g = None \<and> (u = None \<or> \<not> st)) \<and>
     (mc_state (mc s) \<noteq> InitialState \<longrightarrow> completion (mc s) \<noteq> None)"
  using mp.run_good [OF assms] by (auto simp: own_def machine_ok_def split: bstate.splits)

end
