(* ===== verification/Transitions.thy ===== *)
theory Transitions
  imports Reachable
begin

text \<open>
  How the state machine moves: the bound on the depth of \<^verbatim>\<open>changeState\<close>, the requests it refuses, the
  two events that end a deactivation, and the chart of its transitions.
\<close>

section \<open>The states that \<^verbatim>\<open>onEnter\<close> may ask for\<close>

text \<open>\<open>results A m\<close>: whatever \<open>m\<close> returns satisfies \<open>A\<close>.\<close>

definition results :: "('a \<Rightarrow> bool) \<Rightarrow> ('s, 'a) prog \<Rightarrow> bool" where
  "results A m \<longleftrightarrow> (\<forall>s r s'. m s = (Inr r, s') \<longrightarrow> A r)"

definition ready_or_none :: "bstate option \<Rightarrow> bool" where
  "ready_or_none r \<longleftrightarrow> (case r of None \<Rightarrow> True | Some s \<Rightarrow> \<exists>e. s = ReadyState e)"

abbreviation yields_ready :: "bstate option mprog \<Rightarrow> bool" where
  "yields_ready \<equiv> results ready_or_none"

named_theorems yields_rules \<open>rules for the results of an operation\<close>

lemma yieldsI: "(\<And>s r s'. m s = (Inr r, s') \<Longrightarrow> A r) \<Longrightarrow> results A m"
  by (simp add: results_def)

lemma yieldsD: "results A m \<Longrightarrow> m s = (Inr r, s') \<Longrightarrow> A r"
  unfolding results_def by blast

lemma yields_return: "A r \<Longrightarrow> results A (returnM r)"
  by (rule yieldsI) (simp add: returnM_def)

lemma yields_bind [yields_rules]: "(\<And>a. results A (f a)) \<Longrightarrow> results A (bindM m f)"
  by (rule yieldsI) (auto simp: bindM_def dest: yieldsD split: prod.splits sum.splits)

lemma yields_then [yields_rules]: "results A n \<Longrightarrow> results A (thenM m n)"
  by (simp add: thenM_def yields_bind)

lemma yields_none [yields_rules]: "yields_ready (returnM None)"
  by (rule yields_return) (simp add: ready_or_none_def)

lemma yields_throw [yields_rules]: "results A (throwM e)"
  by (rule yieldsI) (simp add: throwM_def)

lemma yields_if [yields_rules]:
  "(b \<Longrightarrow> results A m) \<Longrightarrow> (\<not> b \<Longrightarrow> results A n) \<Longrightarrow> results A (if b then m else n)"
  by simp

lemma yields_option [yields_rules]:
  "results A m \<Longrightarrow> (\<And>x. results A (f x)) \<Longrightarrow> results A (case o' of None \<Rightarrow> m | Some x \<Rightarrow> f x)"
  by (simp split: option.splits)

lemma yields_catch [yields_rules]:
  "results A m \<Longrightarrow> (\<And>e. results A (h e)) \<Longrightarrow> results A (catchM m h)"
  by (rule yieldsI) (auto simp: catchM_def dest: yieldsD split: prod.splits sum.splits)

lemma yields_target [yields_rules]: "(\<And>t. results A (f t)) \<Longrightarrow> results A (the_target f)"
  unfolding the_target_def by (intro yields_rules)

lemma yields_fail [yields_rules]: "yields_ready (fail_with E ec msg)"
  by (rule yieldsI)
    (auto simp: fail_with_def ready_error_def bindM_def thenM_def returnM_def ready_or_none_def
      split: prod.splits sum.splits)

lemma yields_spawned [yields_rules]: "yields_ready (spawned_or E ec msg ok)"
  unfolding spawned_or_def fail_with_def [symmetric] by (intro yields_rules)

lemma yields_handler [yields_rules]:
  "yields_ready (case e of ResourceError ec msg \<Rightarrow> fail_with E ec msg | _ \<Rightarrow> throwM e)"
  by (cases e) (simp_all add: yields_fail yields_throw)

lemma yields_case_pair [yields_rules]:
  "(\<And>x y. results A (f x y)) \<Longrightarrow> results A (case p of (x, y) \<Rightarrow> f x y)"
  by (cases p) simp

lemma yields_activating: "yields_ready (activating_onEnter E)"
proof -
  have local_file: "yields_ready (mountLocalFile E)"
    unfolding mountLocalFile_def Let_def by (intro yields_rules)
  have shares: "yields_ready (mountSmbShare E)" "yields_ready (mountNfsShare E)"
    unfolding mountSmbShare_def mountNfsShare_def catch_resource_error_def Let_def by (intro yields_rules)+
  have https: "yields_ready (mountHttpsShare E)"
    unfolding mountHttpsShare_def by (intro yields_rules)
  have url: "yields_ready (activate_url E n)" for n
    unfolding activate_url_def by (intro yields_rules local_file shares https)
  show ?thesis
    unfolding activating_onEnter_def activateProxyMode_def activateLegacyMode_def
    by (intro yields_rules local_file url)
qed

lemma yields_onEnter: "yields_ready (onEnter E)"
proof -
  have "yields_ready (case b of InitialState \<Rightarrow> returnM None | ReadyState _ \<Rightarrow> ready_onEnter E
       | ActivatingState _ _ \<Rightarrow> activating_onEnter E | ActiveState _ _ \<Rightarrow> active_onEnter
       | DeactivatingState p g u st \<Rightarrow> deactivating_onEnter E p g u st)" for b
    unfolding ready_onEnter_def active_onEnter_def deactivating_onEnter_def
    by (cases b) (simp_all add: yields_then yields_none yields_activating)
  then show ?thesis unfolding onEnter_def by (intro yields_bind)
qed

section \<open>The depth of \<^verbatim>\<open>changeState\<close>\<close>

text \<open>Entering \<^verbatim>\<open>ReadyState\<close> asks for nothing more, so that one call is enough.\<close>

lemma ready_onEnter_none: "ready_onEnter E s = (Inr r, s') \<Longrightarrow> r = None"
  by (auto simp: ready_onEnter_def thenM_def bindM_def returnM_def split: prod.splits sum.splits)

lemma keeps_liftW [keeps_rules]: "keeps (\<lambda>s. Q (mc s)) (liftW m)"
  by (simp add: keeps_def liftW_def split: prod.splits)

lemma keeps_getMC [keeps_rules]: "keeps P (getMC f)"
  unfolding getMC_def by (rule keeps_get)

lemma keeps_modifyMC: "(\<And>m. Q m \<Longrightarrow> Q (f m)) \<Longrightarrow> keeps (\<lambda>s. Q (mc s)) (modifyMC f)"
  unfolding modifyMC_def by (rule keeps_modify) simp

lemma keeps_destroy_state: "keeps (\<lambda>s. mc_state (mc s) = b) (destroy_state E old)"
  unfolding destroy_state_def destroy_gadget_def destroy_process_def
  by (intro keeps_rules keeps_modifyMC) simp_all

lemma destroy_state_keeps: "destroy_state E old s = (r, s') \<Longrightarrow> mc_state (mc s') = mc_state (mc s)"
  using keeps_result [OF keeps_destroy_state refl] by blast

text \<open>One call of \<^verbatim>\<open>changeState\<close> without the recursion: its answer is the state that \<^verbatim>\<open>onEnter\<close> asks for next.\<close>

definition enter :: "env \<Rightarrow> bstate \<Rightarrow> bstate option mprog" where
  "enter E newState =
     bindM (getMC mc_state) (\<lambda>old. thenM (set_state newState) (thenM (destroy_state E old) (onEnter E)))"

lemma changeState_enter:
  "changeState E (Suc n) b =
     bindM (enter E b) (\<lambda>next. case next of None \<Rightarrow> returnM () | Some b' \<Rightarrow> changeState E n b')"
  by (simp add: enter_def thenM_def bindM_assoc)

lemma enter_ready_none:
  assumes "enter E (ReadyState e) s = (Inr r, s')"
  shows "r = None"
proof -
  have set: "set_state (ReadyState e) s = (Inr (), s\<lparr>mc := (mc s)\<lparr>mc_state := ReadyState e\<rparr>\<rparr>)"
    by (simp add: set_state_def modifyMC_def modifyM_def)
  obtain q s1 where d: "destroy_state E (mc_state (mc s)) (s\<lparr>mc := (mc s)\<lparr>mc_state := ReadyState e\<rparr>\<rparr>) = (q, s1)"
    by fastforce
  from destroy_state_keeps [OF d] have "onEnter E s1 = ready_onEnter E s1"
    by (simp add: onEnter_def getMC_def)
  with assms d set show ?thesis
    by (auto simp: enter_def getMC_def thenM_def bindM_def split: sum.splits dest: ready_onEnter_none [OF sym])
qed

lemma enter_yields:
  assumes "enter E b s = (Inr (Some b'), s')"
  obtains e where "b' = ReadyState e"
proof -
  from assms obtain s1 where "onEnter E s1 = (Inr (Some b'), s')"
    by (auto simp: enter_def thenM_def bindM_def getMC_def split: sum.splits prod.splits)
  from yieldsD [OF yields_onEnter this] that show thesis
    by (auto simp: ready_or_none_def)
qed

text \<open>
  C14. \<^verbatim>\<open>changeState\<close>, which calls itself with whatever \<^verbatim>\<open>onEnter\<close> returns, never goes deeper than two
  calls, from any state of the machine and of the world: with a bound of two calls or more it is the new
  state, then the state this one asks for if it asks for one, and no more. A bound that is reached would
  show as the exception \<open>no_fuel\<close>, which the right-hand side does not have, so no event can drive it into
  unbounded recursion.
\<close>

theorem changeState_depth:
  "changeState E (Suc (Suc n)) b =
     bindM (enter E b) (\<lambda>next.
       case next of
         None \<Rightarrow> returnM ()
       | Some b' \<Rightarrow> thenM (enter E b') (returnM ()))"
proof (rule ext)
  fix s
  have second: "changeState E (Suc n) (ReadyState e) s' = thenM (enter E (ReadyState e)) (returnM ()) s'" for e s'
    unfolding changeState_enter thenM_def
    by (cases "enter E (ReadyState e) s'") (auto simp: bindM_def dest: enter_ready_none split: sum.splits)
  show "changeState E (Suc (Suc n)) b s =
     bindM (enter E b) (\<lambda>next. case next of None \<Rightarrow> returnM () | Some b' \<Rightarrow> thenM (enter E b') (returnM ())) s"
    unfolding changeState_enter [of E "Suc n"]
    by (cases "enter E b s") (auto simp: bindM_def second simp del: changeState.simps split: sum.splits option.splits elim: enter_yields)
qed

section \<open>Refused requests\<close>

lemma emitEvent_throws: "handleEvent E e s = (Inl x, s') \<Longrightarrow> emitEvent E e s = (Inl x, s')"
  by (simp add: emitEvent_def bindM_def)

lemma handleEvent_state:
  "handleEvent E e s =
     (case mc_state (mc s) of
        InitialState \<Rightarrow> initial_handle E e s
      | ReadyState _ \<Rightarrow> ready_handle E e s
      | ActivatingState p g \<Rightarrow> activating_handle E p g e s
      | ActiveState p g \<Rightarrow> active_handle E p g e s
      | DeactivatingState p g u st \<Rightarrow> deactivating_handle E p g u st e s)"
  by (simp add: handleEvent_def getMC_def split: bstate.splits)

lemma refused_mount:
  assumes "\<not> in_ready (mc s)" and "\<And>t. handleEvent E (MountEvent t) s = (Inl x, s)"
  shows "proxyMount E info s = (Inl x, s)"
    and "legacyMount E url rw None info s = (Inl x, s)"
    and "\<exists>y. legacyMount E url rw secret info s = (Inl y, s)"
  using assms(1) emitEvent_throws [OF assms(2)]
  by (auto simp: proxyMount_def legacyMount_def getMC_def whenM_def thenM_def bindM_def returnM_def
      getM_def liftE_def split: option.split prod.split sum.split)

lemma refused_unmount:
  "handleEvent E UnmountEvent s = (Inl x, s) \<Longrightarrow> unmountMethod E s = (Inl x, s)"
  by (simp add: unmountMethod_def thenM_def bindM_def emitEvent_throws)

text \<open>
  C8. A request that does not fit the state is refused with the documented error and changes nothing,
  neither in the machine (the additional information of the running redirection included) nor in the
  world: unmounting in \<^verbatim>\<open>ReadyState\<close> is EPERM; while the mount point is activating or deactivating
  mounting and unmounting are EBUSY; in \<^verbatim>\<open>ActiveState\<close> a second mount is EPERM. A legacy mount that comes
  with credentials may instead be refused because those are malformed, and again changes nothing.
\<close>

theorem requests_refused:
  "case mc_state (mc s) of
     ReadyState _ \<Rightarrow>
       unmountMethod E s = (Inl (SdBusError EPERM ''Operation not permitted in ready state''), s)
   | ActiveState _ _ \<Rightarrow>
       (let refused = (Inl (SdBusError EPERM ''Operation not permitted in active state''), s) in
        proxyMount E info s = refused \<and> legacyMount E url rw None info s = refused \<and>
        (\<exists>x. legacyMount E url rw secret info s = (Inl x, s)))
   | InitialState \<Rightarrow> True
   | _ \<Rightarrow>
       (let refused = (Inl (SdBusError EBUSY ''Resource is busy''), s) in
        unmountMethod E s = refused \<and> proxyMount E info s = refused \<and>
        legacyMount E url rw None info s = refused \<and>
        (\<exists>x. legacyMount E url rw secret info s = (Inl x, s)))"
proof (cases "mc_state (mc s)")
  case (ReadyState e)
  then show ?thesis
    by (simp add: refused_unmount handleEvent_state ready_handle_def throwM_def)
next
  case (ActiveState p g)
  then show ?thesis
    by (simp add: refused_mount handleEvent_state active_handle_def throwM_def in_ready_def)
next
  case (ActivatingState p g)
  then show ?thesis
    by (simp add: refused_mount refused_unmount handleEvent_state activating_handle_def throwM_def in_ready_def)
next
  case (DeactivatingState p g u st)
  then show ?thesis
    by (simp add: refused_mount refused_unmount handleEvent_state deactivating_handle_def throwM_def in_ready_def)
qed simp

section \<open>The end of a deactivation\<close>

lemma destroy_mount_returns:
  "\<exists>w'. destroy_mount E d s = (Inr (), s\<lparr>wd := w'\<rparr>)"
proof (cases d)
  case None
  then show ?thesis by (auto simp: destroy_mount_def returnM_def intro: exI [of _ "wd s"])
next
  case (Some dir)
  then show ?thesis
    by (simp add: destroy_mount_def liftW_def mount_destroy_def directory_destroy_def then_do_sys
        do_sys_result) (rule exI, rule refl)
qed

lemma clear_target_returns:
  "\<exists>w'. clear_target E s = (Inr (), s\<lparr>mc := (mc s)\<lparr>target := None\<rparr>, wd := w'\<rparr>)"
proof (cases "target (mc s)")
  case None
  then show ?thesis
    by (auto simp: clear_target_def getMC_def modifyMC_def modifyM_def thenM_def bindM_def returnM_def
        intro!: exI [of _ "wd s"])
next
  case (Some t)
  let ?s = "s\<lparr>mc := (mc s)\<lparr>target := None\<rparr>\<rparr>"
  obtain w1 where w1: "destroy_mount E (mountPointNfs t) ?s = (Inr (), ?s\<lparr>wd := w1\<rparr>)"
    using destroy_mount_returns by blast
  obtain w2 where w2: "destroy_mount E (mountPoint t) (?s\<lparr>wd := w1\<rparr>) = (Inr (), ?s\<lparr>wd := w2\<rparr>)"
    using destroy_mount_returns [of E "mountPoint t" "?s\<lparr>wd := w1\<rparr>"] by auto
  from w1 w2 Some show ?thesis
    by (auto simp: clear_target_def getMC_def modifyMC_def modifyM_def thenM_def bindM_def)
qed

text \<open>The machine after a deactivation that was given up to \<^verbatim>\<open>ReadyState\<close>.\<close>

definition made_ready :: "(int \<times> string) option \<Rightarrow> machine \<Rightarrow> machine" where
  "made_ready e m = m\<lparr>mc_state := ReadyState e, target := None,
     config := (config m)\<lparr>remainingInactivityTimeout := Some 0\<rparr>\<rparr>"

lemma enter_ready_returns:
  assumes "members_of (mc_state (mc s)) = (None, None)" and "\<nexists>p g. mc_state (mc s) = ActiveState p g"
  shows "\<exists>w'. changeState E (Suc n) (ReadyState e) s = (Inr (), \<lparr>mc = made_ready e (mc s), wd = w'\<rparr>)"
proof -
  let ?s = "s\<lparr>mc := (mc s)\<lparr>mc_state := ReadyState e\<rparr>\<rparr>"
  have gone: "destroy_state E (mc_state (mc s)) ?s = (Inr (), ?s)"
    using assms
    by (cases "mc_state (mc s)")
      (simp_all add: destroy_state_def destroy_gadget_def destroy_process_def whenM_def thenM_def
        bindM_def returnM_def)
  obtain w' where "clear_target E ?s = (Inr (), ?s\<lparr>mc := (mc ?s)\<lparr>target := None\<rparr>, wd := w'\<rparr>)"
    using clear_target_returns by blast
  then show ?thesis
    using gone
    by (auto simp: set_state_def modifyMC_def modifyM_def getMC_def thenM_def bindM_def onEnter_def
        ready_onEnter_def getM_def returnM_def made_ready_def intro!: exI [of _ w'])
qed

lemma notify_client_returns:
  assumes "completion (mc s) \<noteq> None"
  shows "\<exists>x w'. notify_client E ec s = (Inr (), s\<lparr>mc := (mc s)\<lparr>completion := Some x\<rparr>, wd := w'\<rparr>)"
proof -
  from assms obtain svc iface n where c: "completion (mc s) = Some (svc, iface, n)" by auto
  obtain n' v where n: "notify ec n = (n', v)" by fastforce
  have "\<exists>w'. (case v of None \<Rightarrow> returnM () | Some v \<Rightarrow> liftW (do_sys E (SendSignal svc iface ''Completion'' v))) t =
      (Inr (), t\<lparr>wd := w'\<rparr>)" for t
    by (cases v) (auto simp: returnM_def liftW_do_sys intro: exI [of _ "wd t"])
  then obtain w' where "(case v of None \<Rightarrow> returnM () | Some v \<Rightarrow>
      liftW (do_sys E (SendSignal svc iface ''Completion'' v)))
      (s\<lparr>mc := (mc s)\<lparr>completion := Some (svc, iface, n')\<rparr>\<rparr>) =
      (Inr (), s\<lparr>mc := (mc s)\<lparr>completion := Some (svc, iface, n')\<rparr>, wd := w'\<rparr>)" by fastforce
  with c n have "notify_client E ec s =
      (Inr (), s\<lparr>mc := (mc s)\<lparr>completion := Some (svc, iface, n')\<rparr>, wd := w'\<rparr>)"
    by (simp add: notify_client_def getMC_def modifyMC_def modifyM_def thenM_def bindM_def)
  then show ?thesis by blast
qed

definition outcome_of :: "state_change \<Rightarrow> (int \<times> string) option" where
  "outcome_of d = (if d = removed then None else Some (ECONNREFUSED, ''Not expected udev state''))"

lemma evaluate_both:
  assumes "completion (mc s) \<noteq> None"
  shows "\<exists>x w'. evaluate E (Some d) True s =
     (Inr (Some (ReadyState (outcome_of d))), s\<lparr>mc := (mc s)\<lparr>completion := Some x\<rparr>, wd := w'\<rparr>)"
proof (cases "d = removed")
  case True
  from notify_client_returns [OF assms, of E 0] obtain x w' where
    "notify_client E 0 s = (Inr (), s\<lparr>mc := (mc s)\<lparr>completion := Some x\<rparr>, wd := w'\<rparr>)" by blast
  with True show ?thesis
    by (intro exI [of _ x] exI [of _ w'])
      (simp add: evaluate_def ready_ok_def thenM_def bindM_def returnM_def outcome_of_def)
next
  case False
  from notify_client_returns [OF assms, of E ECONNREFUSED] obtain x w' where
    "notify_client E ECONNREFUSED s = (Inr (), s\<lparr>mc := (mc s)\<lparr>completion := Some x\<rparr>, wd := w'\<rparr>)" by blast
  with False show ?thesis
    by (intro exI [of _ x] exI [of _ w'])
      (simp add: evaluate_def fail_with_def ready_error_def thenM_def bindM_def returnM_def outcome_of_def)
qed

text \<open>The second of the two events, whichever it is.\<close>

lemma last_event:
  assumes "completion (mc s) \<noteq> None"
    and "handleEvent E e s = thenM (set_state (DeactivatingState None None (Some d) True)) (evaluate E (Some d) True) s"
  shows "\<exists>x w'. emitEvent E e s =
     (Inr (), \<lparr>mc = made_ready (outcome_of d) ((mc s)\<lparr>completion := Some x\<rparr>), wd = w'\<rparr>)"
proof -
  let ?s = "s\<lparr>mc := (mc s)\<lparr>mc_state := DeactivatingState None None (Some d) True\<rparr>\<rparr>"
  from assms(1) have "completion (mc ?s) \<noteq> None" by simp
  from evaluate_both [OF this, of E d] obtain x w' where
    "evaluate E (Some d) True ?s =
      (Inr (Some (ReadyState (outcome_of d))), ?s\<lparr>mc := (mc ?s)\<lparr>completion := Some x\<rparr>, wd := w'\<rparr>)" by blast
  with assms(2) have h: "handleEvent E e s =
      (Inr (Some (ReadyState (outcome_of d))), ?s\<lparr>mc := (mc ?s)\<lparr>completion := Some x\<rparr>, wd := w'\<rparr>)"
    by (simp add: set_state_def modifyMC_def modifyM_def thenM_def bindM_def)
  obtain w2 where "changeState E 2 (ReadyState (outcome_of d)) (?s\<lparr>mc := (mc ?s)\<lparr>completion := Some x\<rparr>, wd := w'\<rparr>) =
      (Inr (), \<lparr>mc = made_ready (outcome_of d) ((mc ?s)\<lparr>completion := Some x\<rparr>), wd = w2\<rparr>)"
    using enter_ready_returns [of "?s\<lparr>mc := (mc ?s)\<lparr>completion := Some x\<rparr>, wd := w'\<rparr>" E 1 "outcome_of d"]
    by (auto simp: numeral_2_eq_2 simp del: changeState.simps)
  with h have "emitEvent E e s =
      (Inr (), \<lparr>mc = made_ready (outcome_of d) ((mc s)\<lparr>completion := Some x\<rparr>), wd = w2\<rparr>)"
    by (simp add: emitEvent_def bindM_def made_ready_def del: changeState.simps)
  then show ?thesis by blast
qed

lemma first_event:
  assumes "mc_state (mc s) = DeactivatingState None None None False"
  shows "emitEvent E (UdevStateChangeEvent d) s =
      (Inr (), s\<lparr>mc := (mc s)\<lparr>mc_state := DeactivatingState None None (Some d) False\<rparr>\<rparr>)"
    and "emitEvent E SubprocessStoppedEvent s =
      (Inr (), s\<lparr>mc := (mc s)\<lparr>mc_state := DeactivatingState None None None True\<rparr>\<rparr>)"
  using assms
  by (simp_all add: emitEvent_def bindM_def handleEvent_state deactivating_handle_def set_state_def
      modifyMC_def modifyM_def thenM_def evaluate_def returnM_def)

lemma second_event:
  "mc_state (mc s) = DeactivatingState None None (Some d) False \<Longrightarrow>
   handleEvent E SubprocessStoppedEvent s =
     thenM (set_state (DeactivatingState None None (Some d) True)) (evaluate E (Some d) True) s"
  "mc_state (mc s) = DeactivatingState None None None True \<Longrightarrow>
   handleEvent E (UdevStateChangeEvent d) s =
     thenM (set_state (DeactivatingState None None (Some d) True)) (evaluate E (Some d) True) s"
  by (simp_all add: handleEvent_state deactivating_handle_def)

lemma emit_same:
  assumes "handleEvent E e s = handleEvent E e' t"
  shows "emitEvent E e s = emitEvent E e' t"
  using assms by (simp add: emitEvent_def bindM_def)

text \<open>
  C7. A deactivation ends in \<^verbatim>\<open>ReadyState\<close> once both the device and the child process have answered, in
  whatever order: the two orders lead to the very same state of the machine and of the world; nothing
  is thrown; the target, with its mounts, is gone; and the state says why if the device reported
  something else than its removal.
\<close>

theorem deactivation_completes:
  assumes "machine_ok (mc s)" and "mc_state (mc s) = DeactivatingState p g None False"
  shows "thenM (emitEvent E (UdevStateChangeEvent d)) (emitEvent E SubprocessStoppedEvent) s =
       thenM (emitEvent E SubprocessStoppedEvent) (emitEvent E (UdevStateChangeEvent d)) s \<and>
     (\<exists>s'. thenM (emitEvent E (UdevStateChangeEvent d)) (emitEvent E SubprocessStoppedEvent) s = (Inr (), s') \<and>
        target (mc s') = None \<and>
        mc_state (mc s') =
          ReadyState (if d = removed then None else Some (ECONNREFUSED, ''Not expected udev state'')))"
proof -
  from assms have s: "mc_state (mc s) = DeactivatingState None None None False" "completion (mc s) \<noteq> None"
    by (auto simp: machine_ok_def)
  let ?a = "s\<lparr>mc := (mc s)\<lparr>mc_state := DeactivatingState None None (Some d) False\<rparr>\<rparr>"
  let ?b = "s\<lparr>mc := (mc s)\<lparr>mc_state := DeactivatingState None None None True\<rparr>\<rparr>"
  have ab: "handleEvent E SubprocessStoppedEvent ?a = handleEvent E (UdevStateChangeEvent d) ?b"
    by (simp add: second_event set_state_def modifyMC_def modifyM_def thenM_def)
  have orders: "thenM (emitEvent E (UdevStateChangeEvent d)) (emitEvent E SubprocessStoppedEvent) s =
      emitEvent E SubprocessStoppedEvent ?a"
    "thenM (emitEvent E SubprocessStoppedEvent) (emitEvent E (UdevStateChangeEvent d)) s =
      emitEvent E (UdevStateChangeEvent d) ?b"
    by (simp_all add: thenM_def bindM_def first_event [OF s(1)])
  have "\<exists>x w'. emitEvent E SubprocessStoppedEvent ?a =
      (Inr (), \<lparr>mc = made_ready (outcome_of d) ((mc ?a)\<lparr>completion := Some x\<rparr>), wd = w'\<rparr>)"
    by (rule last_event) (simp_all add: s(2) second_event(1))
  then show ?thesis
    unfolding orders emit_same [OF ab] by (auto simp: made_ready_def outcome_of_def)
qed

theorem deactivation_completes_witness:
  "\<exists>s'. thenM (emitEvent quiet_env (UdevStateChangeEvent removed)) (emitEvent quiet_env SubprocessStoppedEvent)
       (sample_start\<lparr>mc := (mc sample_start)\<lparr>mc_state := DeactivatingState None None None False,
          completion := Some (''/p'', ''i'', notification_new)\<rparr>\<rparr>) = (Inr (), s') \<and>
     target (mc s') = None \<and> mc_state (mc s') = ReadyState None"
proof -
  let ?s = "sample_start\<lparr>mc := (mc sample_start)\<lparr>mc_state := DeactivatingState None None None False,
          completion := Some (''/p'', ''i'', notification_new)\<rparr>\<rparr>"
  have "machine_ok (mc ?s)" by (simp add: machine_ok_def sample_start_def make_machine_def)
  moreover have "mc_state (mc ?s) = DeactivatingState None None None False" by simp
  ultimately show ?thesis
    using conjunct2 [OF deactivation_completes [of ?s None None quiet_env removed]] by simp
qed

end
