(* ===== verification/Chart.thy ===== *)
theory Chart
  imports Transitions
begin

text \<open>
  The chart of the state machine, as the documentation of the service draws it: five phases, and the
  moves each event may make. Every step of the event loop is a move of the chart or stays in its phase.
\<close>

section \<open>The chart\<close>

datatype phase = Initial | Ready | Activating | Active | Deactivating

fun phase_of :: "bstate \<Rightarrow> phase" where
  "phase_of InitialState = Initial"
| "phase_of (ReadyState _) = Ready"
| "phase_of (ActivatingState _ _) = Activating"
| "phase_of (ActiveState _ _) = Active"
| "phase_of (DeactivatingState _ _ _ _) = Deactivating"

inductive edge :: "event \<Rightarrow> phase \<Rightarrow> phase \<Rightarrow> bool" where
  registered: "edge RegisterDbusEvent Initial Ready"
| mount: "edge (MountEvent t) Ready Activating"
| mount_failed: "edge (MountEvent t) Ready Ready"
| inserted_ok: "edge (UdevStateChangeEvent inserted) Activating Active"
| insert_failed: "edge (UdevStateChangeEvent inserted) Activating Ready"
| device_lost: "d \<noteq> inserted \<Longrightarrow> edge (UdevStateChangeEvent d) Activating Deactivating"
| ended_early: "edge SubprocessStoppedEvent Activating Ready"
| active_udev: "edge (UdevStateChangeEvent d) Active Deactivating"
| active_stopped: "edge SubprocessStoppedEvent Active Deactivating"
| active_unmount: "edge UnmountEvent Active Deactivating"
| last_udev: "edge (UdevStateChangeEvent d) Deactivating Ready"
| last_stopped: "edge SubprocessStoppedEvent Deactivating Ready"

inductive_simps edge_simps:
  "edge RegisterDbusEvent p q" "edge (MountEvent t) p q" "edge UnmountEvent p q"
  "edge SubprocessStoppedEvent p q" "edge (UdevStateChangeEvent d) p q"

text \<open>The events that a step of the event loop may emit.\<close>

inductive triggers :: "loop_op \<Rightarrow> event \<Rightarrow> bool" where
  "triggers Register RegisterDbusEvent"
| "triggers (ProxyMount info) (MountEvent None)"
| "triggers (LegacyMount url rw secret info) (MountEvent (Some t))"
| "triggers UnmountCall UnmountEvent"
| "triggers (Udev dev d) (UdevStateChangeEvent d)"
| "triggers (ChildExit i) SubprocessStoppedEvent"
| "triggers RunPosted UnmountEvent"
| "triggers RunPosted SubprocessStoppedEvent"

section \<open>Operations that stay in the phase\<close>

abbreviation in_phase :: "phase \<Rightarrow> st \<Rightarrow> bool" where
  "in_phase x \<equiv> (\<lambda>s. phase_of (mc_state (mc s)) = x)"

lemma stay_modify:
  "(\<And>m. phase_of (mc_state (f m)) = phase_of (mc_state m)) \<Longrightarrow> keeps (in_phase x) (modifyMC f)"
  by (rule keeps_modifyMC) simp

lemma stay_liftW [keeps_rules]: "keeps (in_phase x) (liftW m)"
  by (rule keeps_liftW)

lemma stay_pair [keeps_rules]: "(\<And>a b. keeps P (f a b)) \<Longrightarrow> keeps P (case p of (a, b) \<Rightarrow> f a b)"
  by (cases p) simp

lemma stay_target [keeps_rules]: "(\<And>t. keeps P (f t)) \<Longrightarrow> keeps P (the_target f)"
  unfolding the_target_def by (intro keeps_rules)

lemma stay_set_state [keeps_rules]: "phase_of b = x \<Longrightarrow> keeps (in_phase x) (set_state b)"
  unfolding set_state_def by (rule keeps_modifyMC) simp

lemma phase_with_process [simp]: "phase_of (with_process p b) = phase_of b"
  by (cases b) simp_all

lemma stay_notify [keeps_rules]: "keeps (in_phase x) (notify_client E ec)"
  unfolding notify_client_def by (intro keeps_rules stay_modify) simp

lemma stay_notificationStart [keeps_rules]: "keeps (in_phase x) notificationStart"
  unfolding notificationStart_def by (intro keeps_rules stay_modify) simp

lemma stay_destroy [keeps_rules]:
  "keeps (in_phase x) (destroy_process E p)" "keeps (in_phase x) (destroy_gadget E g)"
  "keeps (in_phase x) (destroy_secret E f)" "keeps (in_phase x) (destroy_mount E d)"
  "keeps (in_phase x) (destroy_state E b)"
  unfolding destroy_state_def destroy_process_def destroy_gadget_def destroy_secret_def destroy_mount_def
  by (intro keeps_rules stay_modify; simp)+

lemma stay_target_ops [keeps_rules]:
  "keeps (in_phase x) (clear_target E)" "keeps (in_phase x) (set_target E t)"
  "keeps (in_phase x) (modify_target f)" "keeps (in_phase x) (set_process p)"
  unfolding set_target_def clear_target_def modify_target_def set_process_def
  by (intro keeps_rules stay_modify; simp)+

lemma stay_spawn [keeps_rules]: "keeps (in_phase x) (process_spawn E app args sec)"
  unfolding process_spawn_def by (intro keeps_rules stay_modify) simp

lemma stay_ready [keeps_rules]:
  "keeps (in_phase x) (ready_ok E)" "keeps (in_phase x) (ready_error E ec msg)"
  "keeps (in_phase x) (fail_with E ec msg)" "keeps (in_phase x) (spawned_or E ec msg ok)"
  unfolding spawned_or_def fail_with_def ready_ok_def ready_error_def by (intro keeps_rules)+

lemma stay_nbdkit [keeps_rules]:
  "keeps (in_phase x) (spawnNbdKit E sec ps)"
  unfolding spawnNbdKit_def spawn_nbdkit_body_def by (intro keeps_rules)

lemma stay_nbdkit_of [keeps_rules]:
  "keeps (in_phase x) (spawnNbdKit_file E f)" "keeps (in_phase x) (spawnNbdKit_url E url)"
  unfolding spawnNbdKit_file_def spawnNbdKit_url_def by (intro keeps_rules)+

lemma stay_handler [keeps_rules]:
  "keeps (in_phase x) (case e of ResourceError ec msg \<Rightarrow> fail_with E ec msg | _ \<Rightarrow> throwM e)"
  by (cases e) (simp_all add: keeps_throw stay_ready)

lemma stay_media [keeps_rules]:
  "keeps (in_phase x) (mountLocalFile E)" "keeps (in_phase x) (mountSmbShare E)"
  "keeps (in_phase x) (mountNfsShare E)" "keeps (in_phase x) (mountHttpsShare E)"
  unfolding mountLocalFile_def mountSmbShare_def mountNfsShare_def mountHttpsShare_def
    catch_resource_error_def Let_def
  by (intro keeps_rules)+

lemma stay_activating: "keeps (in_phase x) (activating_onEnter E)"
  unfolding activating_onEnter_def activateProxyMode_def activateLegacyMode_def activate_url_def
  by (intro keeps_rules stay_modify) simp

lemma stay_register: "keeps (in_phase x) (initial_register E)"
  unfolding initial_register_def addServiceInterface_def notificationInitialize_def Let_def
  by (intro keeps_rules stay_modify) simp_all

lemma stay_move_out [keeps_rules]: "keeps (in_phase x) move_out"
proof -
  have "phase_of (case b of ActivatingState p g \<Rightarrow> ActivatingState None None
      | ActiveState p g \<Rightarrow> ActiveState None None | s \<Rightarrow> s) = phase_of b" for b
    by (cases b) simp_all
  then show ?thesis unfolding move_out_def by (intro stay_modify) simp
qed

lemma stay_deactivate [keeps_rules]: "keeps (in_phase x) (make_deactivating p g e)"
  unfolding make_deactivating_def by (intro keeps_rules)

section \<open>The results of the handlers\<close>

text \<open>A handler of \<open>e\<close> in the phase \<open>x\<close> asks only for moves of the chart, and for an activation only where
  its failure is a move of the chart as well.\<close>

definition allowed :: "event \<Rightarrow> phase \<Rightarrow> bstate option \<Rightarrow> bool" where
  "allowed e x r \<longleftrightarrow> (case r of None \<Rightarrow> True
     | Some b \<Rightarrow> edge e x (phase_of b) \<and> (phase_of b = Activating \<longrightarrow> edge e x Ready))"

lemma allowed_none [simp]: "allowed e x None"
  by (simp add: allowed_def)

lemma results_fail: "(\<And>b. A (Some (ReadyState b))) \<Longrightarrow> results A (fail_with E ec msg)"
  by (rule yieldsI)
    (auto simp: fail_with_def ready_error_def bindM_def thenM_def returnM_def split: prod.splits sum.splits)

lemma results_ok: "A (Some (ReadyState None)) \<Longrightarrow> results A (bindM (ready_ok E) (\<lambda>b. returnM (Some b)))"
  by (rule yieldsI) (auto simp: ready_ok_def bindM_def thenM_def returnM_def split: prod.splits sum.splits)

lemma results_error:
  "(\<And>b. A (Some (ReadyState b))) \<Longrightarrow> results A (bindM (ready_error E ec msg) (\<lambda>b. returnM (Some b)))"
  using results_fail [of A E ec msg] by (simp add: fail_with_def)

lemma results_deactivate:
  "(\<And>p g u st. A (Some (DeactivatingState p g u st))) \<Longrightarrow> results A (some_state (make_deactivating p g e))"
  by (rule yieldsI)
    (auto simp: some_state_def make_deactivating_def bindM_def thenM_def returnM_def
      split: prod.splits sum.splits option.splits event.splits)

lemma handler_results:
  "results (allowed e Initial) (initial_handle E e)"
  "results (allowed e Ready) (ready_handle E e)"
  "results (allowed e Activating) (activating_handle E p g e)"
  "results (allowed e Active) (active_handle E p g e)"
  "results (allowed e Deactivating) (deactivating_handle E p g u st e)"
proof -
  have register: "results (allowed RegisterDbusEvent Initial) (initial_register E)"
    unfolding initial_register_def Let_def
    by (intro yields_rules results_ok results_error) (simp_all add: allowed_def edge_simps)
  show "results (allowed e Initial) (initial_handle E e)"
    by (cases e) (simp_all add: initial_handle_def register yields_return)
  show "results (allowed e Ready) (ready_handle E e)"
    by (cases e) (simp_all add: ready_handle_def yields_then yields_return yields_throw allowed_def edge_simps)
  have udev: "results (allowed (UdevStateChangeEvent d) Activating) (activating_udev E p g d)" for d
    unfolding activating_udev_def
    by (intro yields_if yields_bind yields_then yields_return results_fail results_deactivate)
      (simp_all add: allowed_def edge_simps)
  have stopped: "results (allowed SubprocessStoppedEvent Activating) (activating_stopped E)"
    unfolding activating_stopped_def
    by (intro yields_bind yields_if results_fail) (simp_all add: allowed_def edge_simps)
  show "results (allowed e Activating) (activating_handle E p g e)"
    by (cases e) (simp_all add: activating_handle_def udev stopped yields_throw)
  have deactivate: "results (allowed e Active) (some_state (make_deactivating p g e'))"
    if "edge e Active Deactivating" for e'
    using that by (intro results_deactivate) (simp add: allowed_def)
  show "results (allowed e Active) (active_handle E p g e)"
    using deactivate by (cases e) (simp_all add: active_handle_def yields_throw yields_then edge_simps)
  have ends: "results (allowed e Deactivating) (evaluate E u st)" if "edge e Deactivating Ready" for u st
    using that unfolding evaluate_def
    by (intro yields_option yields_if results_ok results_fail yields_return) (simp_all add: allowed_def)
  show "results (allowed e Deactivating) (deactivating_handle E p g u st e)"
    using ends by (cases e) (simp_all add: deactivating_handle_def yields_throw yields_then edge_simps)
qed

lemma handler_stays:
  "keeps (in_phase x) (initial_handle E e)" "keeps (in_phase x) (ready_handle E e)"
  "keeps (in_phase Activating) (activating_handle E p g e)" "keeps (in_phase x) (active_handle E p g e)"
  "keeps (in_phase Deactivating) (deactivating_handle E p g u st e)"
proof -
  show "keeps (in_phase x) (initial_handle E e)"
    by (cases e) (simp_all add: initial_handle_def keeps_return stay_register)
  show "keeps (in_phase x) (ready_handle E e)"
    by (cases e) (auto simp: ready_handle_def intro!: keeps_rules)
  have fields: "keeps (in_phase y) (modifyMC (\<lambda>m. m\<lparr>lastAccess := 0, lastStats := ''''\<rparr>))" for y
    by (rule stay_modify) simp
  have udev: "keeps (in_phase Activating) (activating_udev E p g d)" for d
    unfolding activating_udev_def some_state_def by (intro keeps_rules fields) simp
  have stopped: "keeps (in_phase Activating) (activating_stopped E)"
    unfolding activating_stopped_def by (intro keeps_rules)
  show "keeps (in_phase Activating) (activating_handle E p g e)"
    by (cases e) (simp_all add: activating_handle_def udev stopped keeps_throw)
  show "keeps (in_phase x) (active_handle E p g e)"
    by (cases e) (auto simp: active_handle_def some_state_def intro!: keeps_rules)
  have "keeps (in_phase Deactivating) (evaluate E u st)" for u st
    unfolding evaluate_def by (intro keeps_rules)
  then show "keeps (in_phase Deactivating) (deactivating_handle E p g u st e)"
    by (cases e) (auto simp: deactivating_handle_def intro!: keeps_rules)
qed

section \<open>Moves\<close>

definition moved :: "event \<Rightarrow> phase \<Rightarrow> st \<Rightarrow> bool" where
  "moved e x s \<longleftrightarrow> phase_of (mc_state (mc s)) = x \<or> edge e x (phase_of (mc_state (mc s)))"

text \<open>After \<^verbatim>\<open>changeState\<close>: the phase asked for, or \<open>Ready\<close> again if an activation failed.\<close>

definition arrived :: "phase \<Rightarrow> st \<Rightarrow> bool" where
  "arrived x s \<longleftrightarrow> phase_of (mc_state (mc s)) = x \<or> x = Activating \<and> phase_of (mc_state (mc s)) = Ready"

text \<open>What \<^verbatim>\<open>onEnter\<close> asks for in a phase.\<close>

definition entered_result :: "phase \<Rightarrow> bstate option \<Rightarrow> st \<Rightarrow> bool" where
  "entered_result x r s \<longleftrightarrow> in_phase x s \<and>
     (case r of None \<Rightarrow> True | Some b \<Rightarrow> x = Activating \<and> (\<exists>e. b = ReadyState e))"

lemma arrive_onEnter: "triple (in_phase x) (onEnter E) (entered_result x) (\<lambda>_. in_phase x)"
proof -
  have none: "keeps (in_phase y) m \<Longrightarrow> results (\<lambda>r. r = None) m \<Longrightarrow>
      triple (in_phase y) m (entered_result y) (\<lambda>_. in_phase y)" for m y
    by (rule tripleI) (auto simp: entered_result_def dest: keeps_result yieldsD)
  have activating: "triple (in_phase Activating) (activating_onEnter E) (entered_result Activating)
      (\<lambda>_. in_phase Activating)"
    by (rule tripleI)
      (auto simp: entered_result_def ready_or_none_def split: option.splits
        dest: keeps_result [OF stay_activating, rotated] yieldsD [OF yields_activating])
  have body: "triple (in_phase (phase_of b)) (case b of InitialState \<Rightarrow> returnM None
       | ReadyState _ \<Rightarrow> ready_onEnter E | ActivatingState _ _ \<Rightarrow> activating_onEnter E
       | ActiveState _ _ \<Rightarrow> active_onEnter | DeactivatingState p g u st \<Rightarrow> deactivating_onEnter E p g u st)
      (entered_result (phase_of b)) (\<lambda>_. in_phase (phase_of b))" for b
  proof (cases b)
    case (ReadyState e)
    have "keeps (in_phase Ready) (ready_onEnter E)" "results (\<lambda>r. r = None) (ready_onEnter E)"
      unfolding ready_onEnter_def by (intro keeps_rules stay_modify yields_then yields_return; simp)+
    with ReadyState none show ?thesis by simp
  next
    case (ActiveState p g)
    have "keeps (in_phase Active) active_onEnter" "results (\<lambda>r. r = None) active_onEnter"
      unfolding active_onEnter_def by (intro keeps_rules stay_modify yields_then yields_return; simp)+
    with ActiveState none show ?thesis by simp
  next
    case (DeactivatingState p g u st)
    have "keeps (in_phase Deactivating) (deactivating_onEnter E p g u st)"
      "results (\<lambda>r. r = None) (deactivating_onEnter E p g u st)"
      unfolding deactivating_onEnter_def by (intro keeps_rules yields_then yields_return; simp)+
    with DeactivatingState none show ?thesis by simp
  qed (simp_all add: activating none keeps_return yields_return)
  show ?thesis
    unfolding onEnter_def getMC_def
  proof (rule triple_get)
    fix b
    show "triple (\<lambda>s. in_phase x s \<and> mc_state (mc s) = b) (case b of InitialState \<Rightarrow> returnM None
       | ReadyState _ \<Rightarrow> ready_onEnter E | ActivatingState _ _ \<Rightarrow> activating_onEnter E
       | ActiveState _ _ \<Rightarrow> active_onEnter | DeactivatingState p g u st \<Rightarrow> deactivating_onEnter E p g u st)
      (entered_result x) (\<lambda>_. in_phase x)"
    proof (cases "phase_of b = x")
      case True
      with body [of b] show ?thesis by (auto elim: triple_pre)
    qed (auto simp: triple_def)
  qed
qed

lemma arrive_changeState:
  "triple (\<lambda>_. True) (changeState E n b) (\<lambda>_. arrived (phase_of b)) (unless_crash (arrived (phase_of b)))"
proof (induction n arbitrary: b)
  case 0
  then show ?case by (auto intro!: triple_throw simp: no_fuel_def)
next
  case (Suc n)
  let ?x = "phase_of b"
  have set: "triple P (set_state b) (\<lambda>_. in_phase ?x) X" for P X
    unfolding set_state_def modifyMC_def by (rule triple_modify) simp
  have leave: "triple (in_phase ?x) (destroy_state E old) (\<lambda>_. in_phase ?x) (unless_crash (arrived ?x))" for old
    by (rule triple_weaken [OF triple_keeps [THEN iffD2, OF stay_destroy(5)]])
      (auto simp: unless_crash_def arrived_def)
  have enter: "triple (in_phase ?x) (onEnter E) (entered_result ?x) (unless_crash (arrived ?x))"
    by (rule triple_weaken [OF arrive_onEnter]) (auto simp: unless_crash_def arrived_def)
  have follow: "triple (entered_result ?x r) (case r of None \<Rightarrow> returnM () | Some b' \<Rightarrow> changeState E n b')
      (\<lambda>_. arrived ?x) (unless_crash (arrived ?x))" for r
  proof (cases r)
    case None
    then show ?thesis by (auto intro!: triple_return simp: entered_result_def arrived_def)
  next
    case (Some b')
    have "triple (\<lambda>s. ?x = Activating \<and> (\<exists>e. b' = ReadyState e)) (changeState E n b')
      (\<lambda>_. arrived ?x) (unless_crash (arrived ?x))"
    proof (cases "?x = Activating \<and> (\<exists>e. b' = ReadyState e)")
      case True
      then show ?thesis
        by (intro triple_weaken [OF Suc.IH [of b']]) (auto simp: arrived_def unless_crash_def)
    qed (auto simp: triple_def)
    with Some show ?thesis by (auto elim!: triple_pre simp: entered_result_def)
  qed
  show ?case
    unfolding changeState.simps getMC_def
    by (rule triple_get, rule triple_then [OF set triple_then [OF leave triple_bind [OF enter follow]]])
qed

lemma emit_moves:
  "triple (in_phase x) (emitEvent E e) (\<lambda>_. moved e x) (unless_crash (moved e x))"
proof -
  have handler: "keeps (in_phase x) m \<Longrightarrow> results (allowed e x) m \<Longrightarrow>
      triple (in_phase x) m (\<lambda>r s. in_phase x s \<and> allowed e x r) (unless_crash (moved e x))" for m
    by (rule tripleI) (auto simp: unless_crash_def moved_def dest: keeps_result yieldsD)
  have "triple (in_phase x) (handleEvent E e) (\<lambda>r s. in_phase x s \<and> allowed e x r) (unless_crash (moved e x))"
    unfolding handleEvent_def getMC_def
  proof (rule triple_get)
    fix b
    let ?h = "case b of InitialState \<Rightarrow> initial_handle E e
       | ReadyState _ \<Rightarrow> ready_handle E e
       | ActivatingState p g \<Rightarrow> activating_handle E p g e
       | ActiveState p g \<Rightarrow> active_handle E p g e
       | DeactivatingState p g u st \<Rightarrow> deactivating_handle E p g u st e"
    show "triple (\<lambda>s. in_phase x s \<and> mc_state (mc s) = b) ?h
        (\<lambda>r s. in_phase x s \<and> allowed e x r) (unless_crash (moved e x))"
    proof (cases "phase_of b = x")
      case True
      have "triple (in_phase x) ?h (\<lambda>r s. in_phase x s \<and> allowed e x r) (unless_crash (moved e x))"
        using True by (intro handler) (cases b; auto simp: handler_stays handler_results)+
      then show ?thesis by (auto elim: triple_pre)
    qed (auto simp: triple_def)
  qed
  moreover have "triple (\<lambda>s. in_phase x s \<and> allowed e x r)
      (case r of None \<Rightarrow> returnM () | Some b \<Rightarrow> changeState E 2 b) (\<lambda>_. moved e x) (unless_crash (moved e x))" for r
  proof (cases r)
    case None
    then show ?thesis by (auto intro!: triple_return simp: moved_def)
  next
    case (Some b)
    show ?thesis
    proof (cases "allowed e x (Some b)")
      case True
      then have "arrived (phase_of b) s \<Longrightarrow> moved e x s" for s
        by (auto simp: arrived_def moved_def allowed_def)
      with Some show ?thesis
        by (auto intro!: triple_weaken [OF arrive_changeState] simp: unless_crash_def simp del: changeState.simps)
    qed (use Some in \<open>auto simp: triple_def\<close>)
  qed
  ultimately show ?thesis unfolding emitEvent_def by (rule triple_bind)
qed

section \<open>The event loop\<close>

definition moved_by :: "loop_op \<Rightarrow> phase \<Rightarrow> st \<Rightarrow> bool" where
  "moved_by op x s \<longleftrightarrow> in_phase x s \<or> (\<exists>e. triggers op e \<and> edge e x (phase_of (mc_state (mc s))))"

lemma emit_moves_by:
  assumes "triggers op e"
  shows "triple (in_phase x) (emitEvent E e) (\<lambda>_. moved_by op x) (unless_crash (moved_by op x))"
  by (rule triple_weaken [OF emit_moves])
    (use assms in \<open>auto simp: moved_def moved_by_def unless_crash_def\<close>)

lemma stays_moved:
  assumes "keeps (in_phase x) m"
  shows "triple (in_phase x) m (\<lambda>_. moved_by op x) (unless_crash (moved_by op x))"
  by (rule triple_weaken [OF triple_keeps [THEN iffD2, OF assms]])
    (auto simp: moved_by_def unless_crash_def)

lemma stays_phase: "keeps (in_phase x) m \<Longrightarrow> triple (in_phase x) m (\<lambda>_. in_phase x) (unless_crash (moved_by op x))"
  unfolding triple_keeps [symmetric] by (erule triple_weaken) (auto simp: moved_by_def unless_crash_def)

lemma moved_return: "triple (moved_by op x) (returnM r) (\<lambda>_. moved_by op x) X"
  by (rule triple_return)

lemma moved_secret:
  "triple (moved_by op x) (destroy_secret E f) (\<lambda>_. moved_by op x) (unless_crash (moved_by op x))"
proof -
  have "keeps (\<lambda>s. (\<lambda>m. phase_of (mc_state m) = x \<or> (\<exists>e. triggers op e \<and> edge e x (phase_of (mc_state m)))) (mc s))
      (destroy_secret E f)"
    unfolding destroy_secret_def by (rule keeps_option [OF keeps_return keeps_liftW])
  then have "keeps (moved_by op x) (destroy_secret E f)"
    unfolding moved_by_def [abs_def] by simp
  from triple_keeps [THEN iffD2, OF this] show ?thesis by (rule triple_weaken) (auto simp: unless_crash_def)
qed

lemma moves_getMC:
  "(\<And>a. triple (in_phase x) (f a) Q X) \<Longrightarrow> triple (in_phase x) (bindM (getMC g) f) Q X"
  unfolding getMC_def by (rule triple_get, rule triple_pre) (assumption, simp)

lemma loop_moves:
  "triple (in_phase x) (loop_step E limit op) (\<lambda>_. moved_by op x) (unless_crash (moved_by op x))"
proof (cases op)
  case Register
  then show ?thesis by (simp add: loop_step_def emit_moves_by triggers.intros)
next
  case (ProxyMount info)
  have "keeps (in_phase x) (whenM b (setAdditionalInfo info))" for b
    unfolding setAdditionalInfo_def by (intro keeps_rules stay_modify) simp
  with ProxyMount show ?thesis
    unfolding loop_step_def proxyMount_def
    by (auto intro!: triple_then [OF moves_getMC moved_return] triple_then [OF stays_phase]
        triple_then [OF emit_moves_by moved_return] triggers.intros)
next
  case (LegacyMount url rw secret info)
  have "keeps (in_phase x) (whenM b (setAdditionalInfo info))" for b
    unfolding setAdditionalInfo_def by (intro keeps_rules stay_modify) simp
  with LegacyMount show ?thesis
    unfolding loop_step_def legacyMount_def
    by (auto intro!: triple_then [OF moves_getMC moved_return] triple_then [OF stays_phase]
        triple_bind [OF stays_phase] keeps_liftE triple_then [OF emit_moves_by moved_return] triggers.intros)
next
  case UnmountCall
  then show ?thesis
    unfolding loop_step_def unmountMethod_def
    by (auto intro!: triple_then [OF _ moved_return] emit_moves_by triggers.intros)
next
  case (Udev dev d)
  have "triple (in_phase x) (emitUdevStateChangeEvent E dev d) (\<lambda>_. moved_by op x) (unless_crash (moved_by op x))"
    unfolding emitUdevStateChangeEvent_def Udev
    by (intro moves_getMC triple_if emit_moves_by stays_moved keeps_return triggers.intros)
  with Udev show ?thesis by (auto simp: loop_step_def intro: triple_noexcept)
next
  case (ChildExit i)
  have reap: "keeps (in_phase x) (modifyMC (\<lambda>m. (remove_child i m)\<lparr>exitCode := c\<rparr>))" for c
    by (rule stay_modify) (simp add: remove_child_def)
  have "triple (in_phase x) (noexceptM (thenM (emitEvent E SubprocessStoppedEvent) (destroy_secret E f)))
      (\<lambda>_. moved_by op x) (unless_crash (moved_by op x))" for f
    by (rule triple_noexcept, rule triple_then [OF emit_moves_by moved_secret])
      (simp add: ChildExit triggers.intros)
  with reap have "triple (in_phase x) (child_exit E i) (\<lambda>_. moved_by op x) (unless_crash (moved_by op x))"
    unfolding child_exit_def ChildExit
    by (intro moves_getMC triple_if triple_bind [OF stays_phase [OF stay_liftW]]
        triple_then [OF stays_phase] stays_moved [OF keeps_return])
  with ChildExit show ?thesis by (simp add: loop_step_def)
next
  case RunPosted
  have pop: "keeps (in_phase x) (modifyMC (\<lambda>m. m\<lparr>posted_events := ps\<rparr>))" for ps
    by (rule stay_modify) simp
  have "triple (in_phase x) (noexceptM (emitEvent E (case p of PostedUnmount \<Rightarrow> UnmountEvent
      | PostedStopped \<Rightarrow> SubprocessStoppedEvent))) (\<lambda>_. moved_by op x) (unless_crash (moved_by op x))" for p
    by (rule triple_noexcept, rule emit_moves_by) (cases p; simp add: RunPosted triggers.intros)
  then have "triple (in_phase x) (case ps of [] \<Rightarrow> returnM () | p # ps' \<Rightarrow>
      thenM (modifyMC (\<lambda>m. m\<lparr>posted_events := ps'\<rparr>))
        (noexceptM (emitEvent E (case p of PostedUnmount \<Rightarrow> UnmountEvent
          | PostedStopped \<Rightarrow> SubprocessStoppedEvent)))) (\<lambda>_. moved_by op x) (unless_crash (moved_by op x))" for ps
    unfolding RunPosted
    by (cases ps) (simp_all add: stays_moved keeps_return triple_then [OF stays_phase [OF pop]])
  then have "triple (in_phase x) (run_posted E) (\<lambda>_. moved_by op x) (unless_crash (moved_by op x))"
    unfolding run_posted_def by (rule moves_getMC)
  with RunPosted show ?thesis by (simp add: loop_step_def)
next
  case RunStop
  have "keeps (in_phase x) (run_stop E)"
    unfolding run_stop_def by (intro keeps_rules stay_modify) simp
  with RunStop show ?thesis by (simp add: loop_step_def stays_moved)
next
  case (RunTick now)
  have tick: "keeps (in_phase x) (active_tick E limit now)"
    unfolding active_tick_def Let_def by (intro keeps_rules stay_modify) simp_all
  have "keeps (in_phase x) (run_tick E limit now)"
    unfolding run_tick_def by (intro keeps_rules tick)
  with RunTick show ?thesis by (simp add: loop_step_def stays_moved)
next
  case TimerElapse
  have "keeps (in_phase x) (modifyMC (\<lambda>m. if tick_timer m = Waiting then m\<lparr>tick_timer := Due\<rparr> else m))"
    by (rule stay_modify) simp
  with TimerElapse show ?thesis by (simp add: loop_step_def stays_moved)
next
  case NotificationElapse
  have "keeps (in_phase x) (update_notification E f)" for f
    unfolding update_notification_def by (intro keeps_rules stay_modify) simp
  with NotificationElapse show ?thesis by (simp add: loop_step_def stays_moved)
next
  case RunNotification
  have "keeps (in_phase x) (update_notification E f)" for f
    unfolding update_notification_def by (intro keeps_rules stay_modify) simp
  with RunNotification show ?thesis by (simp add: loop_step_def stays_moved)
qed

text \<open>
  C3. The state machine refines its chart: every step of the event loop from which the service goes on
  stays in its phase or makes a move that the chart allows for an event the step emits. In particular
  an image is never active without having been activated by a mount request and inserted by the device,
  and a mount point is never ready again without its deactivation, or the failure of its activation,
  having ended.
\<close>

theorem chart_refinement:
  assumes "machine_step E limit op s s'"
  shows "phase_of (mc_state (mc s')) = phase_of (mc_state (mc s)) \<or>
     (\<exists>e. triggers op e \<and> edge e (phase_of (mc_state (mc s))) (phase_of (mc_state (mc s'))))"
  using machine_step_triple [OF assms loop_moves [of "phase_of (mc_state (mc s))"]]
  by (simp add: moved_by_def)

theorem chart_refinement_witness:
  "\<exists>s. machine_step quiet_env 0 Register sample_start s \<and> mc_state (mc s) = ReadyState None \<and>
     (\<exists>e. triggers Register e \<and> edge e Initial Ready)"
proof -
  from proxy_registers [of sample_start "''Slot_0''" sample_mount_point] obtain s where
    "loop_step quiet_env 0 Register sample_start = (Inr (), s)" and s: "mc_state (mc s) = ReadyState None"
    by (auto simp: sample_start_def sample_mount_point_def)
  then have step: "machine_step quiet_env 0 Register sample_start s" by (intro returns)
  from chart_refinement [OF this] s show ?thesis
    by (intro exI [of _ s]) (simp add: step, simp add: sample_start_def make_machine_def)
qed

end
