(* ===== verification/Inactivity.thy ===== *)
theory Inactivity
  imports Chart
begin

text \<open>
  The inactivity timer of \<^verbatim>\<open>ActiveState\<close>: what a tick publishes, when it gives up, and that giving up
  leads to the deactivation of the mount point.
\<close>

section \<open>One tick\<close>

lemma getStats_returns: "\<exists>stats w'. getStats E name w = (Inr stats, w')"
  by (simp add: getStats_def Let_def bind_sys returnM_def)

text \<open>The time of the last access as the tick sees it: the statistics have changed, or not.\<close>

definition access_time :: "string option \<Rightarrow> int \<Rightarrow> machine \<Rightarrow> int" where
  "access_time stats now m =
     (if stats \<noteq> None \<and> stats \<noteq> Some (lastStats m) then now else lastAccess m)"

definition seen_stats :: "string option \<Rightarrow> machine \<Rightarrow> string" where
  "seen_stats stats m = (case stats of Some x \<Rightarrow> x | None \<Rightarrow> lastStats m)"

lemma active_tick_result:
  assumes "getStats E (mc_name (mc s)) (wd s) = (Inr stats, w')"
  shows "active_tick E limit now s =
     (Inr (), \<lparr>mc =
        (let m = (mc s)\<lparr>lastStats := seen_stats stats (mc s), lastAccess := access_time stats now (mc s)\<rparr> in
         if now - access_time stats now (mc s) \<ge> limit
         then m\<lparr>tick_timer := NoTick, posted_events := posted_events m @ [PostedUnmount]\<rparr>
         else m\<lparr>tick_timer := Waiting, config := (config m)\<lparr>remainingInactivityTimeout :=
            Some (limit - (now - access_time stats now (mc s)))\<rparr>\<rparr>), wd = w'\<rparr>)"
  using assms
  by (auto simp: active_tick_def getMC_def bindM_def getM_def liftW_def thenM_def whenM_def modifyMC_def
      modifyM_def returnM_def Let_def access_time_def seen_stats_def split: option.splits)

text \<open>
  C16. What a tick of the inactivity timer does, with no access in the future: either the mount point
  goes on, the timer is armed again, no unmount is posted, and the published remaining time is positive
  and never more than the configured limit; or the last access is at least the limit ago, the timer is
  given up and exactly one unmount is posted. A change of the statistics counts as an access now.
\<close>

theorem inactivity_tick:
  assumes "active_tick E limit now s = (r, s')" and "lastAccess (mc s) \<le> now"
  shows "r = Inr () \<and> lastAccess (mc s') \<in> {lastAccess (mc s), now} \<and>
     (if now - lastAccess (mc s') < limit
      then tick_timer (mc s') = Waiting \<and> posted_events (mc s') = posted_events (mc s) \<and>
        (\<exists>t. prop_RemainingInactivityTimeout (mc s') = Some t \<and> 0 < t \<and> t \<le> limit \<and>
           t = limit - (now - lastAccess (mc s')))
      else tick_timer (mc s') = NoTick \<and> posted_events (mc s') = posted_events (mc s) @ [PostedUnmount] \<and>
        prop_RemainingInactivityTimeout (mc s') = prop_RemainingInactivityTimeout (mc s)) \<and>
     (lastStats (mc s') \<noteq> lastStats (mc s) \<longrightarrow> lastAccess (mc s') = now)"
proof -
  obtain stats w' where stats: "getStats E (mc_name (mc s)) (wd s) = (Inr stats, w')"
    using getStats_returns by blast
  have la: "access_time stats now (mc s) = lastAccess (mc s) \<or> access_time stats now (mc s) = now"
    and seen: "seen_stats stats (mc s) \<noteq> lastStats (mc s) \<longrightarrow> access_time stats now (mc s) = now"
    by (auto simp: access_time_def seen_stats_def split: option.split)
  let ?m = "(mc s)\<lparr>lastStats := seen_stats stats (mc s), lastAccess := access_time stats now (mc s)\<rparr>"
  show ?thesis
  proof (cases "now - access_time stats now (mc s) \<ge> limit")
    case True
    with assms(1) have "r = Inr ()" "mc s' = ?m\<lparr>tick_timer := NoTick,
        posted_events := posted_events ?m @ [PostedUnmount]\<rparr>"
      unfolding active_tick_result [OF stats] by (auto simp: Let_def)
    with True la seen show ?thesis by (auto simp: prop_RemainingInactivityTimeout_def)
  next
    case False
    with assms(1) have "r = Inr ()" "mc s' = ?m\<lparr>tick_timer := Waiting,
        config := (config ?m)\<lparr>remainingInactivityTimeout := Some (limit - (now - access_time stats now (mc s)))\<rparr>\<rparr>"
      unfolding active_tick_result [OF stats] by (auto simp: Let_def)
    with False la seen assms(2) show ?thesis by (auto simp: prop_RemainingInactivityTimeout_def)
  qed
qed

theorem inactivity_tick_witness:
  "\<exists>s'. active_tick quiet_env 60 5 sample_start = (Inr (), s') \<and>
     (\<exists>t. prop_RemainingInactivityTimeout (mc s') = Some t \<and> 0 < t \<and> t \<le> 60)"
proof -
  obtain r s' where run: "active_tick quiet_env 60 5 sample_start = (r, s')" by fastforce
  have "lastAccess (mc sample_start) \<le> 5" by (simp add: sample_start_def make_machine_def)
  from inactivity_tick [OF run this] run show ?thesis
    by (auto simp: sample_start_def make_machine_def split: if_splits)
qed

text \<open>With the limit 0, that an absent \<^verbatim>\<open>InactivityTimeout\<close> gives, the first tick already gives up.\<close>

lemma zero_limit_unmounts:
  assumes "active_tick E 0 now s = (r, s')" and "lastAccess (mc s) \<le> now"
  shows "posted_events (mc s') = posted_events (mc s) @ [PostedUnmount]"
proof -
  obtain stats w' where stats: "getStats E (mc_name (mc s)) (wd s) = (Inr stats, w')"
    using getStats_returns by blast
  have "access_time stats now (mc s) \<le> now" using assms(2) by (auto simp: access_time_def)
  with assms(1) show ?thesis unfolding active_tick_result [OF stats] by (auto simp: Let_def)
qed

text \<open>Statistics that can not be read do not count as an access, and the last access of a new
  \<^verbatim>\<open>ActiveState\<close> is the epoch of the clock: the first tick gives up.\<close>

lemma unreadable_stats_unmount:
  assumes "getStats E (mc_name (mc s)) (wd s) = (Inr None, w')" and "lastAccess (mc s) = 0" and "limit \<le> now"
  shows "\<exists>s'. active_tick E limit now s = (Inr (), s') \<and>
     posted_events (mc s') = posted_events (mc s) @ [PostedUnmount]"
  unfolding active_tick_result [OF assms(1)] using assms(2,3) by (simp add: access_time_def Let_def)

text \<open>A state that is left between the expiry of its timer and the handler leaves the handler behind,
  with a pointer to the destroyed state.\<close>

lemma stale_tick_crashes:
  "stale_tick (mc s) \<Longrightarrow> run_tick E limit now s = (Inl (UB ''handler of a destroyed ActiveState''), s)"
  by (simp add: run_tick_def getMC_def throwM_def)

lemma leaving_makes_stale:
  assumes "tick_timer (mc s) = Due" and "mc_state (mc s) = ActiveState None None"
  shows "\<exists>s'. destroy_state E (mc_state (mc s)) s = (Inr (), s') \<and> stale_tick (mc s')"
  using assms
  by (simp add: destroy_state_def destroy_gadget_def destroy_process_def whenM_def thenM_def bindM_def
      returnM_def modifyMC_def modifyM_def)

section \<open>Giving up\<close>

text \<open>Exceptions that nothing in the program catches.\<close>

abbreviation crash :: "exn \<Rightarrow> st \<Rightarrow> bool" where
  "crash e s \<equiv> \<not> catchable e"

lemma drop_gadget: "triple (\<lambda>s. Q (mc s)) (destroy_gadget E g) (\<lambda>_ s. Q (mc s)) crash"
proof -
  have "triple (\<lambda>s. Q (mc s)) (liftW (gadget_destroy E n d)) (\<lambda>_ s. Q (mc s)) crash" for n d
  proof (rule tripleI)
    fix s a s'
    assume "Q (mc s)" "liftW (gadget_destroy E n d) s = (Inr a, s')"
    then show "Q (mc s')" by (auto simp: liftW_def split: prod.splits)
  next
    fix s e s'
    assume "liftW (gadget_destroy E n d) s = (Inl e, s')"
    then obtain w where "gadget_destroy E n d (wd s) = (Inl e, w)"
      by (auto simp: liftW_def split: prod.splits)
    then show "\<not> catchable e" unfolding gadget_destroy_def by (rule noexceptM_throws)
  qed
  then have "triple (\<lambda>s. (Q (mc s) \<and> mc_name (mc s) = n) \<and> config (mc s) = c)
      (liftW (gadget_destroy E n (nbdDevice c))) (\<lambda>_ s. Q (mc s)) crash" for n c
    by (rule triple_pre) simp
  then show ?thesis
    unfolding destroy_gadget_def getMC_def
    by (intro triple_when triple_get) simp_all
qed

lemma drop_process: "triple (\<lambda>s. Q (mc_state (mc s))) (destroy_process E p) (\<lambda>_ s. Q (mc_state (mc s))) X"
  by (auto simp: triple_def destroy_process_def whenM_def thenM_def bindM_def liftW_do_sys getMC_def
      modifyMC_def modifyM_def returnM_def getM_def)

lemma enter_deactivating_total:
  "triple (\<lambda>s. members_of (mc_state (mc s)) = (None, None)) (changeState E (Suc n) (DeactivatingState p g u st))
     (\<lambda>_ s. mc_state (mc s) = DeactivatingState None None u st) crash"
proof -
  let ?d = "\<lambda>p g. DeactivatingState p g u st"
  have set: "triple P (set_state b) (\<lambda>_ s. mc_state (mc s) = b) X" for P b X
    unfolding set_state_def modifyMC_def by (rule triple_modify) simp
  have leave: "triple (\<lambda>s. mc_state (mc s) = b) (destroy_state E old) (\<lambda>_ s. mc_state (mc s) = b) crash"
    if "members_of old = (None, None)" for b old
    using that
    by (auto simp: destroy_state_def destroy_gadget_def destroy_process_def whenM_def thenM_def bindM_def
        returnM_def triple_def modifyMC_def modifyM_def)
  have enter: "triple (\<lambda>s. mc_state (mc s) = ?d p g) (onEnter E)
      (\<lambda>r s. r = None \<and> mc_state (mc s) = ?d None None) crash"
  proof -
    have ret: "triple (\<lambda>s. mc_state (mc s) = ?d None None) (returnM None)
        (\<lambda>r s. r = None \<and> mc_state (mc s) = ?d None None) crash"
      by (rule triple_return) simp
    have "triple (\<lambda>_. True) (deactivating_onEnter E p g u st)
        (\<lambda>r s. r = None \<and> mc_state (mc s) = ?d None None) crash"
      unfolding deactivating_onEnter_def
      by (rule triple_then [OF set triple_then [OF drop_gadget triple_then [OF set
            triple_then [OF drop_process ret]]]])
    then have "triple (\<lambda>s. mc_state (mc s) = ?d p g \<and> mc_state (mc s) = b) (case b of
         InitialState \<Rightarrow> returnM None | ReadyState _ \<Rightarrow> ready_onEnter E
       | ActivatingState _ _ \<Rightarrow> activating_onEnter E | ActiveState _ _ \<Rightarrow> active_onEnter
       | DeactivatingState p g u st \<Rightarrow> deactivating_onEnter E p g u st)
      (\<lambda>r s. r = None \<and> mc_state (mc s) = ?d None None) crash" for b
      by (cases "b = ?d p g") (auto elim: triple_pre simp: triple_def)
    then show ?thesis unfolding onEnter_def getMC_def by (rule triple_get)
  qed
  have follow: "triple (\<lambda>s. r = None \<and> mc_state (mc s) = ?d None None)
      (case r of None \<Rightarrow> returnM () | Some b \<Rightarrow> changeState E n b) (\<lambda>_ s. mc_state (mc s) = ?d None None) crash" for r
    by (cases r) (auto simp: triple_def returnM_def)
  have go: "triple (\<lambda>s. members_of (mc_state (mc s)) = (None, None) \<and> mc_state (mc s) = old)
      (thenM (set_state (?d p g)) (thenM (destroy_state E old) (bindM (onEnter E) (\<lambda>r.
         case r of None \<Rightarrow> returnM () | Some b \<Rightarrow> changeState E n b))))
      (\<lambda>_ s. mc_state (mc s) = ?d None None) crash" for old
  proof (cases "members_of old = (None, None)")
    case True
    show ?thesis by (rule triple_then [OF set triple_then [OF leave [OF True] triple_bind [OF enter follow]]])
  qed (auto simp: triple_def)
  show ?thesis unfolding changeState.simps getMC_def by (rule triple_get [OF go])
qed

lemma unmount_active:
  "triple (\<lambda>s. mc_state (mc s) = ActiveState p g \<and> completion (mc s) \<noteq> None) (emitEvent E UnmountEvent)
     (\<lambda>_ s. mc_state (mc s) = DeactivatingState None None None False) crash"
proof -
  let ?d = "DeactivatingState p g None False"
  have "\<exists>s'. handleEvent E UnmountEvent s = (Inr (Some ?d), s') \<and> mc_state (mc s') = ActiveState None None"
    if "mc_state (mc s) = ActiveState p g" "completion (mc s) \<noteq> None" for s
    using that
    by (auto simp: handleEvent_state active_handle_def notificationStart_def some_state_def
        make_deactivating_def move_out_def thenM_def bindM_def getMC_def getM_def modifyMC_def modifyM_def
        returnM_def)
  then have handler: "triple (\<lambda>s. mc_state (mc s) = ActiveState p g \<and> completion (mc s) \<noteq> None)
      (handleEvent E UnmountEvent) (\<lambda>r s. r = Some ?d \<and> members_of (mc_state (mc s)) = (None, None)) crash"
    by (fastforce simp: triple_def)
  have "triple (\<lambda>s. r = Some ?d \<and> members_of (mc_state (mc s)) = (None, None))
      (case r of None \<Rightarrow> returnM () | Some b \<Rightarrow> changeState E 2 b)
      (\<lambda>_ s. mc_state (mc s) = DeactivatingState None None None False) crash" for r
    using enter_deactivating_total [of E 1 p g None False]
    by (cases "r = Some ?d") (auto simp: numeral_2_eq_2 triple_def simp del: changeState.simps)
  then show ?thesis unfolding emitEvent_def by (rule triple_bind [OF handler])
qed

text \<open>A handler that the event loop runs, for crashes.\<close>

lemma noexcept_crash: "triple P m Q X \<Longrightarrow> triple P (noexceptM m) Q crash"
  using triple_noexcept [where Y = "\<lambda>_. False"] by (fastforce simp: unless_crash_def [abs_def])

definition idle_at :: "env \<Rightarrow> int \<Rightarrow> int \<Rightarrow> st \<Rightarrow> bool" where
  "idle_at E limit now s \<longleftrightarrow>
     fst (getStats E (mc_name (mc s)) (wd s)) \<in> {Inr None, Inr (Some (lastStats (mc s)))} \<and>
     limit \<le> now - lastAccess (mc s)"

text \<open>
  C15. An idle image is taken away: when the timer of an active mount point fires and the statistics have
  not changed for at least the limit, then running the handler and the event it posts always ends, and it
  ends in the deactivation of the mount point, with its gadget and its process given up, unless the
  gadget could not be taken down and the destructor brought the service down.
\<close>

theorem idle_deactivates:
  assumes "machine_ok (mc s)" and "mc_state (mc s) = ActiveState p g" and "tick_timer (mc s) = Due"
    and "\<not> stale_tick (mc s)" and "posted_events (mc s) = []" and "idle_at E limit now s"
  shows "case thenM (loop_step E limit (RunTick now)) (loop_step E limit RunPosted) s of
       (Inr _, s') \<Rightarrow> mc_state (mc s') = DeactivatingState None None None False
     | (Inl e, _) \<Rightarrow> \<not> catchable e"
proof -
  obtain stats w' where stats: "getStats E (mc_name (mc s)) (wd s) = (Inr stats, w')"
    using getStats_returns by blast
  with assms(6) have la: "access_time stats now (mc s) = lastAccess (mc s)"
    by (auto simp: idle_at_def access_time_def)
  let ?s1 = "\<lparr>mc = (mc s)\<lparr>lastStats := seen_stats stats (mc s), lastAccess := lastAccess (mc s),
      tick_timer := NoTick, posted_events := [PostedUnmount]\<rparr>, wd = w'\<rparr>"
  have tick: "loop_step E limit (RunTick now) s = (Inr (), ?s1)"
    using active_tick_result [OF stats, of limit now] la assms(3-6)
    by (simp add: loop_step_def run_tick_def getMC_def idle_at_def Let_def)
  let ?s2 = "?s1\<lparr>mc := (mc ?s1)\<lparr>posted_events := []\<rparr>\<rparr>"
  have "completion (mc s) \<noteq> None" using assms(1,2) by (auto simp: machine_ok_def)
  with assms(2) have "mc_state (mc ?s2) = ActiveState p g \<and> completion (mc ?s2) \<noteq> None" by simp
  with noexcept_crash [OF unmount_active [of p g E]]
  have "case noexceptM (emitEvent E UnmountEvent) ?s2 of
       (Inr _, s') \<Rightarrow> mc_state (mc s') = DeactivatingState None None None False
     | (Inl e, _) \<Rightarrow> \<not> catchable e"
    unfolding triple_def by (fastforce split: prod.splits sum.splits)
  moreover have "loop_step E limit RunPosted ?s1 = noexceptM (emitEvent E UnmountEvent) ?s2"
    by (simp add: loop_step_def run_posted_def getMC_def modifyMC_def modifyM_def thenM_def bindM_def)
  ultimately show ?thesis by (simp add: thenM_def bindM_def tick)
qed

definition sample_active :: st where
  "sample_active = sample_start\<lparr>mc := (mc sample_start)\<lparr>mc_state := ActiveState None None,
     completion := Some (''/p'', ''i'', notification_new), tick_timer := Due\<rparr>\<rparr>"

theorem idle_deactivates_witness:
  "case thenM (loop_step quiet_env 60 (RunTick 100)) (loop_step quiet_env 60 RunPosted) sample_active of
       (Inr _, s') \<Rightarrow> mc_state (mc s') = DeactivatingState None None None False
     | (Inl e, _) \<Rightarrow> \<not> catchable e"
proof (rule idle_deactivates)
  show "machine_ok (mc sample_active)" "mc_state (mc sample_active) = ActiveState None None"
    "tick_timer (mc sample_active) = Due" "\<not> stale_tick (mc sample_active)"
    "posted_events (mc sample_active) = []"
    by (simp_all add: sample_active_def sample_start_def make_machine_def machine_ok_def)
  show "idle_at quiet_env 60 100 sample_active"
    by (simp add: idle_at_def getStats_def Let_def bind_sys returnM_def sample_active_def sample_start_def
        make_machine_def quiet_env_def)
qed

end
