(* ===== verification/DeviceMonitor.thy ===== *)
theory DeviceMonitor
  imports NbdDevice
begin

text \<open>
  \<^verbatim>\<open>DeviceMonitor\<close> of \<^verbatim>\<open>src/system.hpp\<close>: which block devices are watched, the last state known of
  each, and the loop that turns kernel events into \<open>inserted\<close> and \<open>removed\<close> notifications.
\<close>

section \<open>The monitor and its operations\<close>

type_synonym devices = "(nbd_device \<times> state_change) list"

text \<open>The constructor: the calls of \<^verbatim>\<open>libudev\<close> that set up the monitor, with 0 for a null pointer. An
  exception here is a \<^verbatim>\<open>std::system_error\<close>.\<close>

definition monitor_create :: "env \<Rightarrow> unit wprog" where
  "monitor_create E =
     bindM (sys E (UdevCall ''udev_new'' [])) (\<lambda>udev.
       if udev = 0 then throwM (RuntimeError ''Unable to create uDev handler.'')
       else bindM (sys E (UdevCall ''udev_monitor_new_from_netlink'' [''kernel''])) (\<lambda>monitor.
       if monitor = 0 then throwM (RuntimeError ''Unable to create uDev Monitor handler.'')
       else bindM (sys E (UdevCall ''udev_monitor_filter_add_match_subsystem_devtype''
                     [''block'', ''disk''])) (\<lambda>rc.
       if rc \<noteq> 0 then throwM (RuntimeError ''Could not apply filters.'')
       else bindM (sys E (UdevCall ''udev_monitor_enable_receiving'' [])) (\<lambda>rc.
       if rc \<noteq> 0 then throwM (RuntimeError ''Enable receiving failed.'')
       else do_sys E (UdevCall ''udev_monitor_get_fd'' [])))))"

text \<open>What \<^verbatim>\<open>libudev\<close> returns for one received device: null pointers are \<open>None\<close>.\<close>

record udev_device =
  ud_action :: "string option"
  ud_sysname :: "string option"
  ud_size :: "string option"

definition addDevice :: "nbd_device \<Rightarrow> devices \<Rightarrow> devices" where
  "addDevice d devs = sm_insert d removed devs"

definition getState :: "nbd_device \<Rightarrow> devices \<Rightarrow> state_change" where
  "getState d devs = (case sm_find devs d of Some s \<Rightarrow> s | None \<Rightarrow> notMonitored)"

text \<open>
  One round of the loop in \<^verbatim>\<open>run\<close>, from the call of \<^verbatim>\<open>udev_monitor_receive_device\<close> on; every
  \<^verbatim>\<open>continue\<close> is a branch that leaves the devices as they are and calls back nothing.
\<close>

definition monitor_round ::
    "nat \<Rightarrow> devices \<Rightarrow> udev_device option \<Rightarrow> devices \<times> (nbd_device \<times> state_change) option" where
  "monitor_round w devs device =
     (case device of
        None \<Rightarrow> (devs, None)
      | Some u \<Rightarrow>
          (case ud_action u of
             None \<Rightarrow> (devs, None)
           | Some devAction \<Rightarrow>
               if devAction \<noteq> ''change'' then (devs, None)
               else (case ud_sysname u of
                  None \<Rightarrow> (devs, None)
                | Some sysname \<Rightarrow>
                    let nbdDevice = nbd_of_name (Some sysname) in
                    if \<not> nbd_known nbdDevice then (devs, None)
                    else (case sm_find devs nbdDevice of
                       None \<Rightarrow> (devs, None)
                     | Some known \<Rightarrow>
                         (case ud_size u of
                            None \<Rightarrow> (devs, None)
                          | Some sizeStr \<Rightarrow>
                              (case stoul0 w sizeStr of
                                 Inl e \<Rightarrow> (devs, None)
                               | Inr sz \<Rightarrow>
                                   if sz > 0 \<and> known \<noteq> inserted
                                   then (sm_assign nbdDevice inserted devs, Some (nbdDevice, inserted))
                                   else if sz = 0 \<and> known \<noteq> removed
                                   then (sm_assign nbdDevice removed devs, Some (nbdDevice, removed))
                                   else (devs, None)))))))"

text \<open>The loop over a finite run of received devices: the devices known then, and the calls back in
  their order.\<close>

fun monitor_run ::
    "nat \<Rightarrow> devices \<Rightarrow> udev_device option list \<Rightarrow> devices \<times> (nbd_device \<times> state_change) list" where
  "monitor_run w devs [] = (devs, [])"
| "monitor_run w devs (u # us) =
     (let (devs', cb) = monitor_round w devs u;
          (devs'', cbs) = monitor_run w devs' us
      in (devs'', (case cb of None \<Rightarrow> cbs | Some c \<Rightarrow> c # cbs)))"

section \<open>Its behaviour\<close>

definition is_udev :: "call \<times> int \<Rightarrow> bool" where
  "is_udev x = (case x of (UdevCall _ _, _) \<Rightarrow> True | _ \<Rightarrow> False)"

text \<open>The constructor calls nothing but \<^verbatim>\<open>libudev\<close>.\<close>

lemma monitor_create_result:
  "\<exists>r new. monitor_create E w = (r, w\<lparr>hist := new @ hist w\<rparr>) \<and> list_all is_udev new"
  by (auto simp: monitor_create_def bind_sys do_sys_result throwM_def is_udev_def
      intro: exI [of _ "[a]" for a] exI [of _ "[a, b]" for a b] exI [of _ "[a, b, c]" for a b c]
        exI [of _ "[a, b, c, d]" for a b c d] exI [of _ "[a, b, c, d, e]" for a b c d e])

lemma monitor_created:
  assumes "\<And>h c. ask E h (UdevCall c []) \<noteq> 0 \<longleftrightarrow> c = ''udev_new''"
    and "\<And>h. ask E h (UdevCall ''udev_monitor_new_from_netlink'' [''kernel'']) \<noteq> 0"
    and "\<And>h. ask E h (UdevCall ''udev_monitor_filter_add_match_subsystem_devtype'' [''block'', ''disk'']) = 0"
  shows "fst (monitor_create E w) = Inr ()"
  using assms by (simp add: monitor_create_def bind_sys do_sys_result throwM_def)

text \<open>A round either does nothing, or reports a change of the state of one watched device.\<close>

lemma monitor_round_disj:
  "monitor_round w devs u = (devs, None) \<or>
   (\<exists>d s old. monitor_round w devs u = (sm_assign d s devs, Some (d, s)) \<and>
      sm_find devs d = Some old \<and> old \<noteq> s \<and> (s = inserted \<or> s = removed))"
  by (simp add: monitor_round_def Let_def split: option.split sum.split)

lemma monitor_round_cases:
  obtains (idle) "monitor_round w devs u = (devs, None)"
    | (change) d s old where "monitor_round w devs u = (sm_assign d s devs, Some (d, s))"
        and "sm_find devs d = Some old" and "old \<noteq> s" and "s = inserted \<or> s = removed"
  using monitor_round_disj [of w devs u] by metis

lemma monitor_round_wf: "sm_wf devs \<Longrightarrow> monitor_round w devs u = (devs', cb) \<Longrightarrow> sm_wf devs'"
  by (rule monitor_round_cases [of w devs u]) (auto simp: sm.wf_assign)

lemma monitor_round_getState:
  assumes "sm_wf devs" and "monitor_round w devs u = (devs', cb)"
  shows "getState d devs' = (case cb of Some (e, s) \<Rightarrow> if e = d then s else getState d devs
                                       | None \<Rightarrow> getState d devs)"
  using assms
  by (rule_tac monitor_round_cases [of w devs u])
    (auto simp: getState_def sm.find_assign)

text \<open>What one device is told over a run, and that it alternates from a given state.\<close>

definition told :: "nbd_device \<Rightarrow> (nbd_device \<times> state_change) list \<Rightarrow> state_change list" where
  "told d cbs = map snd (filter (\<lambda>c. fst c = d) cbs)"

fun alternates :: "state_change \<Rightarrow> state_change list \<Rightarrow> bool" where
  "alternates s [] = True"
| "alternates s (t # ts) = (t \<noteq> s \<and> (t = inserted \<or> t = removed) \<and> alternates t ts)"

fun last_state :: "state_change \<Rightarrow> state_change list \<Rightarrow> state_change" where
  "last_state s [] = s"
| "last_state s (t # ts) = last_state t ts"

lemma told_Cons: "told d (c # cbs) = (if fst c = d then snd c # told d cbs else told d cbs)"
  by (simp add: told_def)

lemma monitor_run_told:
  assumes "sm_wf devs" and "monitor_run w devs us = (devs', cbs)"
  shows "alternates (getState d devs) (told d cbs) \<and>
         getState d devs' = last_state (getState d devs) (told d cbs)"
  using assms
proof (induction us arbitrary: devs cbs)
  case Nil
  then show ?case by (simp add: told_def)
next
  case (Cons u us)
  obtain devs1 cb where r: "monitor_round w devs u = (devs1, cb)"
    by (cases "monitor_round w devs u")
  obtain cbs1 where run: "monitor_run w devs1 us = (devs', cbs1)"
    and cbs: "cbs = (case cb of None \<Rightarrow> cbs1 | Some c \<Rightarrow> c # cbs1)"
    using Cons.prems(2) r by (auto split: prod.splits)
  from monitor_round_wf [OF Cons.prems(1) r] have wf1: "sm_wf devs1" .
  from Cons.IH [OF wf1 run]
  have IH: "alternates (getState d devs1) (told d cbs1)"
    "getState d devs' = last_state (getState d devs1) (told d cbs1)" by simp_all
  note gs = monitor_round_getState [OF Cons.prems(1) r, of d]
  show ?case
  proof (rule monitor_round_cases [of w devs u])
    assume "monitor_round w devs u = (devs, None)"
    with r IH cbs show ?thesis by simp
  next
    fix e s old
    assume *: "monitor_round w devs u = (sm_assign e s devs, Some (e, s))"
      "sm_find devs e = Some old" "old \<noteq> s" "s = inserted \<or> s = removed"
    with r have cb: "cb = Some (e, s)" by simp
    show ?thesis
    proof (cases "e = d")
      case True
      with * have "getState d devs = old" by (simp add: getState_def)
      with True cb gs IH * cbs show ?thesis by (simp add: told_Cons)
    next
      case False
      with cb gs IH cbs show ?thesis by (simp add: told_Cons)
    qed
  qed
qed

lemma monitor_run_unwatched:
  assumes "sm_wf devs" and "monitor_run w devs us = (devs', cbs)" and "sm_find devs d = None"
  shows "told d cbs = []"
  using assms
proof (induction us arbitrary: devs cbs)
  case (Cons u us)
  obtain devs1 cb where r: "monitor_round w devs u = (devs1, cb)"
    by (cases "monitor_round w devs u")
  obtain cbs1 where run: "monitor_run w devs1 us = (devs', cbs1)"
    and cbs: "cbs = (case cb of None \<Rightarrow> cbs1 | Some c \<Rightarrow> c # cbs1)"
    using Cons.prems(2) r by (auto split: prod.splits)
  have "sm_find devs1 d = None \<and> (\<forall>e s. cb = Some (e, s) \<longrightarrow> e \<noteq> d)"
    by (rule monitor_round_cases [of w devs u])
      (use r Cons.prems(1,3) in \<open>auto simp: sm.find_assign\<close>)
  with Cons.IH [OF monitor_round_wf [OF Cons.prems(1) r] run] cbs show ?case
    by (cases cb) (auto simp: told_Cons)
qed (simp add: told_def)

text \<open>
  C18. Over any run of kernel events, each watched device is told an alternating sequence of
  insertions and removals that starts with an insertion (\<open>addDevice\<close> registers it as removed): no
  event is reported twice in a row, and the state the monitor keeps is the last one it reported.
  A device that is not watched is never reported.
\<close>

theorem monitor_alternates:
  assumes "sm_wf devs" and "sm_find devs d = None"
    and "monitor_run w (addDevice d devs) us = (devs', cbs)"
  shows "alternates removed (told d cbs) \<and>
         getState d devs' = last_state removed (told d cbs) \<and>
         (\<forall>e. sm_find (addDevice d devs) e = None \<longrightarrow> told e cbs = [])"
proof -
  have wf: "sm_wf (addDevice d devs)"
    using assms(1) by (simp add: addDevice_def sm.wf_insert_new)
  have "getState d (addDevice d devs) = removed"
    using assms(1,2) by (simp add: getState_def addDevice_def sm.find_insert_new)
  with monitor_run_told [OF wf assms(3), of d] monitor_run_unwatched [OF wf assms(3)]
  show ?thesis by simp
qed

text \<open>A run in which the size of a watched device goes from 0 to 8 sectors, twice, and back.\<close>

definition sample_events :: "udev_device option list" where
  "sample_events =
     [Some \<lparr>ud_action = Some ''change'', ud_sysname = Some ''nbd0'', ud_size = Some ''0x8''\<rparr>,
      Some \<lparr>ud_action = Some ''change'', ud_sysname = Some ''nbd0'', ud_size = Some ''8''\<rparr>,
      None,
      Some \<lparr>ud_action = Some ''change'', ud_sysname = Some ''nbd0'', ud_size = Some ''0''\<rparr>]"

lemma sample_events_run:
  "monitor_run 32 (addDevice nbd0 []) sample_events =
     ([(nbd0, removed)], [(nbd0, inserted), (nbd0, removed)])"
  by (simp add: sample_events_def monitor_round_def addDevice_def sm_insert_def nbd_name_defs
      stoul0_def split_sign_def is_space_def number_base_def starts_with_def digit_val_def Let_def)

theorem monitor_alternates_witness:
  "alternates removed (told nbd0 [(nbd0, inserted), (nbd0, removed)]) \<and>
   getState nbd0 [(nbd0, removed)] = last_state removed [inserted, removed]"
  using monitor_alternates [OF _ _ sample_events_run]
  by (simp add: told_def)

end
