(* ===== verification/App.thy ===== *)
theory App
  imports Inactivity DeviceMonitor
begin

text \<open>
  The application (\<^verbatim>\<open>src/main.cpp\<close>): the arguments, the names of the service, the mount points it makes
  from the configuration, and the dispatch of device events to them. The machines live in one map and
  share one world; an operation of one machine is lifted to the application.
\<close>

section \<open>State\<close>

text \<open>\<open>registry\<close> holds the keys of \<^verbatim>\<open>InitialState::allMountPoints\<close>, whose values point into \<open>mpsm\<close>.\<close>

record app =
  mpsm :: "(string \<times> machine) list"
  registry :: "string list"
  globalLocalServiceCreated :: bool
  watched :: devices
  app_wd :: world

type_synonym 'a aprog = "(app, 'a) prog"

definition on_machine :: "string \<Rightarrow> 'a mprog \<Rightarrow> 'a aprog" where
  "on_machine name p a =
     (case sm_find (mpsm a) name of
        None \<Rightarrow> (Inl (UB ''no such mount point''), a)
      | Some m \<Rightarrow>
          (case p \<lparr>mc = m, wd = app_wd a\<rparr> of
             (r, s) \<Rightarrow> (r, a\<lparr>mpsm := sm_assign name (mc s) (mpsm a), app_wd := wd s\<rparr>)))"

definition liftApp :: "'a wprog \<Rightarrow> 'a aprog" where
  "liftApp p a = (case p (app_wd a) of (r, w) \<Rightarrow> (r, a\<lparr>app_wd := w\<rparr>))"

section \<open>Starting\<close>

text \<open>The loop over the arguments of \<^verbatim>\<open>main\<close>, without the name of the program.\<close>

fun parse_args :: "string \<Rightarrow> string list \<Rightarrow> string" where
  "parse_args path [] = path"
| "parse_args path [arg] = path"
| "parse_args path (arg # next_arg # rest) =
     (if arg = ''--config'' then parse_args next_arg rest else parse_args path (next_arg # rest))"

text \<open>The names of the service: its bus name, the path of its object manager, its base path.\<close>

definition service_context :: "env \<Rightarrow> string \<Rightarrow> string \<times> string \<times> string" where
  "service_context E path =
     (if multi_host E \<and> find_str ''virtual-media1'' path \<noteq> None
      then (''xyz.openbmc_project.VirtualMedia1'', ''/xyz/openbmc_project/VirtualMedia1'', ''VirtualMedia1'')
      else (''xyz.openbmc_project.VirtualMedia'', ''/xyz/openbmc_project/VirtualMedia'', ''VirtualMedia''))"

text \<open>
  \<^verbatim>\<open>addGlobalLocalMountService\<close>. The code calls it inside the handler of the registration, just before the
  handler builds the \<^verbatim>\<open>ReadyState\<close>; what follows there makes no call that is not its own, so that the
  model runs it after the event.
\<close>

definition local_methods :: "string list" where
  "local_methods = [''Mount'', ''Unmount'', ''GetCurrentMount'', ''ListAvailableSlots'']"

definition createGlobalLocalMountInterface :: "env \<Rightarrow> unit aprog" where
  "createGlobalLocalMountInterface E =
     liftApp (bindM (getM g_basePath) (\<lambda>base.
       let basePath = (if multi_host E then ''/xyz/openbmc_project/'' @ base
                       else ''/xyz/openbmc_project/VirtualMedia'');
           path = basePath @ ''/Local''; iface = ''xyz.openbmc_project.VirtualMedia.Local'' in
       thenM (do_sys E (AddInterface path iface))
         (forM local_methods (\<lambda>m. do_sys E (RegisterMethod path iface m)))))"

definition addGlobalLocalMountService :: "env \<Rightarrow> string \<Rightarrow> unit aprog" where
  "addGlobalLocalMountService E name =
     thenM (modifyM (\<lambda>a. a\<lparr>registry := List.insert name (registry a)\<rparr>))
       (bindM (getM globalLocalServiceCreated) (\<lambda>there.
          whenM (\<not> there)
            (thenM (createGlobalLocalMountInterface E)
               (modifyM (\<lambda>a. a\<lparr>globalLocalServiceCreated := True\<rparr>)))))"

definition emitRegisterDBusEvent :: "env \<Rightarrow> string \<Rightarrow> unit aprog" where
  "emitRegisterDBusEvent E name =
     thenM (on_machine name (emitEvent E RegisterDbusEvent))
       (whenM (\<not> multi_host E) (addGlobalLocalMountService E name))"

text \<open>The constructor of \<^verbatim>\<open>App\<close>: every entry of the configuration becomes a machine that is watched and
  registered.\<close>

definition add_machine :: "string \<Rightarrow> mount_point \<Rightarrow> app \<Rightarrow> app" where
  "add_machine name c a =
     a\<lparr>mpsm := sm_assign name (make_machine name c) (mpsm a), watched := addDevice (nbdDevice c) (watched a)\<rparr>"

definition create_mount_points :: "env \<Rightarrow> mount_points \<Rightarrow> unit aprog" where
  "create_mount_points E mps =
     forM mps (\<lambda>(name, c). thenM (modifyM (add_machine name c)) (emitRegisterDBusEvent E name))"

definition app_create :: "env \<Rightarrow> configuration \<Rightarrow> unit aprog" where
  "app_create E c =
     (let (serviceName, objectPath, basePath) = service_context E (configPath c) in
      thenM (modifyM (\<lambda>a. a\<lparr>app_wd := (app_wd a)\<lparr>g_serviceName := serviceName, g_basePath := basePath\<rparr>\<rparr>))
        (create_mount_points E (mountPoints c)))"

text \<open>\<^verbatim>\<open>App::run\<close>, up to the event loop.\<close>

definition make_interface :: "string \<Rightarrow> string \<Rightarrow> vm_interface" where
  "make_interface objectPath config_file =
     \<lparr>vmObjPath = objectPath, vmConfigPath = config_file, RetryCount = 0, RetryInterval = 0,
      vmediaInterface = None, vmediaImageURLInterface = None\<rparr>"

definition app_run :: "env \<Rightarrow> configuration \<Rightarrow> unit aprog" where
  "app_run E c =
     (let (_, baseObjectPath, _) = service_context E (configPath c) in
      liftApp
        (thenM (modifyM (\<lambda>w. w\<lparr>vm_instance := Some (make_interface baseObjectPath (configPath c))\<rparr>))
           (addInterfaces E)))"

definition empty_app :: "world \<Rightarrow> app" where
  "empty_app w = \<lparr>mpsm = [], registry = [], globalLocalServiceCreated = False, watched = [], app_wd = w\<rparr>"

text \<open>\<^verbatim>\<open>main\<close> up to the event loop: the exit status, or the application that runs. \<open>files\<close> reads a file;
  the device monitor is a member of \<open>App\<close>, made before the body of its constructor.\<close>

definition app_main :: "env \<Rightarrow> (string \<Rightarrow> string option) \<Rightarrow> string list \<Rightarrow> (exn + int option) \<times> app" where
  "app_main E files args =
     (let path = parse_args '''' args; a = empty_app (initial_world (files path)) in
      case load_config E path (files path) of
        Inl e \<Rightarrow> (Inl e, a)
      | Inr c \<Rightarrow>
          if \<not> valid c then (Inr (Some (-1)), a)
          else bindM (liftApp (sys E (CreateDirectories (path_append (tmp_dir E) ''sock'')))) (\<lambda>r.
                 if r < 0 then returnM (Some (-1))
                 else thenM (liftApp (monitor_create E))
                       (thenM (app_create E c) (thenM (app_run E c) (returnM None)))) a)"

section \<open>Device events\<close>

text \<open>The callback of the device monitor: every machine is told, in the order of the map.\<close>

definition dispatch_device :: "env \<Rightarrow> nbd_device \<Rightarrow> state_change \<Rightarrow> unit aprog" where
  "dispatch_device E device change =
     bindM (getM (\<lambda>a. map fst (mpsm a))) (\<lambda>names.
       forM names (\<lambda>name. on_machine name (emitUdevStateChangeEvent E device change)))"

text \<open>One round of the monitor, inside its coroutine.\<close>

definition device_round :: "env \<Rightarrow> udev_device option \<Rightarrow> unit aprog" where
  "device_round E u =
     bindM (getM (\<lambda>a. monitor_round (ulong_bits E) (watched a) u)) (\<lambda>(devs, cb).
       thenM (modifyM (\<lambda>a. a\<lparr>watched := devs\<rparr>))
         (case cb of
            None \<Rightarrow> returnM ()
          | Some (d, change) \<Rightarrow> noexceptM (dispatch_device E d change)))"

section \<open>The machines of the application\<close>

lemma app_update_same [simp]: "a\<lparr>mpsm := mpsm a, app_wd := app_wd a\<rparr> = (a::app)"
  by simp

lemma on_machine_idle:
  assumes "sm_wf (mpsm a)" and "sm_find (mpsm a) name = Some m"
    and "p \<lparr>mc = m, wd = app_wd a\<rparr> = (r, \<lparr>mc = m, wd = app_wd a\<rparr>)"
  shows "on_machine name p a = (r, a)"
  using assms by (simp add: on_machine_def sm_assign_same)

lemma on_machine_wf: "on_machine name p a = (r, a') \<Longrightarrow> sm_wf (mpsm a) \<Longrightarrow> sm_wf (mpsm a')"
  by (auto simp: on_machine_def sm.wf_assign split: option.splits prod.splits)

lemma on_machine_frame:
  "on_machine name p a = (r, a') \<Longrightarrow> sm_wf (mpsm a) \<Longrightarrow> j \<noteq> name \<Longrightarrow> sm_find (mpsm a') j = sm_find (mpsm a) j"
  by (auto simp: on_machine_def sm.find_assign split: option.splits prod.splits)

lemma on_machine_rest:
  "on_machine name p a = (r, a') \<Longrightarrow> watched a' = watched a \<and> registry a' = registry a \<and>
     globalLocalServiceCreated a' = globalLocalServiceCreated a"
  by (auto simp: on_machine_def split: option.splits prod.splits)

lemma other_device_ignored:
  "nbdDevice (config (mc s)) \<noteq> dev \<Longrightarrow> emitUdevStateChangeEvent E dev d s = (Inr (), s)"
  by (simp add: emitUdevStateChangeEvent_def getMC_def returnM_def)

lemma own_device_emits:
  "nbdDevice (config (mc s)) = dev \<Longrightarrow> emitUdevStateChangeEvent E dev d s = emitEvent E (UdevStateChangeEvent d) s"
  by (simp add: emitUdevStateChangeEvent_def getMC_def)

lemma on_machine_other:
  assumes "sm_wf (mpsm a)" and "sm_find (mpsm a) n = Some m" and "nbdDevice (config m) \<noteq> dev"
  shows "on_machine n (emitUdevStateChangeEvent E dev d) a = (Inr (), a)"
  by (rule on_machine_idle [OF assms(1,2)], rule other_device_ignored) (simp add: assms(3))

lemma on_machine_own:
  assumes "sm_find (mpsm a) n = Some m" and "nbdDevice (config m) = dev"
  shows "on_machine n (emitUdevStateChangeEvent E dev d) a =
    on_machine n (emitEvent E (UdevStateChangeEvent d)) a"
  using assms by (simp add: on_machine_def own_device_emits)

lemma forM_idle_prefix: "(\<And>x. x \<in> set xs \<Longrightarrow> f x a = (Inr (), a)) \<Longrightarrow> forM (xs @ ys) f a = forM ys f a"
  by (induction xs) (simp_all add: thenM_def bindM_def)

lemma forM_idle: "(\<And>x. x \<in> set xs \<Longrightarrow> f x a = (Inr (), a)) \<Longrightarrow> forM xs f a = (Inr (), a)"
  using forM_idle_prefix [of xs f a "[]"] by (simp add: returnM_def)

text \<open>
  A device event reaches exactly the mount point of that device: if one machine of the application is on
  the device, telling all machines is telling that one, even when the handler throws. If none is, nothing
  happens.
\<close>

lemma dispatch_owner:
  assumes "sm_wf (mpsm a)"
    and "\<And>j m. sm_find (mpsm a) j = Some m \<Longrightarrow> nbdDevice (config m) = dev \<longleftrightarrow> Some j = owner"
    and "\<And>j. owner = Some j \<Longrightarrow> sm_find (mpsm a) j \<noteq> None"
  shows "dispatch_device E dev d a =
     (case owner of
        None \<Rightarrow> (Inr (), a)
      | Some j \<Rightarrow> on_machine j (emitEvent E (UdevStateChangeEvent d)) a)"
proof -
  let ?tell = "\<lambda>n. on_machine n (emitUdevStateChangeEvent E dev d)"
  have idle: "?tell n a' = (Inr (), a')"
    if "sm_wf (mpsm a')" "sm_find (mpsm a') n = sm_find (mpsm a) n" "n \<in> set (map fst (mpsm a))" "Some n \<noteq> owner"
    for n a'
  proof -
    from that(3) obtain m where "sm_find (mpsm a) n = Some m" unfolding sm_find_keys by blast
    then show ?thesis using that assms(2) [of n m] by (intro on_machine_other) auto
  qed
  show ?thesis
  proof (cases owner)
    case None
    then have "forM (map fst (mpsm a)) ?tell a = (Inr (), a)"
      by (intro forM_idle idle) (use assms(1) in auto)
    with None show ?thesis by (simp add: dispatch_device_def)
  next
    case (Some j)
    with assms(3) obtain mj where mj: "sm_find (mpsm a) j = Some mj" by auto
    then have "j \<in> set (map fst (mpsm a))" unfolding sm_find_keys by blast
    then obtain before after where names: "map fst (mpsm a) = before @ j # after" by (blast dest: split_list)
    with sm_wf_distinct [OF assms(1)] have notin: "j \<notin> set before" "j \<notin> set after" by auto
    obtain r a' where run: "?tell j a = (r, a')" by fastforce
    have "forM after ?tell a' = (Inr (), a')"
      by (intro forM_idle idle on_machine_wf [OF run assms(1)] on_machine_frame [OF run assms(1)])
        (use names notin Some in auto)
    then have "forM (j # after) ?tell a = ?tell j a"
      using run by (cases r) (simp_all add: thenM_def bindM_def)
    moreover have "forM (before @ j # after) ?tell a = forM (j # after) ?tell a"
      by (intro forM_idle_prefix idle) (use names notin Some assms(1) in auto)
    moreover have "?tell j a = on_machine j (emitEvent E (UdevStateChangeEvent d)) a"
      using mj assms(2) [OF mj] Some by (intro on_machine_own) auto
    ultimately show ?thesis using Some by (simp add: dispatch_device_def names)
  qed
qed

end
