(* ===== verification/SafeCalls.thy ===== *)
theory SafeCalls
  imports Transitions
begin

text \<open>
  The operations that a mount point runs on the world have no undefined behaviour, whatever the system
  answers, and leave \<^verbatim>\<open>vm::Interface::instance\<close> in its place.
\<close>

section \<open>What is defined\<close>

definition defined :: "exn \<Rightarrow> bool" where
  "defined e \<longleftrightarrow> (case e of UB _ \<Rightarrow> False | _ \<Rightarrow> True)"

lemma defined_simps [simp]:
  "defined (SdBusError i s)" "defined (ResourceError i s)" "defined FilesystemError"
  "defined (RuntimeError s)" "defined (InvalidArgument s)" "defined (OutOfRange s)"
  "defined (JsonError n)" "\<not> defined (UB m)" "defined Terminate"
  by (simp_all add: defined_def)

named_theorems safe_rules \<open>operations without undefined behaviour\<close>

definition has_instance :: "world \<Rightarrow> bool" where
  "has_instance w \<longleftrightarrow> vm_instance w \<noteq> None"

lemma has_instance_hist [simp]: "has_instance (w\<lparr>hist := h\<rparr>) = has_instance w"
  by (simp add: has_instance_def)

abbreviation "wsafe \<equiv> throws_only has_instance defined"

lemma safe_liftE: "(\<And>e. r = Inl e \<Longrightarrow> defined e) \<Longrightarrow> wsafe (liftE r)"
  by (cases r) (simp_all add: throws_only_def liftE_def)

lemma safe_sys [safe_rules]: "wsafe (sys E c)" "wsafe (do_sys E c)" "wsafe (sys_bool E c)"
  by (simp_all add: throws_sys throws_do_sys throws_sys_bool)

lemma safe_throw: "defined e \<Longrightarrow> wsafe (throwM e)"
  by (rule throws_throw)

lemma safe_fs [safe_rules]: "wsafe (fs_query E c)" "wsafe (fs_do E c)" "wsafe (dbus_call E s ob i me as)"
  unfolding fs_query_def fs_do_def dbus_call_def by (intro throws_rules safe_rules safe_throw; simp)+

lemma safe_modify: "(\<And>w. vm_instance (f w) = vm_instance w) \<Longrightarrow> wsafe (modifyM f)"
  by (intro throws_modify) (simp add: has_instance_def)

lemma safe_list [safe_rules]:
  "wsafe m \<Longrightarrow> (\<And>x xs. wsafe (f x xs)) \<Longrightarrow> wsafe (case l of [] \<Rightarrow> m | x # xs \<Rightarrow> f x xs)"
  by (simp split: list.splits)

lemma safe_catch_all [safe_rules]: "wsafe m \<Longrightarrow> (\<And>e. defined e \<Longrightarrow> wsafe (h e)) \<Longrightarrow> wsafe (catchM m h)"
  by (rule throws_catch)

lemma safe_noexcept [safe_rules]: "wsafe m \<Longrightarrow> wsafe (noexceptM m)"
  unfolding noexceptM_def by (rule throws_catch, assumption) (auto intro!: safe_throw split: exn.splits)

lemma stoi_defined: "stoi s = Inl e \<Longrightarrow> defined e"
  by (auto simp: stoi_def Let_def split: prod.splits if_splits)

lemma substr_defined: "substr s n = Inl e \<Longrightarrow> defined e"
  by (auto simp: substr_def split: if_splits)

lemma slot_number_defined: "extractSlotNumber s = Inl e \<Longrightarrow> defined e"
  by (auto simp: extractSlotNumber_def split: option.splits sum.splits intro: stoi_defined substr_defined)

lemma session_id_defined: "extractSessionId s = Inl e \<Longrightarrow> defined e"
  by (auto simp: extractSessionId_def split: option.splits sum.splits if_splits intro: stoi_defined)

subsection \<open>The gadget\<close>

lemma safe_echo [safe_rules]: "wsafe (echoToFile E f c)" "wsafe (echo E f c)"
  unfolding echo_def echoToFile_def by (intro throws_rules safe_rules)+

lemma safe_slot_tools [safe_rules]:
  "wsafe (powerSaveMode E s)" "wsafe (eventLogSupport E t)" "wsafe (detectImageType E f)"
  unfolding powerSaveMode_def eventLogSupport_def detectImageType_def by (intro throws_rules safe_rules)+

lemma safe_image_size [safe_rules]: "wsafe (image_size E f)"
  unfolding image_size_def by (intro throws_rules safe_rules safe_throw) simp_all

lemma safe_hub [safe_rules]: "wsafe (usb_hub E)"
  unfolding usb_hub_def by (intro throws_rules safe_rules)

lemma safe_sessions [safe_rules]: "wsafe (register_session E name i)" "wsafe (unregister_session E name)"
proof -
  have "wsafe (lookup_web_session E i)"
    unfolding lookup_web_session_def by (intro throws_rules safe_rules safe_liftE session_id_defined)
  then show "wsafe (register_session E name i)"
    unfolding register_session_def Let_def by (intro throws_rules safe_rules safe_modify) simp_all
  show "wsafe (unregister_session E name)"
    unfolding unregister_session_def by (intro throws_rules safe_rules safe_modify) simp
qed

lemma safe_bind_port [safe_rules]: "wsafe (bind_port E udc hub)"
proof -
  have vhub: "wsafe (bind_vhub E udc dir hub ports)" for dir ports
    by (induction ports) (auto intro!: throws_rules safe_rules safe_liftE stoi_defined split: option.splits)
  have npcm: "wsafe (bind_npcm E udc dir hub ports)" for dir ports
    by (induction ports) (auto intro!: throws_rules safe_rules safe_liftE stoi_defined split: option.splits)
  show ?thesis
    unfolding bind_port_def list_directory_def Let_def by (intro throws_rules safe_rules vhub npcm)
qed

lemma safe_configure [safe_rules]: "wsafe (configure_nbd E name dev ch rw info)"
proof -
  have dirs: "wsafe (remove_dirs E ds)" for ds
    by (induction ds) (auto intro!: throws_rules safe_rules)
  have remove: "wsafe (remove_gadget E p name b)" for p b
    unfolding remove_gadget_def by (intro throws_rules safe_rules dirs)
  have attach: "wsafe (attach_image E p hub name path info t)" for p hub path t
    unfolding attach_image_def watch_share_def fork_children_def
    by (intro throws_rules safe_rules safe_liftE slot_number_defined safe_modify) simp_all
  have insert: "wsafe (insert_gadget E p hub name path rw info)" for p hub path
    unfolding insert_gadget_def prepare_gadget_def prepare_dirs_def by (intro throws_rules safe_rules attach)
  show ?thesis
    unfolding configure_nbd_def configure_def Let_def
    by (intro throws_rules safe_rules insert remove)
      (auto intro!: throws_rules safe_rules safe_throw remove split: option.splits)
qed

subsection \<open>Everything else\<close>

lemma safe_gadget [safe_rules]:
  "wsafe (gadget_create E name dev d rw info)" "wsafe (gadget_destroy E name dev)"
  unfolding gadget_create_def gadget_destroy_def
  by (intro throws_rules safe_rules safe_throw | assumption)+

lemma safe_volatile [safe_rules]: "wsafe (volatile_create E c)" "wsafe (volatile_destroy E f)"
  unfolding volatile_create_def volatile_destroy_def purgeFileContents_def
  by (intro throws_rules safe_rules safe_throw; simp)+

lemma safe_mounts [safe_rules]:
  "wsafe (directory_create E name)" "wsafe (nfsMount_create E dir remote rw)"
  "wsafe (smbMount_create E dir cr remote rw)" "wsafe (mount_destroy E dir)"
proof -
  have share: "wsafe (mount_create E m msg dir remote rw)" if "\<And>r b. wsafe (m r b)" for m msg
    unfolding mount_create_def directory_destroy_def
    by (intro throws_rules safe_rules safe_throw that) simp
  have safe: "wsafe (safeMount E r l f fl op)" for r l f fl op
    unfolding safeMount_def Let_def by (intro throws_rules safe_rules)
  show "wsafe (directory_create E name)"
    unfolding directory_create_def by (intro throws_rules safe_rules safe_throw) simp
  show "wsafe (nfsMount_create E dir remote rw)"
    unfolding nfsMount_create_def nfs_mount_def Let_def
    by (intro share) (auto intro!: throws_rules safe split: option.splits)
  have "wsafe (smb_mount_with E d r b c)" for d r b c
    unfolding smb_mount_with_def Let_def by (intro throws_rules safe)
  then show "wsafe (smbMount_create E dir cr remote rw)"
    unfolding smbMount_create_def smb_driver_def smb_mount_def Let_def
    by (intro share throws_rules)
  show "wsafe (mount_destroy E dir)"
    unfolding mount_destroy_def directory_destroy_def by (intro throws_rules safe_rules)
qed

lemma safe_children [safe_rules]:
  "wsafe (process_reap E name)" "wsafe (process_stop E name dev)" "wsafe (getStats E name)"
proof -
  have wait: "wsafe (wait_exit E name n)" for n
    by (induction n) (simp_all, (intro throws_rules safe_rules | assumption)+)
  show "wsafe (process_reap E name)" "wsafe (process_stop E name dev)" "wsafe (getStats E name)"
    unfolding process_reap_def process_stop_def nbd_disconnect_def getStats_def Let_def
    by (intro throws_rules safe_rules wait)+
qed

lemma safe_loadJson [safe_rules]: "wsafe (loadJson E)"
  by (auto simp: throws_only_def loadJson_def has_instance_def split: option.splits)

lemma json_defined:
  "json_get_string v = Inl e \<Longrightarrow> defined e" "json_at v k = Inl e \<Longrightarrow> defined e" "json_set v k x = Inl e \<Longrightarrow> defined e"
  by (auto simp: json_get_string_def json_at_def json_set_def split: json.splits option.splits)

lemma safe_image_urls [safe_rules]: "wsafe (loadImageURLFromJson E)" "wsafe (saveImageURLToJson E url slot)"
proof -
  have publish: "wsafe (publish_urls E a b)" for a b
    by (auto simp: throws_only_def publish_urls_def then_do_sys modifyM_def has_instance_def split: option.splits)
  have url: "image_url_of j s = Inl e \<Longrightarrow> defined e" for j s e
    by (auto simp: image_url_of_def split: option.splits intro: json_defined)
  have set: "set_image_url j s u = Inl e \<Longrightarrow> defined e" for j s u e
    by (auto simp: set_image_url_def split: option.splits sum.splits intro: json_defined)
  show load: "wsafe (loadImageURLFromJson E)"
    unfolding loadImageURLFromJson_def
    by (intro throws_rules safe_rules safe_liftE publish) (auto intro: url)
  show "wsafe (saveImageURLToJson E url slot)"
    unfolding saveImageURLToJson_def writeJson_def
    by (intro throws_rules safe_rules safe_modify safe_liftE load) (auto intro: set)
qed

lemma keeps_interfaces: "keeps has_instance (addInterfaces E)"
proof -
  have member: "keeps has_instance (json_member k)" for k
    by (rule keeps_json_member) (simp add: has_instance_def)
  have change: "keeps has_instance (modify_instance f)" for f
    by (auto simp: keeps_def modify_instance_def has_instance_def split: option.splits)
  show ?thesis
    unfolding addInterfaces_def addRmediaInterface_def
    by (intro keeps_rules throws_only_keeps [OF safe_loadJson] throws_only_keeps [OF safe_image_urls(1)]
        throws_only_keeps [OF safe_sys(2)] member change)
qed

lemma safe_SetAll [safe_rules]: "wsafe (SetAll E c i)"
  unfolding throws_only_def
proof (intro allI impI)
  fix w
  assume "has_instance w"
  then obtain vi where vi: "vm_instance w = Some vi" by (auto simp: has_instance_def)
  show "has_instance (snd (SetAll E c i w)) \<and> (case fst (SetAll E c i w) of Inl e \<Rightarrow> defined e | Inr _ \<Rightarrow> True)"
  proof (cases "retry_in_range c i \<and> \<not> (RetryCount vi = c \<and> RetryInterval vi = i)")
    case True
    then have "vm_instance (snd (persist_retry E c i (w\<lparr>vm_instance := Some (with_retry c i vi)\<rparr>))) = Some (with_retry c i vi)"
      by (intro keepsD [OF keeps_instance_persist]) simp
    with True vi show ?thesis by (simp add: SetAll_change has_instance_def)
  next
    case False
    with vi \<open>has_instance w\<close> show ?thesis by (auto simp: SetAll_def returnM_def)
  qed
qed

lemma safe_sessionCallback [safe_rules]: "wsafe (sessionCallback E msg)"
proof -
  have "wsafe (remove_sessions E ids)" for ids
    by (induction ids) (unfold remove_sessions.simps, (intro throws_rules safe_rules safe_modify; simp)+)
  then have "wsafe (handleSessions E ses)" for ses
    unfolding handleSessions_def by (intro throws_rules)
  then show ?thesis
    unfolding sessionCallback_def
    by (intro safe_catch_all throws_rules) (auto intro!: throws_rules safe_throw split: option.splits)
qed

lemma safe_slot_files [safe_rules]:
  "wsafe (prepare_socket_dir E dir)" "wsafe (store_creds n t info)" "wsafe (async_write E n cr)"
  unfolding prepare_socket_dir_def store_creds_def async_write_def
  by (intro throws_rules safe_rules safe_modify; simp)+

lemma safe_register [safe_rules]:
  "wsafe (cleanUpMountPoint E name c)" "wsafe (addMountPointInterface E name c)" "wsafe (addProcessInterface E name c)"
proof -
  have all: "wsafe (register_all E ob i ns)" for ob i ns
    unfolding register_all_def by (intro throws_rules safe_rules)
  show "wsafe (addMountPointInterface E name c)" "wsafe (addProcessInterface E name c)"
    unfolding addMountPointInterface_def addProcessInterface_def by (rule all)+
  show "wsafe (cleanUpMountPoint E name c)"
    unfolding cleanUpMountPoint_def isConfigured_def Let_def by (intro throws_rules safe_rules)
qed

end
