(* ===== verification/Identity.thy ===== *)
theory Identity
  imports SafeCalls
begin

text \<open>
  What no operation of a mount point changes: its name and its configuration, but for the remaining
  inactivity time that it publishes there. The mount points of the application can therefore be told
  apart by what they were made with. Nor does an operation take \<^verbatim>\<open>vm::Interface::instance\<close> away; both
  facts follow the structure of the operations and are shown at once.
\<close>

definition identity :: "machine \<Rightarrow> string \<times> mount_point" where
  "identity m = (mc_name m, (config m)\<lparr>remainingInactivityTimeout := None\<rparr>)"

text \<open>The mount point is the one given, and the interface object is there if it was said to be.\<close>

abbreviation identified :: "(string \<times> mount_point) \<times> bool \<Rightarrow> st \<Rightarrow> bool" where
  "identified x \<equiv> (\<lambda>s. identity (mc s) = fst x \<and> (snd x \<longrightarrow> has_instance (wd s)))"

lemma identity_updates [simp]:
  "identity (m\<lparr>additionalInfo := i\<rparr>) = identity m" "identity (m\<lparr>target := t\<rparr>) = identity m"
  "identity (m\<lparr>mc_state := s\<rparr>) = identity m" "identity (m\<lparr>exitCode := c\<rparr>) = identity m"
  "identity (m\<lparr>completion := k\<rparr>) = identity m" "identity (m\<lparr>lastAccess := a\<rparr>) = identity m"
  "identity (m\<lparr>lastStats := l\<rparr>) = identity m" "identity (m\<lparr>tick_timer := w\<rparr>) = identity m"
  "identity (m\<lparr>stale_tick := b\<rparr>) = identity m" "identity (m\<lparr>children := cs\<rparr>) = identity m"
  "identity (m\<lparr>stops := n\<rparr>) = identity m" "identity (m\<lparr>posted_events := p\<rparr>) = identity m"
  "identity (m\<lparr>config := (config m)\<lparr>remainingInactivityTimeout := r\<rparr>\<rparr>) = identity m"
  by (simp_all add: identity_def)

lemma identity_make [simp]:
  "identity (make_machine n c) = (n, c\<lparr>remainingInactivityTimeout := None\<rparr>)"
  by (simp add: identity_def make_machine_def)

lemma identity_device: "identity m = (n, c) \<Longrightarrow> nbdDevice (config m) = nbdDevice c"
  and identity_mode: "identity m = (n, c) \<Longrightarrow> mp_mode (config m) = mp_mode c"
  by (auto simp: identity_def)

section \<open>Every operation keeps the identity\<close>

named_theorems identity_rules \<open>operations that keep the identity of a mount point\<close>

lemmas identity_steps = keeps_return keeps_throw keeps_get keeps_liftE keeps_bind keeps_then
  keeps_catch keeps_when keeps_if keeps_option keeps_for keeps_getMC keeps_noexceptM

lemma identity_liftW [identity_rules]: "wsafe m \<Longrightarrow> keeps (identified x) (liftW m)"
  by (fastforce simp: throws_only_def keeps_def liftW_def split: prod.splits)

lemma identity_modify: "(\<And>m. identity (f m) = identity m) \<Longrightarrow> keeps (identified x) (modifyMC f)"
  unfolding modifyMC_def by (rule keeps_modify) simp

lemma identity_the_target [identity_rules]:
  "(\<And>t. keeps (identified x) (f t)) \<Longrightarrow> keeps (identified x) (the_target f)"
  unfolding the_target_def by (intro identity_steps)

lemma identity_assignments [identity_rules]:
  "keeps (identified x) (setAdditionalInfo i)" "keeps (identified x) (notificationInitialize a b)"
  "keeps (identified x) (modify_target g)" "keeps (identified x) (set_process p)"
  "keeps (identified x) (set_state s)" "keeps (identified x) move_out"
  "keeps (identified x) active_onEnter"
  unfolding setAdditionalInfo_def notificationInitialize_def modify_target_def set_process_def
    set_state_def move_out_def active_onEnter_def
  by (intro identity_steps identity_modify; simp)+

lemma identity_notify [identity_rules]:
  "keeps (identified x) notificationStart" "keeps (identified x) (notify_client E ec)"
  unfolding notificationStart_def notify_client_def
  by (intro identity_steps; auto split: prod.splits intro!: identity_steps identity_rules safe_rules identity_modify)+

lemma identity_fail [identity_rules]:
  "keeps (identified x) (ready_ok E)" "keeps (identified x) (ready_error E ec msg)"
  "keeps (identified x) (fail_with E ec msg)" "keeps (identified x) (spawned_or E ec msg ok)"
  unfolding ready_ok_def ready_error_def fail_with_def spawned_or_def
  by (intro identity_steps identity_rules safe_rules)+

lemma identity_destroy [identity_rules]:
  "keeps (identified x) (destroy_process E p)" "keeps (identified x) (destroy_gadget E g)"
  "keeps (identified x) (destroy_secret E f)" "keeps (identified x) (destroy_mount E d)"
  unfolding destroy_process_def destroy_gadget_def destroy_secret_def destroy_mount_def
  by (intro identity_steps identity_rules safe_rules identity_modify; simp)+

lemma identity_destroy_state [identity_rules]:
  "keeps (identified x) (destroy_state E old)" "keeps (identified x) (clear_target E)"
  "keeps (identified x) (set_target E t)"
  unfolding destroy_state_def set_target_def clear_target_def
  by (intro identity_steps identity_rules safe_rules identity_modify; simp)+

lemma identity_spawn [identity_rules]:
  "keeps (identified x) (process_spawn E app args sec)" "keeps (identified x) (spawnNbdKit E sec ps)"
  "keeps (identified x) (spawnNbdKit_file E file_path)" "keeps (identified x) (spawnNbdKit_url E url)"
proof -
  show spawn: "keeps (identified x) (process_spawn E app args sec)" for app args sec
    unfolding process_spawn_def by (intro identity_steps identity_rules safe_rules identity_modify) simp
  show kit: "keeps (identified x) (spawnNbdKit E sec ps)" for sec ps
    unfolding spawnNbdKit_def spawn_nbdkit_body_def by (intro identity_steps identity_rules safe_rules spawn)
  show "keeps (identified x) (spawnNbdKit_file E file_path)" "keeps (identified x) (spawnNbdKit_url E url)"
    unfolding spawnNbdKit_file_def spawnNbdKit_url_def by (intro identity_steps identity_rules safe_rules kit)+
qed

lemma identity_catch_error [identity_rules]:
  "keeps (identified x) m \<Longrightarrow> keeps (identified x) (catch_resource_error E m)"
  unfolding catch_resource_error_def
  by (intro keeps_catch) (auto split: exn.split intro!: identity_steps identity_rules safe_rules)

lemma identity_media [identity_rules]:
  "keeps (identified x) (mountLocalFile E)" "keeps (identified x) (mountSmbShare E)"
  "keeps (identified x) (mountNfsShare E)" "keeps (identified x) (mountHttpsShare E)"
  unfolding mountLocalFile_def mountSmbShare_def mountNfsShare_def mountHttpsShare_def Let_def
  by (intro identity_steps identity_rules safe_rules)+

lemma identity_activate [identity_rules]: "keeps (identified x) (activating_onEnter E)"
proof -
  have url: "keeps (identified x) (activate_url E n)" for n
    unfolding activate_url_def by (intro identity_steps identity_rules safe_rules)
  have "keeps (identified x) (activateLegacyMode E)"
    unfolding activateLegacyMode_def
    by (intro identity_steps identity_rules safe_rules) (auto split: prod.split intro!: identity_steps identity_rules safe_rules url)
  moreover have "keeps (identified x) (activateProxyMode E)"
    unfolding activateProxyMode_def by (intro identity_steps identity_rules safe_rules)
  ultimately show ?thesis
    unfolding activating_onEnter_def by (intro identity_steps identity_modify) simp_all
qed

lemma identity_onEnter [identity_rules]: "keeps (identified x) (onEnter E)"
  unfolding onEnter_def ready_onEnter_def deactivating_onEnter_def
  by (intro identity_steps)
    (auto split: bstate.split intro!: identity_steps identity_rules safe_rules identity_modify)

lemma identity_changeState [identity_rules]: "keeps (identified x) (changeState E n b)"
  by (induction n arbitrary: b) (auto intro!: identity_steps identity_rules safe_rules)

lemma identity_deactivate [identity_rules]: "keeps (identified x) (some_state (make_deactivating p g e))"
  unfolding some_state_def make_deactivating_def by (intro identity_steps identity_rules safe_rules)

lemma identity_register [identity_rules]: "keeps (identified x) (initial_register E)"
  unfolding initial_register_def addServiceInterface_def Let_def by (intro identity_steps identity_rules safe_rules)

lemma identity_activating [identity_rules]:
  "keeps (identified x) (activating_udev E p g d)" "keeps (identified x) (activating_stopped E)"
  "keeps (identified x) (evaluate E u st)"
  unfolding activating_udev_def activating_stopped_def evaluate_def
  by (intro identity_steps identity_rules safe_rules identity_modify; simp)+

lemma identity_handleEvent [identity_rules]: "keeps (identified x) (handleEvent E e)"
  unfolding handleEvent_def handle_defs
  by (intro identity_steps)
    (auto split: bstate.split event.split intro!: identity_steps identity_rules safe_rules)

lemma identity_emitEvent [identity_rules]: "keeps (identified x) (emitEvent E e)"
  unfolding emitEvent_def by (intro identity_steps identity_rules safe_rules)

lemma identity_loop_step: "keeps (identified x) (loop_step E limit op)"
proof -
  have update: "keeps (identified x) (update_notification E f)" for f
    unfolding update_notification_def
    by (intro identity_steps) (auto split: prod.splits intro!: identity_steps identity_rules safe_rules identity_modify)
  have tick: "keeps (identified x) (active_tick E limit now)" for now
    unfolding active_tick_def Let_def
    by (intro identity_steps identity_rules safe_rules identity_modify)
      (auto intro!: identity_modify simp: identity_def)
  have reap: "keeps (identified x) (child_exit E i)" for i
    unfolding child_exit_def remove_child_def
    by (intro identity_steps identity_rules safe_rules identity_modify) (simp add: identity_def)
  have mount: "keeps (identified x) (proxyMount E i)" "keeps (identified x) (legacyMount E u rw sc i)"
    "keeps (identified x) (unmountMethod E)" for i u rw sc
    unfolding proxyMount_def legacyMount_def unmountMethod_def
    by (intro identity_steps identity_rules safe_rules)+
  show ?thesis
    by (cases op)
      (auto simp: loop_step_def emitUdevStateChangeEvent_def run_stop_def run_posted_def run_tick_def
        split: list.split prod.split intro!: identity_steps identity_rules safe_rules update tick reap mount identity_modify)
qed

end
