(* ===== verification/LocalService.thy ===== *)
theory LocalService
  imports App Identity
begin

text \<open>
  The service for local media (\<^verbatim>\<open>createGlobalLocalMountInterface\<close> in \<^verbatim>\<open>src/state/initial_state.hpp\<close>): its four
  methods over the registered mount points, and what they promise to each other.
\<close>

section \<open>The slots\<close>

definition slotOrder :: "string list" where
  "slotOrder = [''Slot_0'', ''Slot_1'', ''Slot_2'', ''Slot_3'']"

text \<open>\<^verbatim>\<open>allMountPoints.find(slotName)\<close>: the registry points into the map of the application.\<close>

definition registered_machine :: "app \<Rightarrow> string \<Rightarrow> machine option" where
  "registered_machine a slotName = (if slotName \<in> set (registry a) then sm_find (mpsm a) slotName else None)"

definition lmedia :: string where "lmedia = ''/tmp/lmedia/''"

definition available :: "app \<Rightarrow> string \<Rightarrow> bool" where
  "available a slotName =
     (case registered_machine a slotName of
        None \<Rightarrow> False
      | Some m \<Rightarrow> in_ready m \<and> target m = None)"

section \<open>The methods\<close>

definition listAvailableSlots :: "app \<Rightarrow> string list" where
  "listAvailableSlots a = filter (available a) slotOrder"

text \<open>
  The service looks for the active local medium in three loops of their own, one in each of \<^verbatim>\<open>GetCurrentMount\<close>,
  \<^verbatim>\<open>Unmount\<close> and \<^verbatim>\<open>Mount\<close>, over three lists of slots of their own.
\<close>

fun current_loop :: "env \<Rightarrow> string list \<Rightarrow> string aprog" where
  "current_loop E [] = returnM ''''"
| "current_loop E (slotName # rest) =
     bindM (getM (\<lambda>a. registered_machine a slotName)) (\<lambda>it.
       case it of
         None \<Rightarrow> current_loop E rest
       | Some machine \<Rightarrow>
           (case target machine of
              None \<Rightarrow> current_loop E rest
            | Some t \<Rightarrow>
                if starts_with (imgUrl t) lmedia
                then bindM (liftApp (fs_query E (Exists (imgUrl t)))) (\<lambda>there.
                       if there then returnM (slotName @ '':'' @ imgUrl t) else current_loop E rest)
                else current_loop E rest))"

definition getCurrentMount :: "env \<Rightarrow> string aprog" where
  "getCurrentMount E = current_loop E [''Slot_0'', ''Slot_1'', ''Slot_2'', ''Slot_3'']"

fun unmount_loop :: "env \<Rightarrow> string list \<Rightarrow> bool aprog" where
  "unmount_loop E [] = returnM False"
| "unmount_loop E (slotName # rest) =
     bindM (getM (\<lambda>a. registered_machine a slotName)) (\<lambda>it.
       case it of
         None \<Rightarrow> unmount_loop E rest
       | Some machine \<Rightarrow>
           (case target machine of
              None \<Rightarrow> unmount_loop E rest
            | Some t \<Rightarrow>
                if starts_with (imgUrl t) lmedia
                then bindM (liftApp (fs_query E (Exists (imgUrl t)))) (\<lambda>there.
                       if there
                       then thenM (on_machine slotName (emitEvent E UnmountEvent)) (returnM True)
                       else unmount_loop E rest)
                else unmount_loop E rest))"

definition localUnmount :: "env \<Rightarrow> bool aprog" where
  "localUnmount E = unmount_loop E [''Slot_0'', ''Slot_1'', ''Slot_2'', ''Slot_3'']"

text \<open>The loop that takes the first slot that is free.\<close>

definition mount_on :: "env \<Rightarrow> string \<Rightarrow> bool \<Rightarrow> string \<Rightarrow> string aprog" where
  "mount_on E localPath rw slotName =
     thenM (on_machine slotName
              (thenM (setAdditionalInfo ''LMEDIA'')
                 (emitEvent E (MountEvent (Some (make_target localPath rw None))))))
       (returnM slotName)"

fun take_slot :: "env \<Rightarrow> string \<Rightarrow> bool \<Rightarrow> string list \<Rightarrow> string aprog" where
  "take_slot E localPath rw [] = throwM (SdBusError EBUSY ''No available slots for local mounting'')"
| "take_slot E localPath rw (slotName # rest) =
     bindM (getM (\<lambda>a. available a slotName)) (\<lambda>free.
       if free then mount_on E localPath rw slotName else take_slot E localPath rw rest)"

definition busy_with :: "string \<Rightarrow> string \<Rightarrow> exn" where
  "busy_with slotName mountedPath =
     SdBusError EBUSY (''Only one local media redirection allowed at a time. Currently mounted: '' @
       mountedPath @ '' on '' @ slotName)"

text \<open>The loop that refuses a second local medium.\<close>

fun check_loop :: "env \<Rightarrow> string list \<Rightarrow> unit aprog" where
  "check_loop E [] = returnM ()"
| "check_loop E (slotName # rest) =
     bindM (getM (\<lambda>a. registered_machine a slotName)) (\<lambda>it.
       case it of
         None \<Rightarrow> check_loop E rest
       | Some machine \<Rightarrow>
           (case target machine of
              None \<Rightarrow> check_loop E rest
            | Some t \<Rightarrow>
                if starts_with (imgUrl t) lmedia
                then bindM (liftApp (fs_query E (Exists (imgUrl t)))) (\<lambda>there.
                       if there then throwM (busy_with slotName (imgUrl t)) else check_loop E rest)
                else check_loop E rest))"

definition localMount :: "env \<Rightarrow> string \<Rightarrow> bool \<Rightarrow> string aprog" where
  "localMount E localPath rw =
     thenM (check_loop E slotOrder)
       (if \<not> starts_with localPath lmedia
        then throwM (SdBusError EINVAL ''Local media redirection only allowed from /tmp/lmedia directory'')
        else bindM (liftApp (fs_query E (Exists localPath))) (\<lambda>there.
        if \<not> there then throwM (SdBusError ENOENT (''Local file not found: '' @ localPath))
        else bindM (liftApp (fs_query E (IsRegularFile localPath))) (\<lambda>regular.
        if \<not> regular then throwM (SdBusError EINVAL (''File must be a regular file: '' @ localPath))
        else bindM (liftApp (detectImageType E localPath)) (\<lambda>imgType.
        if imgType = 1 \<and> rw
        then throwM (SdBusError EPERM ''CD image redirection is only allowed with read-only access'')
        else take_slot E localPath rw slotOrder))))"

section \<open>One search for the three loops\<close>

text \<open>
  The specification the three loops are compared with: the first slot whose target is a local path with a
  file that is there.
\<close>

definition local_path :: "app \<Rightarrow> string \<Rightarrow> string option" where
  "local_path a slotName =
     (case registered_machine a slotName of
        None \<Rightarrow> None
      | Some m \<Rightarrow>
          (case target m of
             None \<Rightarrow> None
           | Some t \<Rightarrow> if starts_with (imgUrl t) lmedia then Some (imgUrl t) else None))"

fun find_local :: "env \<Rightarrow> string list \<Rightarrow> (string \<times> string) option aprog" where
  "find_local E [] = returnM None"
| "find_local E (slotName # rest) =
     bindM (getM (\<lambda>a. local_path a slotName)) (\<lambda>p.
       case p of
         None \<Rightarrow> find_local E rest
       | Some mountedPath \<Rightarrow>
           bindM (liftApp (fs_query E (Exists mountedPath))) (\<lambda>there.
             if there then returnM (Some (slotName, mountedPath)) else find_local E rest))"

lemma find_local_bind:
  "bindM (find_local E (slotName # rest)) f a =
     (case local_path a slotName of
        None \<Rightarrow> bindM (find_local E rest) f a
      | Some p \<Rightarrow>
          bindM (liftApp (fs_query E (Exists p))) (\<lambda>there.
            if there then f (Some (slotName, p)) else bindM (find_local E rest) f) a)"
  by (auto simp: bindM_def returnM_def split: option.splits sum.splits prod.splits)

lemma current_loop_search:
  "current_loop E slots = bindM (find_local E slots) (\<lambda>found.
     returnM (case found of Some (slotName, mountedPath) \<Rightarrow> slotName @ '':'' @ mountedPath | None \<Rightarrow> ''''))"
proof (induction slots)
  case (Cons n rest)
  then show ?case
    by (intro ext) (auto simp: find_local_bind local_path_def simp del: find_local.simps split: option.splits
        cong: if_cong)
qed simp

lemma unmount_loop_search:
  "unmount_loop E slots = bindM (find_local E slots) (\<lambda>found.
     case found of
       Some (slotName, mountedPath) \<Rightarrow> thenM (on_machine slotName (emitEvent E UnmountEvent)) (returnM True)
     | None \<Rightarrow> returnM False)"
proof (induction slots)
  case (Cons n rest)
  then show ?case
    by (intro ext) (auto simp: find_local_bind local_path_def simp del: find_local.simps split: option.splits
        cong: if_cong)
qed simp

lemma check_loop_search:
  "check_loop E slots = bindM (find_local E slots) (\<lambda>found.
     case found of
       Some (slotName, mountedPath) \<Rightarrow> throwM (busy_with slotName mountedPath)
     | None \<Rightarrow> returnM ())"
proof (induction slots)
  case (Cons n rest)
  then show ?case
    by (intro ext) (auto simp: find_local_bind local_path_def simp del: find_local.simps split: option.splits
        cong: if_cong)
qed simp

lemma getCurrentMount_search:
  "getCurrentMount E =
     bindM (find_local E slotOrder) (\<lambda>found.
       returnM (case found of Some (slotName, mountedPath) \<Rightarrow> slotName @ '':'' @ mountedPath | None \<Rightarrow> ''''))"
  unfolding getCurrentMount_def slotOrder_def by (rule current_loop_search)

lemma localUnmount_search:
  "localUnmount E =
     bindM (find_local E slotOrder) (\<lambda>found.
       case found of
         Some (slotName, mountedPath) \<Rightarrow>
           thenM (on_machine slotName (emitEvent E UnmountEvent)) (returnM True)
       | None \<Rightarrow> returnM False)"
  unfolding localUnmount_def slotOrder_def by (rule unmount_loop_search)

lemma localMount_search:
  "localMount E localPath rw =
     bindM (find_local E slotOrder) (\<lambda>active.
       case active of
         Some (slotName, mountedPath) \<Rightarrow> throwM (busy_with slotName mountedPath)
       | None \<Rightarrow>
           if \<not> starts_with localPath lmedia
           then throwM (SdBusError EINVAL ''Local media redirection only allowed from /tmp/lmedia directory'')
           else bindM (liftApp (fs_query E (Exists localPath))) (\<lambda>there.
           if \<not> there then throwM (SdBusError ENOENT (''Local file not found: '' @ localPath))
           else bindM (liftApp (fs_query E (IsRegularFile localPath))) (\<lambda>regular.
           if \<not> regular then throwM (SdBusError EINVAL (''File must be a regular file: '' @ localPath))
           else bindM (liftApp (detectImageType E localPath)) (\<lambda>imgType.
           if imgType = 1 \<and> rw
           then throwM (SdBusError EPERM ''CD image redirection is only allowed with read-only access'')
           else take_slot E localPath rw slotOrder))))"
  unfolding localMount_def check_loop_search thenM_def bindM_assoc
  by (intro arg_cong [where f = "bindM (find_local E slotOrder)"] ext) (simp split: option.split)

section \<open>Questions to the file system change no machine\<close>

text \<open>\<open>asked new a a'\<close>: from \<open>a\<close> to \<open>a'\<close> only the calls \<open>new\<close> were made.\<close>

definition asked :: "hist \<Rightarrow> app \<Rightarrow> app \<Rightarrow> bool" where
  "asked new a a' \<longleftrightarrow> a' = a\<lparr>app_wd := (app_wd a)\<lparr>hist := new @ hist (app_wd a)\<rparr>\<rparr>"

lemma asked_none [simp]: "asked [] a a"
  by (simp add: asked_def)

lemma asked_trans: "asked new a b \<Longrightarrow> asked new' b c \<Longrightarrow> asked (new' @ new) a c"
  by (simp add: asked_def)

lemma asked_same:
  assumes "asked new a a'"
  shows "mpsm a' = mpsm a" "registry a' = registry a" "available a' = available a" "local_path a' = local_path a"
  using assms
  by (auto simp: asked_def available_def local_path_def registered_machine_def fun_eq_iff split: option.splits)

lemma asked_query:
  assumes "liftApp (fs_query E c) a = (r, a')"
  shows "asked [(c, ask E (hist (app_wd a)) c)] a a' \<and>
     r = (if ask E (hist (app_wd a)) c < 0 then Inl FilesystemError else Inr (0 < ask E (hist (app_wd a)) c))"
  using assms by (auto simp: liftApp_def fs_query_def bind_sys asked_def throwM_def returnM_def split: if_splits)

lemma asked_detect:
  assumes "liftApp (detectImageType E f) a = (r, a')"
  obtains n where "asked [(DetectRead f, n)] a a'"
    and "r = Inr (if n < 0 then -1 else if ask_str E (hist (app_wd a)) (DetectRead f) = ''CD001'' then 1 else 0)"
  using assms by (auto simp: liftApp_def detectImageType_def bind_sys asked_def returnM_def split: if_splits)

text \<open>What the search for local media finds.\<close>

definition found_at :: "app \<Rightarrow> string list \<Rightarrow> hist \<Rightarrow> (string \<times> string) option \<Rightarrow> bool" where
  "found_at a slots new found \<longleftrightarrow>
     (case found of
        None \<Rightarrow> \<forall>n \<in> set slots. \<forall>p. local_path a n = Some p \<longrightarrow> (Exists p, 0) \<in> set new
      | Some (n, p) \<Rightarrow> n \<in> set slots \<and> local_path a n = Some p \<and> (\<exists>r. 0 < r \<and> (Exists p, r) \<in> set new))"

lemma found_at_Cons:
  assumes "found_at b rest new found" and "local_path b = local_path a" and "set new \<subseteq> set new'"
    and "\<And>p. local_path a n = Some p \<Longrightarrow> (Exists p, 0) \<in> set new'"
  shows "found_at a (n # rest) new' found"
  using assms by (cases found) (auto simp: found_at_def)

lemma find_local_found:
  "find_local E slots a = (r, a') \<Longrightarrow>
     \<exists>new. asked new a a' \<and> (case r of Inl e \<Rightarrow> e = FilesystemError | Inr found \<Rightarrow> found_at a slots new found)"
proof (induction slots arbitrary: a)
  case Nil
  then show ?case by (auto simp: returnM_def found_at_def intro!: exI [of _ "[]"])
next
  case (Cons n rest)
  show ?case
  proof (cases "local_path a n")
    case None
    with Cons.prems have "find_local E rest a = (r, a')" by simp
    from Cons.IH [OF this] obtain new where new: "asked new a a'"
      "case r of Inl e \<Rightarrow> e = FilesystemError | Inr found \<Rightarrow> found_at a rest new found" by blast
    then have "case r of Inl e \<Rightarrow> e = FilesystemError | Inr found \<Rightarrow> found_at a (n # rest) new found"
      using None by (cases r) (auto intro: found_at_Cons)
    with new(1) show ?thesis by blast
  next
    case (Some p)
    let ?x = "ask E (hist (app_wd a)) (Exists p)"
    obtain q b where q: "liftApp (fs_query E (Exists p)) a = (q, b)" by fastforce
    from asked_query [OF q] have b: "asked [(Exists p, ?x)] a b"
      and qr: "q = (if ?x < 0 then Inl FilesystemError else Inr (0 < ?x))" by auto
    show ?thesis
    proof (cases "?x = 0")
      case True
      with Cons.prems Some q qr have "find_local E rest b = (r, a')" by (simp add: bindM_def [of "liftApp _"])
      from Cons.IH [OF this] obtain new where new: "asked new b a'"
        "case r of Inl e \<Rightarrow> e = FilesystemError | Inr found \<Rightarrow> found_at b rest new found" by blast
      let ?new = "new @ [(Exists p, ?x)]"
      have "case r of Inl e \<Rightarrow> e = FilesystemError | Inr found \<Rightarrow> found_at a (n # rest) ?new found"
        using new(2) True Some asked_same(4) [OF b]
        by (cases r) (auto intro!: found_at_Cons [of b rest new])
      with asked_trans [OF b new(1)] show ?thesis by blast
    next
      case False
      with Cons.prems Some q qr have "a' = b \<and> r = (if ?x < 0 then Inl FilesystemError else Inr (Some (n, p)))"
        by (auto simp: bindM_def [of "liftApp _"] returnM_def split: if_splits)
      with b False Some show ?thesis
        by (intro exI [of _ "[(Exists p, ?x)]"]) (auto simp: found_at_def)
    qed
  qed
qed

lemma find_local_none: "(\<And>n. n \<in> set slots \<Longrightarrow> local_path a n = None) \<Longrightarrow> find_local E slots a = (Inr None, a)"
  by (induction slots) (simp_all add: returnM_def)

lemma take_slot_first:
  "take_slot E path rw slots a =
     (case filter (available a) slots of
        [] \<Rightarrow> (Inl (SdBusError EBUSY ''No available slots for local mounting''), a)
      | slot # _ \<Rightarrow> mount_on E path rw slot a)"
  by (induction slots) (simp_all add: throwM_def)

lemma mount_on_others:
  "mount_on E path rw slot a = (r, a') \<Longrightarrow> sm_wf (mpsm a) \<Longrightarrow> j \<noteq> slot \<Longrightarrow>
     sm_find (mpsm a') j = sm_find (mpsm a) j"
  by (auto simp: mount_on_def thenM_def bindM_def returnM_def dest: on_machine_frame
      split: prod.splits sum.splits)

lemma mount_on_result: "mount_on E path rw slot a = (Inr n, a') \<Longrightarrow> n = slot"
  by (auto simp: mount_on_def thenM_def bindM_def returnM_def split: prod.splits sum.splits)

text \<open>What a request for local media has passed when a slot is looked for.\<close>

definition admitted :: "env \<Rightarrow> string \<Rightarrow> bool \<Rightarrow> app \<Rightarrow> hist \<Rightarrow> bool" where
  "admitted E path rw a new \<longleftrightarrow>
     found_at a slotOrder new None \<and> starts_with path lmedia \<and>
     (\<exists>r > 0. (Exists path, r) \<in> set new) \<and> (\<exists>r > 0. (IsRegularFile path, r) \<in> set new) \<and>
     (\<exists>n before. new = (DetectRead path, n) # before \<and>
        (rw \<longrightarrow> n < 0 \<or> ask_str E (before @ hist (app_wd a)) (DetectRead path) \<noteq> ''CD001''))"

text \<open>One check on a file: it refuses, or goes on with the answer on record.\<close>

lemma checked:
  assumes "bindM (liftApp (fs_query E c)) (\<lambda>x. if \<not> x then throwM e else k) a = (r, a')" and "catchable e"
  shows "(\<exists>e new. asked new a a' \<and> r = Inl e \<and> catchable e) \<or> (\<exists>n b. 0 < n \<and> asked [(c, n)] a b \<and> k b = (r, a'))"
proof -
  obtain q b where q: "liftApp (fs_query E c) a = (q, b)" by fastforce
  let ?n = "ask E (hist (app_wd a)) c"
  from asked_query [OF q] have b: "asked [(c, ?n)] a b"
    and qr: "q = (if ?n < 0 then Inl FilesystemError else Inr (0 < ?n))" by auto
  show ?thesis
  proof (cases "0 < ?n")
    case True
    with assms(1) q qr have "k b = (r, a')" by (simp add: bindM_def)
    with True b show ?thesis by blast
  next
    case False
    with assms q qr have "a' = b \<and> (\<exists>e. r = Inl e \<and> catchable e)"
      by (auto simp: bindM_def throwM_def split: if_splits)
    with b show ?thesis by blast
  qed
qed

lemma image_checked:
  assumes "bindM (liftApp (detectImageType E path)) (\<lambda>t. if t = 1 \<and> rw then throwM e else k) a = (r, a')"
    and "catchable e"
  shows "(\<exists>e new. asked new a a' \<and> r = Inl e \<and> catchable e) \<or>
    (\<exists>n b. asked [(DetectRead path, n)] a b \<and> k b = (r, a') \<and>
       (rw \<longrightarrow> n < 0 \<or> ask_str E (hist (app_wd a)) (DetectRead path) \<noteq> ''CD001''))"
proof -
  obtain q b where q: "liftApp (detectImageType E path) a = (q, b)" by fastforce
  obtain n where b: "asked [(DetectRead path, n)] a b" and qr:
    "q = Inr (if n < 0 then -1 else if ask_str E (hist (app_wd a)) (DetectRead path) = ''CD001'' then 1 else 0)"
    by (rule asked_detect [OF q])
  let ?cd = "\<not> n < 0 \<and> ask_str E (hist (app_wd a)) (DetectRead path) = ''CD001''"
  have "(if ?cd \<and> rw then throwM e else k) b = (r, a')"
    using assms(1) q qr by (cases "n < 0") (simp_all add: bindM_Inr split: if_splits)
  with b assms(2) show ?thesis
    by (cases "?cd \<and> rw") (auto simp: throwM_def)
qed

lemma localMount_cases:
  assumes "localMount E path rw a = (r, a')"
  obtains (refused) new e where "asked new a a'" and "r = Inl e" and "catchable e"
    | (admitted) new b where "asked new a b" and "admitted E path rw a new"
        and "take_slot E path rw slotOrder b = (r, a')"
proof -
  obtain f a1 where f: "find_local E slotOrder a = (f, a1)" by fastforce
  from find_local_found [OF f] obtain new1 where a1: "asked new1 a a1"
    "case f of Inl e \<Rightarrow> e = FilesystemError | Inr found \<Rightarrow> found_at a slotOrder new1 found" by blast
  have refuse: thesis if "asked new b a'" "asked old a b" "r = Inl e" "catchable e" for new old b e
    using that refused asked_trans by blast
  show thesis
  proof (cases "f = Inr None \<and> starts_with path lmedia")
    case False
    have "a' = a1 \<and> (\<exists>e. r = Inl e \<and> catchable e)"
      using assms f False a1(2)
      by (auto simp: localMount_search bindM_def throwM_def busy_with_def split: sum.splits option.splits if_splits)
    with a1(1) refused show ?thesis by blast
  next
    case True
    define k3 where "k3 = take_slot E path rw slotOrder"
    define k2 where "k2 = bindM (liftApp (detectImageType E path)) (\<lambda>t. if t = 1 \<and> rw then throwM (SdBusError EPERM
      ''CD image redirection is only allowed with read-only access'') else k3)"
    define k1 where "k1 = bindM (liftApp (fs_query E (IsRegularFile path)))
      (\<lambda>x. if \<not> x then throwM (SdBusError EINVAL (''File must be a regular file: '' @ path)) else k2)"
    from True f assms have "bindM (liftApp (fs_query E (Exists path)))
        (\<lambda>x. if \<not> x then throwM (SdBusError ENOENT (''Local file not found: '' @ path)) else k1) a1 = (r, a')"
      unfolding k1_def k2_def k3_def by (simp add: localMount_search bindM_Inr)
    from checked [OF this] consider "\<exists>e new. asked new a1 a' \<and> r = Inl e \<and> catchable e"
      | n2 a2 where "0 < n2" "asked [(Exists path, n2)] a1 a2" "k1 a2 = (r, a')" by auto
    then show ?thesis
    proof cases
      case 1
      with refuse a1(1) show ?thesis by blast
    next
      case 2
      note a2 = asked_trans [OF a1(1) 2(2)]
      from checked [OF 2(3) [unfolded k1_def]] consider "\<exists>e new. asked new a2 a' \<and> r = Inl e \<and> catchable e"
        | n3 a3 where "0 < n3" "asked [(IsRegularFile path, n3)] a2 a3" "k2 a3 = (r, a')" by auto
      then show ?thesis
      proof cases
        case 1
        with refuse a2 show ?thesis by blast
      next
        case r3: 2
        note a3 = asked_trans [OF a2 r3(2)]
        from image_checked [OF r3(3) [unfolded k2_def]] consider "\<exists>e new. asked new a3 a' \<and> r = Inl e \<and> catchable e"
          | n4 a4 where "asked [(DetectRead path, n4)] a3 a4" "k3 a4 = (r, a')"
              "rw \<longrightarrow> n4 < 0 \<or> ask_str E (hist (app_wd a3)) (DetectRead path) \<noteq> ''CD001''" by auto
        then show ?thesis
        proof cases
          case 1
          with refuse a3 show ?thesis by blast
        next
          case r4: 2
          have "hist (app_wd a3) = ([(IsRegularFile path, n3)] @ [(Exists path, n2)] @ new1) @ hist (app_wd a)"
            using a3 by (simp add: asked_def)
          with True a1(2) 2(1) r3(1) r4(3)
          have "admitted E path rw a ([(DetectRead path, n4)] @ [(IsRegularFile path, n3)] @ [(Exists path, n2)] @ new1)"
            by (auto simp: admitted_def found_at_def)
          with asked_trans [OF a3 r4(1)] r4(2) admitted show ?thesis by (simp add: k3_def)
        qed
      qed
    qed
  qed
qed

section \<open>What the methods promise\<close>

text \<open>
  C11. A request for local media either refuses and changes no mount point at all, or goes to the first
  slot that \<^verbatim>\<open>ListAvailableSlots\<close> lists, and touches that one only. It is accepted only if the path is
  below \<^verbatim>\<open>/tmp/lmedia/\<close> and a regular file was found there, if a disc image is not asked for with write
  access, and if the file of every local medium already redirected was found to be gone.
\<close>

theorem local_mount_outcome:
  assumes "localMount E path rw a = (r, a')" and "sm_wf (mpsm a)"
  shows "(\<exists>new e. r = Inl e \<and> asked new a a') \<or>
     (\<exists>new b slot others. asked new a b \<and> admitted E path rw a new \<and>
        listAvailableSlots a = slot # others \<and> mount_on E path rw slot b = (r, a') \<and>
        (\<forall>s. r = Inr s \<longrightarrow> s = slot) \<and> (\<forall>j. j \<noteq> slot \<longrightarrow> sm_find (mpsm a') j = sm_find (mpsm a) j))"
  using assms(1)
proof (cases rule: localMount_cases)
  case (admitted new b)
  note same = asked_same [OF admitted(1)]
  have slots: "filter (available b) slotOrder = listAvailableSlots a"
    by (simp add: same listAvailableSlots_def)
  show ?thesis
  proof (cases "listAvailableSlots a")
    case Nil
    with admitted slots show ?thesis by (auto simp: take_slot_first)
  next
    case (Cons slot others)
    with admitted slots have run: "mount_on E path rw slot b = (r, a')" by (simp add: take_slot_first)
    have "\<forall>s. r = Inr s \<longrightarrow> s = slot" using run by (auto dest: mount_on_result)
    moreover have "\<forall>j. j \<noteq> slot \<longrightarrow> sm_find (mpsm a') j = sm_find (mpsm a) j"
      using mount_on_others [OF run] assms(2) same(1) by simp
    ultimately show ?thesis using admitted(1,2) Cons run by blast
  qed
qed blast

definition media_env :: env where
  "media_env = quiet_env\<lparr>ask := (\<lambda>h c. case c of
     Exists f \<Rightarrow> if f = ''/s'' then 0 else 1 | IsRegularFile f \<Rightarrow> 1 | FileStatus f \<Rightarrow> 420 | _ \<Rightarrow> 0)\<rparr>"

definition sample_app :: app where
  "sample_app = (empty_app (initial_world None))\<lparr>registry := [''Slot_0''],
     mpsm := [(''Slot_0'', (make_machine ''Slot_0'' sample_mount_point)\<lparr>mc_state := ReadyState None,
       config := sample_mount_point\<lparr>remainingInactivityTimeout := Some 0\<rparr>,
       completion := Some ('''', '''', notification_new)\<rparr>)]\<rparr>"

lemma sample_app_wf: "sm_wf (mpsm sample_app)"
  by (simp add: sample_app_def sm_wf_def)

theorem local_mount_outcome_witness:
  "\<exists>a'. localMount media_env ''/tmp/lmedia/x'' False sample_app = (Inr ''Slot_0'', a') \<and>
     (\<exists>new others. admitted media_env ''/tmp/lmedia/x'' False sample_app new \<and>
        listAvailableSlots sample_app = ''Slot_0'' # others)"
proof -
  obtain a' where run: "localMount media_env ''/tmp/lmedia/x'' False sample_app = (Inr ''Slot_0'', a')"
  proof -
    have "fst (localMount media_env ''/tmp/lmedia/x'' False sample_app) = Inr ''Slot_0''" by code_simp
    then show thesis by (intro that [OF prod_eqI]) simp_all
  qed
  from local_mount_outcome [OF run sample_app_wf] run show ?thesis by auto
qed

text \<open>
  C13. The three loops of \<^verbatim>\<open>GetCurrentMount\<close>, \<^verbatim>\<open>Unmount\<close> and \<^verbatim>\<open>Mount\<close> agree on the active medium. If the first
  answers the empty text, an unmount at that point does nothing and answers false; otherwise the text names
  a slot and the local path that is its target, an unmount is exactly the unmount event of that slot, and
  every request for a further medium is refused with an error that names both.
\<close>

theorem local_unmount_current:
  assumes "getCurrentMount E a = (Inr txt, b)"
  shows "if txt = '''' then localUnmount E a = (Inr False, b)
     else \<exists>slot path. txt = slot @ '':'' @ path \<and> slot \<in> set slotOrder \<and> local_path a slot = Some path \<and>
        localUnmount E a = thenM (on_machine slot (emitEvent E UnmountEvent)) (returnM True) b \<and>
        (\<forall>localPath rw. localMount E localPath rw a = (Inl (busy_with slot path), b))"
proof -
  obtain f c where f: "find_local E slotOrder a = (f, c)" by fastforce
  from find_local_found [OF f] obtain new where
    found: "case f of Inl e \<Rightarrow> e = FilesystemError | Inr found \<Rightarrow> found_at a slotOrder new found" by blast
  show ?thesis
  proof (cases f)
    case (Inl e)
    with assms f show ?thesis by (simp add: getCurrentMount_search bindM_Inl)
  next
    case (Inr x)
    with f have run: "bindM (find_local E slotOrder) k a = k x c" for k :: "_ \<Rightarrow> 'b aprog"
      by (simp add: bindM_Inr)
    note search = getCurrentMount_search localUnmount_search localMount_search run returnM_def throwM_def
    show ?thesis
    proof (cases x)
      case None
      with assms show ?thesis by (simp add: search)
    next
      case (Some sp)
      obtain slot path where sp: "sp = (slot, path)" by (cases sp)
      with assms Some have "txt = slot @ '':'' @ path" "c = b" by (simp_all add: search)
      moreover from Inr found Some sp have "slot \<in> set slotOrder" "local_path a slot = Some path"
        by (simp_all add: found_at_def)
      ultimately have "txt = slot @ '':'' @ path \<and> slot \<in> set slotOrder \<and> local_path a slot = Some path \<and>
          localUnmount E a = thenM (on_machine slot (emitEvent E UnmountEvent)) (returnM True) b \<and>
          (\<forall>localPath rw. localMount E localPath rw a = (Inl (busy_with slot path), b))"
        using Some sp by (simp add: search)
      then show ?thesis by auto
    qed
  qed
qed

text \<open>The medium of the example of C11, once it is redirected.\<close>

theorem local_unmount_current_witness:
  "fst (localMount media_env ''/tmp/lmedia/y'' False (snd (localMount media_env ''/tmp/lmedia/x'' False sample_app)))
     = Inl (busy_with ''Slot_0'' ''/tmp/lmedia/x'') \<and>
   (\<exists>b. localUnmount media_env (snd (localMount media_env ''/tmp/lmedia/x'' False sample_app))
      = thenM (on_machine ''Slot_0'' (emitEvent media_env UnmountEvent)) (returnM True) b)"
proof -
  let ?a = "snd (localMount media_env ''/tmp/lmedia/x'' False sample_app)"
  let ?m = "getCurrentMount media_env ?a"
  have "fst ?m = Inr ''Slot_0:/tmp/lmedia/x''" by code_simp
  then have "?m = (Inr ''Slot_0:/tmp/lmedia/x'', snd ?m)" by (intro prod_eqI) simp_all
  from local_unmount_current [OF this] show ?thesis
    by (auto simp: slotOrder_def)
qed

section \<open>Where the single-medium rule does not hold\<close>

text \<open>The rule looks at the file, not at the redirection: once the file is deleted, the slot that still
  serves it is not counted.\<close>

lemma deleted_file_not_counted:
  assumes "\<And>h f. ask E h (Exists f) = 0"
  shows "\<exists>b. find_local E slots a = (Inr None, b)"
proof (induction slots arbitrary: a)
  case (Cons n rest)
  show ?case
  proof (cases "local_path a n")
    case (Some p)
    obtain c where c: "liftApp (fs_query E (Exists p)) a = (Inr False, c)"
      by (simp add: liftApp_def fs_query_def bind_sys assms returnM_def)
    from Some Cons.IH [of c] show ?thesis by (simp add: bindM_def [of "liftApp _"] c)
  qed (use Cons.IH in simp)
qed (simp add: returnM_def)

text \<open>The check of the path is a check of its first characters.\<close>

lemma prefix_allows_parent: "starts_with ''/tmp/lmedia/../../etc/shadow'' lmedia"
  by (simp add: lmedia_def starts_with_def)

end
