(* ===== verification/Service.thy ===== *)
theory Service
  imports LocalService Chart
begin

text \<open>
  The whole service: the machines of all mount points, the device monitor and the local service over one
  world. Its steps, its invariant, and the accounts of the processes and mounts over all mount points.
\<close>

section \<open>Accounts over all mount points\<close>

definition sum_over :: "(machine \<Rightarrow> int) \<Rightarrow> (string \<times> machine) list \<Rightarrow> int" where
  "sum_over f ms = (\<Sum>(n, m) \<leftarrow> ms. f m)"

lemma sum_over_simps [simp]: "sum_over f [] = 0" "sum_over f ((n, m) # ms) = f m + sum_over f ms"
  by (simp_all add: sum_over_def)

lemma sum_over_assign:
  "sm_wf ms \<Longrightarrow> sum_over f (sm_assign n m ms) =
     sum_over f ms - (case sm_find ms n of None \<Rightarrow> 0 | Some old \<Rightarrow> f old) + f m"
proof (induction n m ms rule: sm_assign.induct)
  case (2 k v j u ms)
  have "k < j \<Longrightarrow> sm_find ms k = None"
    using 2(2) by (force simp: sm_wf_Cons sm_find_def map_of_eq_None_iff)
  with 2 show ?case by (auto simp: sm_wf_Cons split: option.splits)
qed simp

definition process_of :: "machine \<Rightarrow> int" where
  "process_of m = held_process (mc_state m)"

definition mounts_of :: "string \<Rightarrow> machine \<Rightarrow> int" where
  "mounts_of d m = held_mounts (target m) d"

text \<open>What the others hold.\<close>

definition books_but :: "machine \<Rightarrow> (string \<times> machine) list \<Rightarrow> books" where
  "books_but m ms = (sum_over process_of ms - process_of m, \<lambda>d. sum_over (mounts_of d) ms - mounts_of d m)"

section \<open>The invariant\<close>

definition made_from :: "mount_points \<Rightarrow> string \<Rightarrow> machine \<Rightarrow> bool" where
  "made_from mps n m \<longleftrightarrow> (\<exists>c. (n, c) \<in> set mps \<and> identity m = (n, c\<lparr>remainingInactivityTimeout := None\<rparr>))"

definition sound :: "mount_points \<Rightarrow> app \<Rightarrow> bool" where
  "sound mps a \<longleftrightarrow>
     sm_wf (mpsm a) \<and> (\<forall>n m. sm_find (mpsm a) n = Some m \<longrightarrow> machine_ok m \<and> made_from mps n m) \<and>
     (\<forall>n \<in> set (registry a). sm_find (mpsm a) n \<noteq> None) \<and>
     running (hist (app_wd a)) = sum_over process_of (mpsm a) \<and>
     (\<forall>d. mounted d (hist (app_wd a)) = sum_over (mounts_of d) (mpsm a))"

text \<open>\<open>guards P p\<close>: \<open>p\<close> keeps \<open>P\<close> unless it ends the process.\<close>

definition guards :: "(app \<Rightarrow> bool) \<Rightarrow> 'a aprog \<Rightarrow> bool" where
  "guards P p \<longleftrightarrow> triple P p (\<lambda>_. P) (\<lambda>e a. catchable e \<longrightarrow> P a)"

named_theorems guards_rules \<open>rules for operations that keep the invariant of the service\<close>

lemma guardsD: "guards P p \<Longrightarrow> P a \<Longrightarrow> p a = (r, a') \<Longrightarrow> (\<And>e. r = Inl e \<Longrightarrow> catchable e) \<Longrightarrow> P a'"
  unfolding guards_def by (cases r) (auto dest: triple_Inr triple_Inl)

lemma guards_Inr: "guards P p \<Longrightarrow> P a \<Longrightarrow> p a = (Inr x, a') \<Longrightarrow> P a'"
  unfolding guards_def by (rule triple_Inr)

lemma guards_return [guards_rules]: "guards P (returnM x)" and guards_throw [guards_rules]: "guards P (throwM e)"
  and guards_get [guards_rules]: "guards P (getM f)"
  by (simp_all add: guards_def triple_def returnM_def throwM_def getM_def)

lemma guards_modify: "(\<And>a. P a \<Longrightarrow> P (f a)) \<Longrightarrow> guards P (modifyM f)"
  by (simp add: guards_def triple_def modifyM_def)

lemma guards_bind [guards_rules]: "guards P m \<Longrightarrow> (\<And>x. guards P (f x)) \<Longrightarrow> guards P (bindM m f)"
  unfolding guards_def by (rule triple_bind)

lemma guards_then [guards_rules]: "guards P m \<Longrightarrow> guards P n \<Longrightarrow> guards P (thenM m n)"
  unfolding thenM_def by (rule guards_bind)

lemma guards_if [guards_rules]: "guards P m \<Longrightarrow> guards P n \<Longrightarrow> guards P (if b then m else n)"
  by simp

lemma guards_when [guards_rules]: "guards P m \<Longrightarrow> guards P (whenM b m)"
  by (simp add: whenM_def guards_return)

lemma guards_option [guards_rules]:
  "guards P m \<Longrightarrow> (\<And>x. guards P (f x)) \<Longrightarrow> guards P (case r of None \<Rightarrow> m | Some x \<Rightarrow> f x)"
  by (simp split: option.split)

lemma guards_pair [guards_rules]: "(\<And>x y. guards P (f x y)) \<Longrightarrow> guards P (case p of (x, y) \<Rightarrow> f x y)"
  by (cases p) simp

lemma guards_for [guards_rules]: "(\<And>x. guards P (f x)) \<Longrightarrow> guards P (forM xs f)"
  by (induction xs) (auto intro: guards_rules)

lemma guards_noexcept [guards_rules]:
  assumes "guards P m"
  shows "guards P (noexceptM m)"
  unfolding guards_def
proof (rule tripleI)
  show "P a'" if "P a" "noexceptM m a = (Inr x, a')" for a x a'
    using that assms
    by (auto simp: guards_def noexceptM_def catchM_def throwM_def dest: triple_Inr split: prod.splits sum.splits)
  show "catchable e \<longrightarrow> P a'" if "noexceptM m a = (Inl e, a')" for a e a'
    using noexceptM_throws [OF that] by simp
qed

subsection \<open>Steps of the parts\<close>

lemma sound_liftApp: "quiet m \<Longrightarrow> guards (sound mps) (liftApp m)"
  unfolding guards_def
proof (rule tripleI)
  have keep: "sound mps a'" if "quiet m" "sound mps a" "liftApp m a = (r, a')" for r a a'
  proof -
    obtain q w where m: "m (app_wd a) = (q, w)" by fastforce
    from at_mostD [OF that(1) m] obtain new where "hist w = new @ hist (app_wd a)" "tally counted new = 0" by auto
    with that m show ?thesis by (auto simp: liftApp_def sound_def uncounted)
  qed
  show "sound mps a'" if "quiet m" "sound mps a" "liftApp m a = (Inr x, a')" for a x a'
    using keep that by blast
  show "catchable e \<longrightarrow> sound mps a'" if "quiet m" "sound mps a" "liftApp m a = (Inl e, a')" for a e a'
    using keep that by blast
qed

text \<open>A machine of the service, seen with the books of the others.\<close>

lemma sound_consistent:
  assumes "sound mps a" and "sm_find (mpsm a) n = Some m"
  shows "consistent (books_but m (mpsm a)) \<lparr>mc = m, wd = app_wd a\<rparr>"
  using assms by (simp add: sound_def own_def books_but_def process_of_def mounts_of_def)

lemma sound_update:
  assumes "sound mps a" and "sm_find (mpsm a) n = Some m" and "consistent (books_but m (mpsm a)) s"
    and "identity (mc s) = identity m"
  shows "sound mps (a\<lparr>mpsm := sm_assign n (mc s) (mpsm a), app_wd := wd s\<rparr>)"
proof -
  have wf: "sm_wf (mpsm a)" using assms(1) by (simp add: sound_def)
  have "sum_over f (sm_assign n (mc s) (mpsm a)) = sum_over f (mpsm a) - f m + f (mc s)" for f
    using sum_over_assign [OF wf, of f n "mc s"] assms(2) by simp
  with assms wf show ?thesis
    by (auto simp: sound_def own_def books_but_def process_of_def mounts_of_def made_from_def
        sm.wf_assign sm.find_assign)
qed

lemma sound_on_machine:
  assumes ok: "\<And>bk. triple (consistent bk) p (\<lambda>_. consistent bk) (unless_crash (consistent bk))"
    and same: "\<And>x. keeps (identified x) p"
  shows "guards (sound mps) (on_machine n p)"
proof -
  have step: "sound mps a'" if a: "sound mps a" and run: "on_machine n p a = (r, a')"
    and go: "\<And>e. r = Inl e \<Longrightarrow> catchable e" for a r a'
  proof -
    from run go obtain m where m: "sm_find (mpsm a) n = Some m"
      by (cases "sm_find (mpsm a) n") (auto simp: on_machine_def)
    obtain q s where s: "p \<lparr>mc = m, wd = app_wd a\<rparr> = (q, s)" by fastforce
    with run m have a': "a' = a\<lparr>mpsm := sm_assign n (mc s) (mpsm a), app_wd := wd s\<rparr>" and q: "q = r"
      by (auto simp: on_machine_def)
    let ?bk = "books_but m (mpsm a)"
    have "consistent ?bk s"
    proof (cases q)
      case (Inr x)
      from triple_Inr [OF ok sound_consistent [OF a m] s [unfolded Inr]] show ?thesis .
    next
      case (Inl e)
      from triple_Inl [OF ok sound_consistent [OF a m] s [unfolded Inl]] go q Inl
      show ?thesis by (simp add: unless_crash_def)
    qed
    moreover have "identity (mc s) = identity m"
      using keeps_result [OF same [of "(identity m, False)"] _ s] by simp
    ultimately show ?thesis unfolding a' by (rule sound_update [OF a m])
  qed
  then show ?thesis unfolding guards_def by (intro tripleI) auto
qed

lemma sound_emit: "(\<And>t. e = MountEvent (Some t) \<Longrightarrow> mountPoint t = None \<and> mountPointNfs t = None) \<Longrightarrow>
    guards (sound mps) (on_machine n (emitEvent E e))"
  by (intro sound_on_machine emitEvent_consistent identity_emitEvent)
    (auto simp: fresh_event_def split: event.split option.split)

lemma sound_loop_step: "guards (sound mps) (on_machine n (loop_step E limit op))"
  by (intro sound_on_machine loop_step_consistent identity_loop_step)

section \<open>Starting\<close>

text \<open>A machine that is added holds nothing yet.\<close>

lemma sound_add_machine:
  assumes "sound mps a" and "sm_find (mpsm a) n = None" and "(n, c) \<in> set mps"
  shows "sound mps (add_machine n c a)"
proof -
  have wf: "sm_wf (mpsm a)" using assms(1) by (simp add: sound_def)
  have new: "process_of (make_machine n c) = 0" "mounts_of d (make_machine n c) = 0"
    "machine_ok (make_machine n c)" for d
    by (simp_all add: process_of_def mounts_of_def make_machine_def held_process_def held_mounts_def machine_ok_def)
  have "made_from mps n (make_machine n c)"
    using assms(3) by (auto simp: made_from_def)
  moreover have "sum_over f (sm_assign n (make_machine n c) (mpsm a)) =
      sum_over f (mpsm a) + f (make_machine n c)" for f
    using sum_over_assign [OF wf, of f n "make_machine n c"] assms(2) by simp
  ultimately show ?thesis
    using assms wf by (auto simp: sound_def add_machine_def new sm.wf_assign sm.find_assign)
qed

text \<open>Registration that returns leaves the mount point ready.\<close>

lemma register_ready:
  assumes "emitEvent E RegisterDbusEvent s = (Inr (), s')" and "mc_state (mc s) = InitialState"
  shows "in_ready (mc s')"
proof -
  have "results (\<lambda>r. \<exists>e. r = Some (ReadyState e)) (initial_register E)"
    unfolding initial_register_def Let_def ready_ok_def ready_error_def thenM_def bindM_assoc bindM_simps(1)
    by (intro yields_bind yields_if yields_return) simp_all
  moreover obtain r s1 where r: "initial_register E s = (r, s1)" by fastforce
  ultimately obtain e where "changeState E 2 (ReadyState e) s1 = (Inr (), s')"
    using assms
    by (auto simp: emitEvent_def bindM_def handleEvent_state initial_handle_def dest!: yieldsD
        split: sum.splits prod.splits)
  from triple_Inr [OF arrive_changeState _ this] have "phase_of (mc_state (mc s')) = Ready"
    by (simp add: arrived_def)
  then show ?thesis by (cases "mc_state (mc s')") (simp_all add: in_ready_def)
qed

lemma register_methods: "\<exists>new. forM ms (\<lambda>m. do_sys E (RegisterMethod p i m)) w =
    (Inr (), w\<lparr>hist := new @ hist w\<rparr>) \<and> tally counted new = 0"
proof (induction ms arbitrary: w)
  case (Cons m ms)
  let ?c = "(RegisterMethod p i m, ask E (hist w) (RegisterMethod p i m))"
  from Cons.IH [of "w\<lparr>hist := ?c # hist w\<rparr>"] obtain new where
    "forM ms (\<lambda>m. do_sys E (RegisterMethod p i m)) (w\<lparr>hist := ?c # hist w\<rparr>) =
       (Inr (), w\<lparr>hist := (new @ [?c]) @ hist w\<rparr>)" "tally counted new = 0" by auto
  then show ?case by (intro exI [of _ "new @ [?c]"]) (simp add: then_do_sys)
qed (auto simp: returnM_def intro!: exI [of _ "[]"])

lemma register_interface: "\<exists>new. thenM (do_sys E (AddInterface p i)) (forM ms (\<lambda>m. do_sys E (RegisterMethod p i m))) w =
    (Inr (), w\<lparr>hist := new @ hist w\<rparr>) \<and> tally counted new = 0"
proof -
  let ?c = "(AddInterface p i, ask E (hist w) (AddInterface p i))"
  from register_methods [of ms E p i "w\<lparr>hist := ?c # hist w\<rparr>"] obtain new where
    "forM ms (\<lambda>m. do_sys E (RegisterMethod p i m)) (w\<lparr>hist := ?c # hist w\<rparr>) =
       (Inr (), w\<lparr>hist := (new @ [?c]) @ hist w\<rparr>)" "tally counted new = 0" by auto
  then show ?thesis by (intro exI [of _ "new @ [?c]"]) (simp add: then_do_sys)
qed

lemma global_interface_result:
  "\<exists>new. createGlobalLocalMountInterface E a =
     (Inr (), a\<lparr>app_wd := (app_wd a)\<lparr>hist := new @ hist (app_wd a)\<rparr>\<rparr>) \<and> tally counted new = 0"
proof -
  obtain p i where "createGlobalLocalMountInterface E a = liftApp (thenM (do_sys E (AddInterface p i))
      (forM local_methods (\<lambda>m. do_sys E (RegisterMethod p i m)))) a"
    unfolding createGlobalLocalMountInterface_def liftApp_def bindM_simps(3) Let_def by blast
  moreover from register_interface [of E p i local_methods "app_wd a"] obtain new where
    "thenM (do_sys E (AddInterface p i)) (forM local_methods (\<lambda>m. do_sys E (RegisterMethod p i m))) (app_wd a) =
      (Inr (), (app_wd a)\<lparr>hist := new @ hist (app_wd a)\<rparr>)" "tally counted new = 0" by blast
  ultimately show ?thesis by (auto simp: liftApp_def)
qed

lemma local_service_result:
  "\<exists>new g. addGlobalLocalMountService E n a =
     (Inr (), a\<lparr>registry := List.insert n (registry a), globalLocalServiceCreated := g,
        app_wd := (app_wd a)\<lparr>hist := new @ hist (app_wd a)\<rparr>\<rparr>) \<and> tally counted new = 0"
proof (cases "globalLocalServiceCreated a")
  case True
  then show ?thesis
    by (intro exI [of _ "[]"] exI [of _ True])
      (simp add: addGlobalLocalMountService_def thenM_def modifyM_def whenM_def returnM_def)
next
  case False
  from global_interface_result [of E "a\<lparr>registry := List.insert n (registry a)\<rparr>"] obtain new where
    "createGlobalLocalMountInterface E (a\<lparr>registry := List.insert n (registry a)\<rparr>) =
       (Inr (), a\<lparr>registry := List.insert n (registry a), app_wd := (app_wd a)\<lparr>hist := new @ hist (app_wd a)\<rparr>\<rparr>)"
    "tally counted new = 0" by auto
  with False show ?thesis
    by (intro exI [of _ new] exI [of _ True])
      (simp add: addGlobalLocalMountService_def thenM_def whenM_def modifyM_def bindM_def [of "createGlobalLocalMountInterface E"])
qed

lemma add_machine_find:
  "sm_wf (mpsm a) \<Longrightarrow> sm_find (mpsm (add_machine n c a)) j = (if j = n then Some (make_machine n c) else sm_find (mpsm a) j)"
  by (simp add: add_machine_def sm.find_assign)

text \<open>One entry of the configuration.\<close>

definition registered_with :: "env \<Rightarrow> string \<Rightarrow> mount_point \<Rightarrow> app \<Rightarrow> app \<Rightarrow> bool" where
  "registered_with E n c a a' \<longleftrightarrow>
     (\<exists>m. sm_find (mpsm a') n = Some m \<and> in_ready m) \<and>
     (\<forall>j. j \<noteq> n \<longrightarrow> sm_find (mpsm a') j = sm_find (mpsm a) j) \<and>
     watched a' = addDevice (nbdDevice c) (watched a) \<and>
     set (registry a') = (if multi_host E then set (registry a) else insert n (set (registry a)))"

lemma register_entry:
  assumes run: "thenM (modifyM (add_machine n c)) (emitRegisterDBusEvent E n) a = (Inr (), a')"
    and sound: "sound mps a" and new: "sm_find (mpsm a) n = None" and entry: "(n, c) \<in> set mps"
  shows "sound mps a' \<and> registered_with E n c a a'"
proof -
  let ?b = "add_machine n c a"
  have wf: "sm_wf (mpsm a)" "sm_wf (mpsm ?b)"
    using sound sound_add_machine [OF sound new entry] by (simp_all add: sound_def)
  from run obtain a1 where reg: "on_machine n (emitEvent E RegisterDbusEvent) ?b = (Inr (), a1)"
    and glob: "whenM (\<not> multi_host E) (addGlobalLocalMountService E n) a1 = (Inr (), a')"
    by (auto simp: emitRegisterDBusEvent_def thenM_def modifyM_def elim: bindM_cases)
  have s1: "sound mps a1"
    by (rule guardsD [OF sound_emit sound_add_machine [OF sound new entry] reg]) simp_all
  obtain s where s: "emitEvent E RegisterDbusEvent \<lparr>mc = make_machine n c, wd = app_wd ?b\<rparr> = (Inr (), s)"
    and a1: "a1 = ?b\<lparr>mpsm := sm_assign n (mc s) (mpsm ?b), app_wd := wd s\<rparr>"
    using reg wf(1) by (auto simp: on_machine_def add_machine_find split: prod.splits)
  have ready: "in_ready (mc s)" by (rule register_ready [OF s]) (simp add: make_machine_def)
  have find: "sm_find (mpsm a1) j = (if j = n then Some (mc s) else sm_find (mpsm a) j)" for j
    using wf by (simp add: a1 sm.find_assign add_machine_find)
  have rest: "watched a1 = addDevice (nbdDevice c) (watched a)" "registry a1 = registry a"
    by (simp_all add: a1 add_machine_def)
  show ?thesis
  proof (cases "multi_host E")
    case True
    with glob have "a' = a1" by (simp add: whenM_def returnM_def)
    with True s1 ready find rest show ?thesis by (auto simp: registered_with_def)
  next
    case False
    from local_service_result [of E n a1] obtain new g where quiet: "tally counted new = 0" and
      "addGlobalLocalMountService E n a1 = (Inr (), a1\<lparr>registry := List.insert n (registry a1),
         globalLocalServiceCreated := g, app_wd := (app_wd a1)\<lparr>hist := new @ hist (app_wd a1)\<rparr>\<rparr>)" by blast
    with False glob have a': "a' = a1\<lparr>registry := List.insert n (registry a1), globalLocalServiceCreated := g,
        app_wd := (app_wd a1)\<lparr>hist := new @ hist (app_wd a1)\<rparr>\<rparr>" by (simp add: whenM_def)
    have "sound mps a'"
      using s1 find quiet by (auto simp: sound_def a' uncounted)
    with False ready find rest show ?thesis by (simp add: registered_with_def a')
  qed
qed

text \<open>All entries, and the constructor of the application.\<close>

lemma create_mount_points_started:
  assumes "create_mount_points E es a = (Inr (), a')" and "sound mps a" and "set es \<subseteq> set mps"
    and "distinct (map fst es)" and "\<And>n. n \<in> fst ` set es \<Longrightarrow> sm_find (mpsm a) n = None"
  shows "sound mps a' \<and>
     (\<forall>n. if n \<in> fst ` set es then \<exists>m. sm_find (mpsm a') n = Some m \<and> in_ready m
          else sm_find (mpsm a') n = sm_find (mpsm a) n) \<and>
     watched a' = fold (\<lambda>e. addDevice (nbdDevice (snd e))) es (watched a) \<and>
     set (registry a') = (if multi_host E then set (registry a) else fst ` set es \<union> set (registry a))"
  using assms
proof (induction es arbitrary: a)
  case Nil
  then show ?case by (simp add: create_mount_points_def returnM_def)
next
  case (Cons e es)
  obtain n c where e: "e = (n, c)" by (cases e)
  from Cons.prems(1) e obtain a1 where
    one: "thenM (modifyM (add_machine n c)) (emitRegisterDBusEvent E n) a = (Inr (), a1)"
    and more: "create_mount_points E es a1 = (Inr (), a')"
    by (auto simp: create_mount_points_def thenM_def elim!: bindM_cases)
  from register_entry [OF one Cons.prems(2)] Cons.prems(3,5) e
  have a1: "sound mps a1" "registered_with E n c a a1" by auto
  have n: "n \<notin> fst ` set es" using Cons.prems(4) e by simp
  have fresh: "sm_find (mpsm a1) j = None" if "j \<in> fst ` set es" for j
    using a1(2) that n Cons.prems(5) [of j] by (cases "j = n") (auto simp: registered_with_def)
  from Cons.IH [OF more a1(1)] Cons.prems(3,4) fresh e
  have IH: "sound mps a'"
    "\<forall>n. if n \<in> fst ` set es then \<exists>m. sm_find (mpsm a') n = Some m \<and> in_ready m
          else sm_find (mpsm a') n = sm_find (mpsm a1) n"
    "watched a' = fold (\<lambda>e. addDevice (nbdDevice (snd e))) es (watched a1)"
    "set (registry a') = (if multi_host E then set (registry a1) else fst ` set es \<union> set (registry a1))" by auto
  with a1(2) n e show ?case
    by (auto simp: registered_with_def split: if_splits)
qed

section \<open>The service from \<^verbatim>\<open>main\<close>\<close>

lemma liftApp_frame: "liftApp p a = (r, a') \<Longrightarrow> a' = a\<lparr>app_wd := app_wd a'\<rparr>"
  by (auto simp: liftApp_def split: prod.splits)

lemma quiet_json_member: "quiet (json_member k)"
  by (rule at_most_unchanged) (simp add: json_member_def split: sum.splits prod.splits)

lemma quiet_modify_instance: "quiet (modify_instance f)"
  by (rule at_most_unchanged) (simp add: modify_instance_def split: option.splits)

lemma quiet_addInterfaces: "quiet (addInterfaces E)"
  unfolding addInterfaces_def addRmediaInterface_def
  by (intro at_most_steps quiet_loadJson quiet_loadImageURL quiet_json_member quiet_modify_instance at_most_do_sys)
    simp_all

text \<open>The service starts on a file: \<^verbatim>\<open>main\<close> has reached the event loop.\<close>

definition service_init :: "env \<Rightarrow> configuration \<Rightarrow> app \<Rightarrow> bool" where
  "service_init E c a \<longleftrightarrow>
     (\<exists>files args. app_main E files args = (Inr None, a) \<and>
        load_config E (parse_args '''' args) (files (parse_args '''' args)) = Inr c)"

lemma sound_empty: "running (hist w) = 0 \<Longrightarrow> (\<And>d. mounted d (hist w) = 0) \<Longrightarrow> sound mps (empty_app w)"
  by (simp add: sound_def empty_app_def)

lemma app_create_entries:
  "app_create E c (empty_app w) = create_mount_points E (mountPoints c)
     (empty_app (w\<lparr>g_serviceName := fst (service_context E (configPath c)),
                    g_basePath := snd (snd (service_context E (configPath c)))\<rparr>))"
  by (simp add: app_create_def thenM_def empty_app_def split: prod.split)

lemma udev_books: "list_all is_udev h \<Longrightarrow> running h = 0 \<and> mounted d h = 0"
  by (induction h) (auto simp: is_udev_def running_def mounted_def is_mount_of_def is_release_of_def
      is_spawn_def is_stop_def split: call.splits)

text \<open>What \<^verbatim>\<open>main\<close> leaves of the machines is what the constructor of the application made of them.\<close>

lemma service_init_created:
  assumes "service_init E c a"
  obtains w b where "create_mount_points E (mountPoints c) (empty_app w) = (Inr (), b)"
    and "a = b\<lparr>app_wd := app_wd a\<rparr>" and "\<And>mps. sound mps (empty_app w)" and "sm_wf (mountPoints c)"
    and "\<And>mps. sound mps b \<Longrightarrow> sound mps a"
proof -
  from assms obtain files args where main: "app_main E files args = (Inr None, a)"
    and load: "load_config E (parse_args '''' args) (files (parse_args '''' args)) = Inr c"
    unfolding service_init_def by blast
  let ?w0 = "initial_world (files (parse_args '''' args))"
  from main load obtain r a00 a0 where dirs: "liftApp (sys E (CreateDirectories (path_append (tmp_dir E) ''sock'')))
      (empty_app ?w0) = (Inr r, a00)" and monitor: "liftApp (monitor_create E) a00 = (Inr (), a0)" and
    go: "thenM (app_create E c) (thenM (app_run E c) (returnM None)) a0 = (Inr (None :: int option), a)"
    by (auto simp: app_main_def Let_def returnM_def thenM_def [of "liftApp m" for m] elim!: bindM_cases
        split: if_splits)
  from go obtain b where create: "app_create E c a0 = (Inr (), b)" and run: "app_run E c b = (Inr (), a)"
    by (auto simp: thenM_def returnM_def elim!: bindM_cases)
  define w where "w = app_wd a0"
  from monitor_create_result [of E "app_wd a00"] obtain q new where
    made: "monitor_create E (app_wd a00) = (q, app_wd a00\<lparr>hist := new @ hist (app_wd a00)\<rparr>)"
    and new: "list_all is_udev new" by blast
  have a00: "a00 = empty_app (app_wd a00)" "running (hist (app_wd a00)) = 0" "mounted d (hist (app_wd a00)) = 0" for d
    using dirs by (auto simp: liftApp_def sys_result empty_app_def initial_world_def running_def
        mounted_def is_mount_of_def is_release_of_def is_spawn_def is_stop_def)
  have w: "w = app_wd a00\<lparr>hist := new @ hist (app_wd a00)\<rparr>" and "a0 = a00\<lparr>app_wd := w\<rparr>"
    using monitor by (auto simp: liftApp_def made w_def)
  then have a0: "a0 = empty_app w" "running (hist w) = 0" "mounted d (hist w) = 0" for d
    using a00(1) udev_books [OF new, of d] a00(2) a00(3) [of d]
    by (simp_all add: empty_app_def running_def) (metis app.update_convs(5))
  let ?w = "w\<lparr>g_serviceName := fst (service_context E (configPath c)),
              g_basePath := snd (snd (service_context E (configPath c)))\<rparr>"
  show thesis
  proof (rule that [of ?w b])
    show "create_mount_points E (mountPoints c) (empty_app ?w) = (Inr (), b)"
      using create by (simp add: a0(1) app_create_entries)
    show "a = b\<lparr>app_wd := app_wd a\<rparr>"
      using run by (auto simp: app_run_def split: prod.splits dest: liftApp_frame)
    show "sound mps (empty_app ?w)" for mps by (rule sound_empty) (simp_all add: a0)
    show "sm_wf (mountPoints c)" by (rule load_config_sorted [OF load])
    have "guards (sound mps) (app_run E c)" for mps
      unfolding app_run_def
      by (auto split: prod.splits
          intro!: sound_liftApp at_most_then_none [OF at_most_modify quiet_addInterfaces])
    then show "sound mps a" if "sound mps b" for mps
      using that run by (rule guards_Inr)
  qed
qed

lemma watched_devices:
  "sm_wf devs \<Longrightarrow> getState d (fold (\<lambda>e. addDevice (nbdDevice (snd e))) es devs) =
     (if sm_find devs d = None \<and> (\<exists>n entry. (n, entry) \<in> set es \<and> nbdDevice entry = d) then removed else getState d devs)"
proof (induction es arbitrary: devs)
  case (Cons e es)
  have "sm_wf (addDevice (nbdDevice (snd e)) devs)"
    using Cons.prems by (simp add: addDevice_def sm.wf_insert_new)
  from Cons.IH [OF this] Cons.prems show ?case
    by (cases e) (auto simp: addDevice_def sm.find_insert_new getState_def split: option.splits)
qed simp

lemma sound_machine:
  assumes "sound mps a" and "sm_wf mps" and "sm_find (mpsm a) n = Some m" and "sm_find mps n = Some entry"
  shows "machine_ok m" and "identity m = (n, entry\<lparr>remainingInactivityTimeout := None\<rparr>)"
  using assms sm.find_iff_item [OF assms(2)] by (auto simp: sound_def made_from_def) (metis option.inject)+

section \<open>A service that starts\<close>

text \<open>A proxy mount point is always registered.\<close>

lemma proxy_entry_returns:
  assumes "sm_wf (mpsm a)" and "mp_mode c = proxy"
  shows "\<exists>b. thenM (modifyM (add_machine n c)) (emitRegisterDBusEvent E n) a = (Inr (), b) \<and>
    conf_text (app_wd b) = conf_text (app_wd a)"
proof -
  let ?a = "add_machine n c a"
  let ?s = "\<lparr>mc = make_machine n c, wd = app_wd ?a\<rparr>"
  obtain s' where "emitEvent E RegisterDbusEvent ?s = (Inr (), s')" and kept_text: "conf_text (wd s') = conf_text (app_wd a)"
    using proxy_registers [of ?s n c E 0] assms(2) by (auto simp: loop_step_def add_machine_def)
  then have reg: "on_machine n (emitEvent E RegisterDbusEvent) ?a =
      (Inr (), ?a\<lparr>mpsm := sm_assign n (mc s') (mpsm ?a), app_wd := wd s'\<rparr>)"
    using assms(1) by (simp add: on_machine_def add_machine_find)
  from local_service_result obtain b where
    "addGlobalLocalMountService E n (?a\<lparr>mpsm := sm_assign n (mc s') (mpsm ?a), app_wd := wd s'\<rparr>) = (Inr (), b)"
    and "conf_text (app_wd b) = conf_text (wd s')" by force
  with reg kept_text show ?thesis
    by (auto simp: emitRegisterDBusEvent_def thenM_def whenM_def returnM_def modifyM_def bindM_def)
qed

definition proxy_json :: json where
  "proxy_json = JObj
     [(''InactivityTimeout'', JUInt 1800),
      (''MountPoints'', JObj [(''Slot_0'', slot_json 0 ''nbd0'' '''' ''/run/nbd0.sock'' 30)]),
      (''RetryCount'', JUInt 3), (''RetryInterval'', JUInt 15)]"

definition proxy_env :: env where
  "proxy_env = quiet_env\<lparr>json_parse := (\<lambda>_. Some proxy_json),
     ask := (\<lambda>_ c. if c = UdevCall ''udev_new'' [] \<or>
       c = UdevCall ''udev_monitor_new_from_netlink'' [''kernel''] then 1 else 0)\<rparr>"

definition proxy_configuration :: configuration where
  "proxy_configuration =
     \<lparr>valid = True, configPath = ''/f'',
      mountPoints = [(''Slot_0'', shipped_slot proxy nbd0 '''' ''/run/nbd0.sock'' 30)],
      inactivityTimeout = 1800\<rparr>"

lemma load_proxy: "load_config proxy_env ''/f'' (Some text) = Inr proxy_configuration"
  by (simp add: load_config_def loadConfiguration_def setupVariables_def proxy_env_def quiet_env_def
      proxy_json_def slot_json_def proxy_configuration_def shipped_slot_def
      json_value_int_def json_get_int_def json_items_def json_find_def read_mount_point_def
      read_device_def read_string_member_def read_int_member_def read_mode_def get_ptr_string_def
      get_ptr_uint64_def nbd_name_defs c_str_def Let_def)

lemma proxy_env_simps [simp]: "json_parse proxy_env text = Some proxy_json" "multi_host proxy_env = False"
  by (simp_all add: proxy_env_def quiet_env_def)

lemma proxy_members:
  "json_at proxy_json ''RetryCount'' = Inr (proxy_json, JUInt 3)"
  "json_at proxy_json ''RetryInterval'' = Inr (proxy_json, JUInt 15)"
  "image_url_of proxy_json slot = Inr ''''" "proxy_json \<noteq> JNull"
  by (simp_all add: proxy_json_def json_at_def json_find_def image_url_of_def)

lemma proxy_runs: "conf_text (app_wd b) = Some text \<Longrightarrow> \<exists>a. app_run proxy_env proxy_configuration b = (Inr (), a)"
  by (simp add: app_run_def service_context_def liftApp_def thenM_def addInterfaces_def loadJson_def bindM_def
      proxy_configuration_def make_interface_def addRmediaInterface_def do_sys_result modify_instance_def
      json_member_def json_get_uint32_def liftE_def loadImageURLFromJson_def publish_urls_def proxy_members
      modifyM_def getM_def)

lemma proxy_service: "\<exists>a. service_init proxy_env proxy_configuration a"
proof -
  let ?files = "\<lambda>_. Some ''{}''" and ?args = "[''--config'', ''/f'']"
  let ?w0 = "initial_world (Some ''{}'')"
  have path: "parse_args [] ?args = ''/f''" by simp
  obtain r a00 where dirs: "liftApp (sys proxy_env (CreateDirectories (path_append (tmp_dir proxy_env) ''sock''))) (empty_app ?w0) = (Inr r, a00)"
    and r: "\<not> r < 0" and a00: "a00 = empty_app (app_wd a00)" "conf_text (app_wd a00) = Some ''{}''"
    by (simp add: liftApp_def sys_result empty_app_def initial_world_def proxy_env_def quiet_env_def)
  have "fst (monitor_create proxy_env (app_wd a00)) = Inr ()"
    by (rule monitor_created) (simp_all add: proxy_env_def quiet_env_def)
  moreover obtain q new where "monitor_create proxy_env (app_wd a00) = (q, app_wd a00\<lparr>hist := new @ hist (app_wd a00)\<rparr>)"
    using monitor_create_result [of proxy_env "app_wd a00"] by blast
  ultimately obtain a0 where monitor: "liftApp (monitor_create proxy_env) a00 = (Inr (), a0)"
    and a0: "a0 = empty_app (app_wd a0)" "conf_text (app_wd a0) = Some ''{}''"
  proof -
    assume run: "monitor_create proxy_env (app_wd a00) = (q, app_wd a00\<lparr>hist := new @ hist (app_wd a00)\<rparr>)"
      and "fst (monitor_create proxy_env (app_wd a00)) = Inr ()"
    then have "q = Inr ()" by simp
    moreover have "a00\<lparr>app_wd := v\<rparr> = empty_app v" for v
      using a00(1) by (simp add: empty_app_def) (metis app.update_convs(5))
    ultimately show thesis
      using run a00(2) by (intro that [of "a00\<lparr>app_wd := app_wd a00\<lparr>hist := new @ hist (app_wd a00)\<rparr>\<rparr>"])
        (simp_all add: liftApp_def empty_app_def)
  qed
  let ?w = "app_wd a0\<lparr>g_serviceName := fst (service_context proxy_env ''/f''),
      g_basePath := snd (snd (service_context proxy_env ''/f''))\<rparr>"
  let ?slot = "shipped_slot proxy nbd0 [] ''/run/nbd0.sock'' 30"
  obtain b where b: "thenM (modifyM (add_machine ''Slot_0'' ?slot)) (emitRegisterDBusEvent proxy_env ''Slot_0'') (empty_app ?w) = (Inr (), b)"
    and kept_text: "conf_text (app_wd b) = Some ''{}''"
    using proxy_entry_returns [of "empty_app ?w" ?slot "''Slot_0''" proxy_env] a0(2)
    by (auto simp: empty_app_def shipped_slot_def)
  have "app_create proxy_env proxy_configuration a0 = (Inr (), b)"
    using b by (subst a0(1), subst app_create_entries)
      (simp add: create_mount_points_def proxy_configuration_def thenM_def bindM_def returnM_def)
  moreover from proxy_runs [OF kept_text] obtain a where "app_run proxy_env proxy_configuration b = (Inr (), a)" by blast
  ultimately have "app_main proxy_env ?files ?args = (Inr None, a)"
    using dirs r monitor load_proxy
    by (simp add: app_main_def thenM_def bindM_def returnM_def proxy_configuration_def)
  then show ?thesis
    unfolding service_init_def using load_proxy path by (intro exI [of _ a] exI [of _ ?files] exI [of _ ?args]) simp
qed

section \<open>The state at the start\<close>

lemma service_started:
  assumes "service_init E c a"
  shows "sm_wf (mountPoints c)" and "sound (mountPoints c) a"
    and "n \<in> set (map fst (mountPoints c)) \<Longrightarrow> \<exists>m. sm_find (mpsm a) n = Some m \<and> in_ready m"
    and "n \<notin> set (map fst (mountPoints c)) \<Longrightarrow> sm_find (mpsm a) n = None"
    and "set (registry a) = (if multi_host E then {} else set (map fst (mountPoints c)))"
    and "watched a = fold (\<lambda>e. addDevice (nbdDevice (snd e))) (mountPoints c) []"
proof -
  let ?es = "mountPoints c"
  from assms obtain w b where create: "create_mount_points E ?es (empty_app w) = (Inr (), b)"
    and a: "a = b\<lparr>app_wd := app_wd a\<rparr>" and sound: "sound ?es (empty_app w)" and wf: "sm_wf ?es"
    and kept: "sound ?es b \<Longrightarrow> sound ?es a"
    by (rule service_init_created) blast
  have same: "mpsm a = mpsm b" "watched a = watched b" "registry a = registry b"
    by (subst a, simp)+
  note started = create_mount_points_started [OF create sound subset_refl sm_wf_distinct [OF wf]]
  show "sm_wf ?es" by (rule wf)
  show "sound ?es a" using started kept by (simp add: empty_app_def)
  show "\<exists>m. sm_find (mpsm a) n = Some m \<and> in_ready m" if "n \<in> set (map fst ?es)"
    using started that same by (auto simp: empty_app_def)
  show "sm_find (mpsm a) n = None" if "n \<notin> set (map fst ?es)"
    using started that same by (auto simp: empty_app_def split: if_splits)
  show "set (registry a) = (if multi_host E then {} else set (map fst ?es))"
    and "watched a = fold (\<lambda>e. addDevice (nbdDevice (snd e))) ?es []"
    using started same by (simp_all add: empty_app_def)
qed

text \<open>
  C4. The service that reaches its event loop has a mount point for every entry of its configuration
  and no other; each is ready, on the device of its entry and without a target; the local service knows
  them all unless the build is for several hosts; and the monitor watches exactly their devices, each of
  them as removed.
\<close>

theorem service_starts_ready:
  assumes "service_init E c a"
  shows "(\<forall>n. case sm_find (mountPoints c) n of
       None \<Rightarrow> sm_find (mpsm a) n = None
     | Some entry \<Rightarrow> \<exists>m. sm_find (mpsm a) n = Some m \<and> in_ready m \<and> target m = None \<and>
         nbdDevice (config m) = nbdDevice entry) \<and>
     set (registry a) = (if multi_host E then {} else set (map fst (mountPoints c))) \<and>
     (\<forall>d. getState d (watched a) =
        (if \<exists>n entry. (n, entry) \<in> set (mountPoints c) \<and> nbdDevice entry = d then removed else notMonitored))"
proof -
  note init = service_started [OF assms]
  have "case sm_find (mountPoints c) n of
       None \<Rightarrow> sm_find (mpsm a) n = None
     | Some entry \<Rightarrow> \<exists>m. sm_find (mpsm a) n = Some m \<and> in_ready m \<and> target m = None \<and>
         nbdDevice (config m) = nbdDevice entry" for n
  proof (cases "sm_find (mountPoints c) n")
    case None
    then have "n \<notin> set (map fst (mountPoints c))" unfolding sm_find_keys by simp
    with None init(4) show ?thesis by simp
  next
    case (Some entry)
    then have "n \<in> set (map fst (mountPoints c))" unfolding sm_find_keys by simp
    with init(3) obtain m where m: "sm_find (mpsm a) n = Some m" "in_ready m" by blast
    with sound_machine [OF init(2,1) m(1) Some] identity_device [of m n] Some show ?thesis
      by (auto simp: machine_ok_def in_ready_def split: bstate.splits)
  qed
  with init(5,6) watched_devices [of "[]" _ "mountPoints c"] show ?thesis by (auto simp: getState_def)
qed

theorem service_starts_ready_witness:
  "\<exists>a. service_init proxy_env proxy_configuration a \<and> set (registry a) = {''Slot_0''} \<and>
     getState nbd0 (watched a) = removed \<and> getState nbd1 (watched a) = notMonitored"
proof -
  from proxy_service obtain a where a: "service_init proxy_env proxy_configuration a" by blast
  from service_starts_ready [OF a] a show ?thesis
    by (intro exI [of _ a]) (simp add: proxy_configuration_def shipped_slot_def nbd_name_defs)
qed

section \<open>The steps of the service\<close>

datatype service_op =
    Request string loop_op
  | DeviceEvent "udev_device option"
  | LocalMountCall string bool
  | LocalUnmountCall
  | LocalCurrentCall
  | SessionSignal "(string \<times> (string \<times> vmedia_session list) list) option"
  | SetRetry "32 word" "32 word"

text \<open>What the event loop runs for one mount point by itself; registration and device events come from
  the application.\<close>

definition is_request :: "loop_op \<Rightarrow> bool" where
  "is_request op = (case op of Register \<Rightarrow> False | Udev _ _ \<Rightarrow> False | _ \<Rightarrow> True)"

definition service_run :: "env \<Rightarrow> configuration \<Rightarrow> service_op \<Rightarrow> unit aprog" where
  "service_run E c op =
     (case op of
        Request n lop \<Rightarrow> whenM (is_request lop) (on_machine n (loop_step E (inactivityTimeout c) lop))
      | DeviceEvent u \<Rightarrow> device_round E u
      | LocalMountCall path rw \<Rightarrow> thenM (localMount E path rw) (returnM ())
      | LocalUnmountCall \<Rightarrow> thenM (localUnmount E) (returnM ())
      | LocalCurrentCall \<Rightarrow> thenM (getCurrentMount E) (returnM ())
      | SessionSignal msg \<Rightarrow> liftApp (sessionCallback E msg)
      | SetRetry n i \<Rightarrow> thenM (liftApp (SetAll E n i)) (returnM ()))"

inductive service_step :: "env \<Rightarrow> configuration \<Rightarrow> service_op \<Rightarrow> app \<Rightarrow> app \<Rightarrow> bool"
  for E :: env and c :: configuration where
  goes_on: "service_run E c op a = (r, a') \<Longrightarrow> (\<And>e. r = Inl e \<Longrightarrow> catchable e) \<Longrightarrow> service_step E c op a a'"

inductive_cases service_stepE: "service_step E c op a a'"

abbreviation service_reachable :: "env \<Rightarrow> configuration \<Rightarrow> app \<Rightarrow> bool" where
  "service_reachable E c \<equiv> run (service_init E c) (service_step E c)"

subsection \<open>Every step keeps the invariant\<close>

lemma sound_find_local: "guards (sound mps) (find_local E slots)"
  by (induction slots) (unfold find_local.simps, (intro guards_rules sound_liftApp at_most_fs_query; simp)+)

lemma sound_localMount: "guards (sound mps) (localMount E path rw)"
proof -
  have on: "guards (sound mps) (mount_on E path rw n)" for n
    unfolding mount_on_def setAdditionalInfo_def
    by (intro guards_rules sound_on_machine ok_then ok_modify emitEvent_consistent identity_steps
        identity_rules identity_modify) (simp_all add: fresh_event_def make_target_def)
  have take: "guards (sound mps) (take_slot E path rw slots)" for slots
    by (induction slots) (unfold take_slot.simps, (intro guards_rules on; assumption)+)
  have img: "quiet (detectImageType E path)"
    unfolding detectImageType_def
    by (intro at_most_steps at_most_sys) (simp add: is_resource_call_def)
  have q: "quiet (fs_query E (Exists path))" "quiet (fs_query E (IsRegularFile path))"
    by (rule at_most_fs_query; simp)+
  show ?thesis
    unfolding localMount_search by (intro guards_rules sound_find_local sound_liftApp q img take)
qed

lemma sound_device_round: "guards (sound mps) (device_round E u)"
proof -
  have "guards (sound mps) (on_machine n (emitUdevStateChangeEvent E d ch))" for n d ch
    by (intro sound_on_machine ok_udev) (auto simp: emitUdevStateChangeEvent_def intro!: identity_steps identity_rules)
  then have "guards (sound mps) (dispatch_device E d ch)" for d ch
    unfolding dispatch_device_def by (intro guards_rules)
  moreover have "guards (sound mps) (modifyM (\<lambda>a. a\<lparr>watched := ws\<rparr>))" for ws
    by (rule guards_modify) (simp add: sound_def)
  ultimately show ?thesis
    unfolding device_round_def by (intro guards_rules)
qed

lemma quiet_sessionCallback: "quiet (sessionCallback E msg)"
proof -
  have "quiet (remove_sessions E ids)" for ids
    by (induction ids)
      (unfold remove_sessions.simps, (intro at_most_steps at_most_modify at_most_do_sys; simp add: is_resource_call_def)+)
  then have "quiet (handleSessions E ses)" for ses
    unfolding handleSessions_def by (intro at_most_steps)
  then show ?thesis
    unfolding sessionCallback_def
    by (auto intro!: at_most_steps at_most_when quiet_for split: option.splits)
qed

lemma quiet_SetAll: "quiet (SetAll E c i)"
proof -
  have "quiet (set_json_member k v)" for k v
    by (rule at_most_unchanged) (simp add: set_json_member_def split: sum.splits)
  then have "quiet (persist_retry E c i)"
    unfolding persist_retry_def writeJson_def sys_bool_def
    by (intro at_most_steps at_most_loadJson quiet_json_member at_most_sys at_most_modify) simp_all
  then have "quiet (thenM (catchM (persist_retry E c i) (\<lambda>e. case e of UB m \<Rightarrow> throwM (UB m) | _ \<Rightarrow> returnM ()))
      (returnM status))" (is "quiet (?store status)") for status :: string
    by (intro at_most_steps) (auto intro!: at_most_steps split: exn.splits)
  then have store: "\<exists>new. hist (snd (?store status (w\<lparr>vm_instance := v\<rparr>))) = new @ hist w \<and> tally counted new \<le> 0" for status w v
    unfolding at_most_def by (metis world.select_convs(1) world.surjective world.update_convs(8))
  show ?thesis
    unfolding at_most_def
  proof
    fix w
    show "\<exists>new. hist (snd (SetAll E c i w)) = new @ hist w \<and> tally counted new \<le> 0"
    proof (cases "\<exists>vi. vm_instance w = Some vi \<and> retry_in_range c i \<and> \<not> (RetryCount vi = c \<and> RetryInterval vi = i)")
      case True
      then obtain vi where "SetAll E c i w = ?store (if vmediaInterface vi \<noteq> None then ''Success'' else ''Unknown'')
          (w\<lparr>vm_instance := Some (with_retry c i vi)\<rparr>)"
        by (auto simp: SetAll_def Let_def)
      then show ?thesis by (simp only: store)
    next
      case False
      then show ?thesis by (auto simp: SetAll_def returnM_def split: option.splits)
    qed
  qed
qed

lemma sound_service_run: "guards (sound mps) (service_run E c op)"
proof (cases op)
  case LocalUnmountCall
  then show ?thesis
    by (auto simp: service_run_def localUnmount_search intro!: guards_rules sound_find_local sound_emit)
next
  case LocalCurrentCall
  then show ?thesis
    by (auto simp: service_run_def getCurrentMount_search intro!: guards_rules sound_find_local)
qed (auto simp: service_run_def intro!: guards_rules sound_loop_step sound_localMount sound_device_round
    sound_liftApp quiet_sessionCallback quiet_SetAll)

subsection \<open>The mount points stay the same\<close>

text \<open>The registry and the names of the mount points.\<close>

definition roster :: "string set \<Rightarrow> string set \<Rightarrow> app \<Rightarrow> bool" where
  "roster reg names a \<longleftrightarrow> set (registry a) = reg \<and> (\<forall>n. sm_find (mpsm a) n = None \<longleftrightarrow> n \<notin> names)"

lemma roster_on_machine: "guards (roster reg names) (on_machine n p)"
  unfolding guards_def
proof (rule tripleI)
  have keep: "roster reg names a'" if "roster reg names a" "on_machine n p a = (r, a')" for a a' r
    using that
    by (auto simp: on_machine_def roster_def sm_find_def map_of_sm_assign split: option.splits prod.splits if_splits)
      (metis option.distinct(1))+
  show "roster reg names a'" if "roster reg names a" "on_machine n p a = (Inr x, a')" for a x a'
    using keep that by blast
  show "catchable e \<longrightarrow> roster reg names a'" if "roster reg names a" "on_machine n p a = (Inl e, a')" for a e a'
    using keep that by blast
qed

lemma roster_liftApp: "guards (roster reg names) (liftApp m)"
  by (auto simp: guards_def liftApp_def triple_def roster_def split: prod.splits sum.splits)

lemma roster_service_run: "guards (roster reg names) (service_run E c op)"
proof -
  have find: "guards (roster reg names) (find_local E slots)" for slots
    by (induction slots) (unfold find_local.simps, (intro guards_rules roster_liftApp; assumption)+)
  have take: "guards (roster reg names) (take_slot E path rw slots)" for path rw slots
    by (induction slots) (unfold take_slot.simps mount_on_def, (intro guards_rules roster_on_machine; assumption)+)
  have mount: "guards (roster reg names) (localMount E path rw)" for path rw
    unfolding localMount_search by (intro guards_rules find take roster_liftApp)
  have "guards (roster reg names) (modifyM (\<lambda>a. a\<lparr>watched := ws\<rparr>))" for ws
    by (rule guards_modify) (simp add: roster_def)
  then have device: "guards (roster reg names) (device_round E u)" for u
    unfolding device_round_def dispatch_device_def by (intro guards_rules roster_on_machine)
  show ?thesis
    by (cases op) (auto simp: service_run_def localUnmount_search getCurrentMount_search
        intro!: guards_rules find mount device roster_on_machine roster_liftApp)
qed

section \<open>What holds in every reachable state of the service\<close>

definition staffed :: "env \<Rightarrow> configuration \<Rightarrow> app \<Rightarrow> bool" where
  "staffed E c a \<longleftrightarrow> sm_wf (mountPoints c) \<and> sound (mountPoints c) a \<and>
     roster (if multi_host E then {} else set (map fst (mountPoints c))) (set (map fst (mountPoints c))) a"

interpretation svc: invariant_system "service_init E c" "service_step E c" "staffed E c" for E c
proof unfold_locales
  show "staffed E c a" if "service_init E c a" for a
  proof -
    note init = service_started [OF that]
    have "sm_find (mpsm a) n = None \<longleftrightarrow> n \<notin> set (map fst (mountPoints c))" for n
      using init(3,4) [of n] by (metis option.distinct(1))
    with init(1,2,5) show ?thesis by (simp add: staffed_def roster_def)
  qed
  show "staffed E c a'" if "staffed E c a" "service_step E c op a a'" for op a a'
    using that(2)
  proof (rule service_stepE)
    show "staffed E c a'" if "service_run E c op a = (r, a')" "\<And>e. r = Inl e \<Longrightarrow> catchable e" for r
      using guardsD [OF sound_service_run _ that] guardsD [OF roster_service_run _ that] \<open>staffed E c a\<close>
      by (auto simp: staffed_def)
  qed
qed

lemma service_begins: "service_init E c a \<Longrightarrow> service_reachable E c a"
  by (rule begins)

lemma sum_over_zero: "(\<And>n m. (n, m) \<in> set ms \<Longrightarrow> f m = 0) \<Longrightarrow> sum_over f ms = 0"
  by (induction ms) (simp, metis add_0 list.set_intros sum_over_simps(2) surj_pair)

text \<open>
  C2. The books of the whole service balance: in every reachable state, over all requests, device events,
  exits of children, timers and local mounts in any order, the child processes started and not told to
  stop are exactly those that the states of the mount points own, and every directory has as many mounts
  made and not released as the targets of the mount points have mount objects on it. When all mount
  points are ready, the service holds no process and no mount at all.
\<close>

theorem service_books:
  assumes "service_reachable E c a"
  shows "running (hist (app_wd a)) = sum_over process_of (mpsm a) \<and>
     (\<forall>d. mounted d (hist (app_wd a)) = sum_over (mounts_of d) (mpsm a)) \<and>
     (list_all (\<lambda>(n, m). in_ready m) (mpsm a) \<longrightarrow>
        running (hist (app_wd a)) = 0 \<and> (\<forall>d. mounted d (hist (app_wd a)) = 0))"
proof -
  from svc.run_good [OF assms] have sound: "sound (mountPoints c) a" by (simp add: staffed_def)
  then have books: "running (hist (app_wd a)) = sum_over process_of (mpsm a)"
    "\<forall>d. mounted d (hist (app_wd a)) = sum_over (mounts_of d) (mpsm a)" by (simp_all add: sound_def)
  have idle: "process_of m = 0 \<and> mounts_of d m = 0"
    if "list_all (\<lambda>(n, m). in_ready m) (mpsm a)" "(n, m) \<in> set (mpsm a)" for n m d
  proof -
    from that sound have "machine_ok m" "in_ready m"
      using sm.find_iff_item [of "mpsm a" n m] by (auto simp: sound_def list_all_iff)
    then show ?thesis
      by (auto simp: machine_ok_def in_ready_def process_of_def mounts_of_def held_process_def held_mounts_def
          split: bstate.splits)
  qed
  have "sum_over process_of (mpsm a) = 0 \<and> (\<forall>d. sum_over (mounts_of d) (mpsm a) = 0)"
    if "list_all (\<lambda>(n, m). in_ready m) (mpsm a)"
    using idle [OF that] by (auto intro!: sum_over_zero)
  with books show ?thesis by simp
qed

theorem service_books_witness:
  "\<exists>a. service_reachable proxy_env proxy_configuration a \<and> running (hist (app_wd a)) = sum_over process_of (mpsm a)"
proof -
  from proxy_service obtain a where a: "service_init proxy_env proxy_configuration a" by blast
  from service_books [OF service_begins [OF a]] service_begins [OF a] show ?thesis by blast
qed

text \<open>
  C12. Whatever has happened, the service has exactly the mount points of its configuration, each under
  its name and with what the file says of it; and \<^verbatim>\<open>ListAvailableSlots\<close> lists, in the order of the slots,
  exactly the configured slots that are ready.
\<close>

theorem service_slots:
  assumes "service_reachable E c a" and "\<not> multi_host E"
  shows "(\<forall>n. case sm_find (mountPoints c) n of
       None \<Rightarrow> sm_find (mpsm a) n = None
     | Some entry \<Rightarrow> \<exists>m. sm_find (mpsm a) n = Some m \<and>
         identity m = (n, entry\<lparr>remainingInactivityTimeout := None\<rparr>)) \<and>
     listAvailableSlots a = filter (\<lambda>n. \<exists>m. sm_find (mpsm a) n = Some m \<and> in_ready m) slotOrder"
proof -
  from svc.run_good [OF assms(1)] assms(2)
  have wf: "sm_wf (mountPoints c)" and sound: "sound (mountPoints c) a"
    and reg: "set (registry a) = set (map fst (mountPoints c))"
    and names: "\<And>n. sm_find (mpsm a) n = None \<longleftrightarrow> n \<notin> set (map fst (mountPoints c))"
    by (simp_all add: staffed_def roster_def)
  have "case sm_find (mountPoints c) n of
       None \<Rightarrow> sm_find (mpsm a) n = None
     | Some entry \<Rightarrow> \<exists>m. sm_find (mpsm a) n = Some m \<and>
         identity m = (n, entry\<lparr>remainingInactivityTimeout := None\<rparr>)" for n
    using names [of n] sm_find_keys [of n "mountPoints c"] sound_machine [OF sound wf]
    by (cases "sm_find (mpsm a) n") (auto split: option.split)
  moreover have "available a n \<longleftrightarrow> (\<exists>m. sm_find (mpsm a) n = Some m \<and> in_ready m)" for n
  proof (cases "sm_find (mpsm a) n")
    case (Some m)
    with sound have "machine_ok m" by (simp add: sound_def)
    then have "in_ready m \<Longrightarrow> target m = None"
      by (simp add: machine_ok_def in_ready_def split: bstate.splits)
    with Some reg names [of n] show ?thesis by (auto simp: available_def registered_machine_def)
  qed (simp add: available_def registered_machine_def)
  then have "available a = (\<lambda>n. \<exists>m. sm_find (mpsm a) n = Some m \<and> in_ready m)" by (rule ext)
  ultimately show ?thesis by (simp add: listAvailableSlots_def)
qed

theorem service_slots_witness:
  "\<exists>a. service_reachable proxy_env proxy_configuration a \<and> listAvailableSlots a = [''Slot_0'']"
proof -
  from proxy_service obtain a where a: "service_init proxy_env proxy_configuration a" by blast
  note reach = service_begins [OF a]
  have "\<exists>m. sm_find (mpsm a) ''Slot_0'' = Some m \<and> in_ready m"
    using service_started(3) [OF a] by (simp add: proxy_configuration_def)
  with service_slots [OF reach] service_started(4) [OF a] reach show ?thesis
    by (intro exI [of _ a]) (simp add: slotOrder_def proxy_configuration_def)
qed

lemma find_device_key: "map_option fst (find P es) = Some j \<Longrightarrow> j \<in> set (map fst es)"
  by (induction es) (auto split: if_splits)

lemma find_device:
  assumes "distinct (map fst es)" and "distinct (map (\<lambda>e. nbdDevice (snd e)) es)" and "(j, entry) \<in> set es"
  shows "nbdDevice entry = d \<longleftrightarrow> map_option fst (find (\<lambda>e. nbdDevice (snd e) = d) es) = Some j"
  using assms
proof (induction es)
  case (Cons e es)
  show ?case
  proof (cases "e = (j, entry)")
    case True
    with Cons.prems(1) have "j \<notin> set (map fst es)" by simp
    then have "map_option fst (find (\<lambda>e. nbdDevice (snd e) = d) es) \<noteq> Some j"
      using find_device_key by metis
    with True show ?thesis by simp
  next
    case False
    with Cons.prems have "(j, entry) \<in> set es" "fst e \<noteq> j" "nbdDevice (snd e) \<noteq> nbdDevice entry"
      by (auto simp: image_iff)
    with Cons show ?thesis by auto
  qed
qed simp

lemma service_owner:
  assumes "staffed E c a" and "distinct (map (\<lambda>e. nbdDevice (snd e)) (mountPoints c))"
    and "sm_find (mpsm a) j = Some m"
  shows "nbdDevice (config m) = d \<longleftrightarrow>
     Some j = map_option fst (find (\<lambda>e. nbdDevice (snd e) = d) (mountPoints c))"
proof -
  from assms(1) have wf: "sm_wf (mountPoints c)" and sound: "sound (mountPoints c) a"
    and names: "sm_find (mpsm a) j = None \<longleftrightarrow> j \<notin> set (map fst (mountPoints c))"
    by (simp_all add: staffed_def roster_def)
  from assms(3) names obtain entry where entry: "sm_find (mountPoints c) j = Some entry"
    unfolding sm_find_keys by fastforce
  from sound_machine(2) [OF sound wf assms(3) entry] have "nbdDevice (config m) = nbdDevice entry"
    using identity_device by fastforce
  moreover have "(j, entry) \<in> set (mountPoints c)" using sm.find_iff_item [OF wf] entry by simp
  ultimately show ?thesis
    using find_device [OF sm_wf_distinct [OF wf] assms(2)] by (metis (no_types))
qed

text \<open>
  C5. In a service whose mount points are on different devices, a device event is told to the mount
  point whose entry names the device and to no other, whatever states they are in and even when the
  handler throws; an event of a device that is not configured does nothing.
\<close>

theorem device_reaches_slot:
  assumes "service_reachable E c a" and "distinct (map (\<lambda>e. nbdDevice (snd e)) (mountPoints c))"
  shows "dispatch_device E d ch a =
     (case find (\<lambda>e. nbdDevice (snd e) = d) (mountPoints c) of
        None \<Rightarrow> (Inr (), a)
      | Some e \<Rightarrow> on_machine (fst e) (emitEvent E (UdevStateChangeEvent ch)) a)"
proof -
  let ?own = "find (\<lambda>e. nbdDevice (snd e) = d) (mountPoints c)"
  from svc.run_good [OF assms(1)] have staffed: "staffed E c a" .
  then have wf: "sm_wf (mpsm a)" by (simp add: staffed_def sound_def)
  have there: "sm_find (mpsm a) j \<noteq> None" if "map_option fst ?own = Some j" for j
    using find_device_key [OF that] staffed by (simp add: staffed_def roster_def)
  show ?thesis
    using dispatch_owner [OF wf service_owner [OF staffed assms(2)] there]
    by (auto split: option.split)
qed

theorem device_reaches_slot_witness:
  "\<exists>a. service_init proxy_env proxy_configuration a \<and> dispatch_device proxy_env nbd1 inserted a = (Inr (), a) \<and>
     dispatch_device proxy_env nbd0 inserted a =
       on_machine ''Slot_0'' (emitEvent proxy_env (UdevStateChangeEvent inserted)) a"
proof -
  from proxy_service obtain a where a: "service_init proxy_env proxy_configuration a" by blast
  from device_reaches_slot [OF service_begins [OF a]] a
  show ?thesis
    by (intro exI [of _ a]) (simp add: proxy_configuration_def shipped_slot_def nbd_name_defs)
qed

end
