(* ===== verification/Defined.thy ===== *)
theory Defined
  imports SafeCalls
begin

text \<open>
  Executions that C++ gives no meaning do not occur: no step of a mount point dereferences a null pointer
  or an empty optional, reads past a buffer or runs \<^verbatim>\<open>changeState\<close> out of fuel. The operations on the
  world are in \<open>SafeCalls\<close>; here are those of a machine.
\<close>

section \<open>Operations of a machine\<close>

text \<open>The completion signal is there, a target is there or is not as \<open>T\<close> says, and the mode is \<open>k\<close>.\<close>

definition good :: "mode \<Rightarrow> bool set \<Rightarrow> machine \<Rightarrow> bool" where
  "good k T m \<longleftrightarrow> completion m \<noteq> None \<and> (target m = None) \<in> T \<and> mp_mode (config m) = k"

abbreviation "msafe Q \<equiv> throws_only (\<lambda>s. Q (mc s) \<and> has_instance (wd s)) defined"

lemma msafe_liftW [safe_rules]: "wsafe m \<Longrightarrow> msafe Q (liftW m)"
  by (fastforce simp: throws_only_def liftW_def split: prod.splits)

lemma msafe_get:
  assumes "\<And>m. Q m \<Longrightarrow> msafe Q (f (g m))"
  shows "msafe Q (bindM (getMC g) f)"
  unfolding throws_only_def
proof (intro allI impI)
  fix s :: st
  assume s: "Q (mc s) \<and> has_instance (wd s)"
  with assms have "msafe Q (f (g (mc s)))" by blast
  with s show "(Q (mc (snd (bindM (getMC g) f s))) \<and> has_instance (wd (snd (bindM (getMC g) f s)))) \<and>
      (case fst (bindM (getMC g) f s) of Inl e \<Rightarrow> defined e | Inr _ \<Rightarrow> True)"
    by (simp add: getMC_def throws_only_def)
qed

lemma msafe_modify: "(\<And>m. Q m \<Longrightarrow> Q (f m)) \<Longrightarrow> msafe Q (modifyMC f)"
  unfolding modifyMC_def by (intro throws_modify) simp

lemma msafe_throw: "defined e \<Longrightarrow> msafe Q (throwM e)"
  by (rule throws_throw)

lemma msafe_liftE: "(\<And>e. r = Inl e \<Longrightarrow> defined e) \<Longrightarrow> msafe Q (liftE r)"
  by (cases r) (simp_all add: throws_only_def liftE_def)

lemma msafe_catch:
  "msafe Q m \<Longrightarrow> (\<And>e. defined e \<Longrightarrow> msafe Q (h e)) \<Longrightarrow> msafe Q (catchM m h)"
  by (rule throws_catch)

lemma msafe_noexcept: "msafe Q m \<Longrightarrow> msafe Q (noexceptM m)"
  unfolding noexceptM_def by (rule msafe_catch, assumption) (auto intro!: msafe_throw split: exn.splits)

abbreviation "gsafe k T \<equiv> msafe (good k T)"

lemma gsafe_modify:
  assumes "\<And>m. completion m \<noteq> None \<Longrightarrow> completion (f m) \<noteq> None" and "\<And>m. target (f m) = None \<longleftrightarrow> target m = None"
    and "\<And>m. mp_mode (config (f m)) = mp_mode (config m)"
  shows "gsafe k T (modifyMC f)"
  by (rule msafe_modify) (use assms in \<open>simp add: good_def\<close>)

lemma good_completion: "good k T m \<Longrightarrow> \<exists>svc iface n. completion m = Some (svc, iface, n)"
  by (auto simp: good_def)

lemma good_none: "good k {True} m \<Longrightarrow> target m = None"
  by (simp add: good_def)

lemma good_mode: "good k T m \<Longrightarrow> mp_mode (config m) = k"
  by (simp add: good_def)

lemma gsafe_notify [safe_rules]: "gsafe k T (notify_client E ec)" "gsafe k T notificationStart"
  unfolding notify_client_def notificationStart_def
  by (rule msafe_get, drule good_completion,
      force split: option.splits prod.splits intro!: throws_rules safe_rules gsafe_modify)+

lemma gsafe_fail [safe_rules]:
  "gsafe k T (fail_with E ec message)" "gsafe k T (ready_error E ec message)" "gsafe k T (ready_ok E)"
  unfolding fail_with_def ready_error_def ready_ok_def by (intro throws_rules safe_rules)+

lemma gsafe_drop [safe_rules]:
  "gsafe k T (destroy_process E p)" "gsafe k T (destroy_gadget E g)" "gsafe k T (destroy_secret E f)"
  "gsafe k T (destroy_mount E d)"
  unfolding destroy_process_def destroy_gadget_def destroy_secret_def destroy_mount_def
  by (intro throws_rules safe_rules msafe_get gsafe_modify; simp)+

lemma gsafe_state [safe_rules]: "gsafe k T (set_state b)" "gsafe k T (set_process p)" "gsafe k T (modify_target f)"
  unfolding set_state_def set_process_def modify_target_def by (intro gsafe_modify; simp)+

lemma gsafe_target: "(\<And>t. gsafe k {False} (f t)) \<Longrightarrow> gsafe k {False} (the_target f)"
  unfolding the_target_def by (rule msafe_get) (auto simp: good_def split: option.splits)

lemma gsafe_spawn [safe_rules]: "gsafe k T (process_spawn E app args secret)" "gsafe k T (spawned_or E ec message ok)"
  unfolding process_spawn_def spawned_or_def by (intro throws_rules safe_rules gsafe_modify; simp)+

section \<open>Activation\<close>

lemma gsafe_nbdkit [safe_rules]:
  "gsafe k {False} (spawnNbdKit E secret params)" "gsafe k {False} (spawnNbdKit_file E f)"
  "gsafe k {False} (spawnNbdKit_url E u)"
proof -
  have body: "gsafe k {False} (spawn_nbdkit_body E secret params)" for secret params
    unfolding spawn_nbdkit_body_def by (intro throws_rules safe_rules msafe_get gsafe_target)
  show kit: "gsafe k {False} (spawnNbdKit E secret params)" for secret params
    unfolding spawnNbdKit_def
    by (intro throws_rules safe_rules msafe_catch msafe_throw body | assumption)+
  show "gsafe k {False} (spawnNbdKit_file E f)" "gsafe k {False} (spawnNbdKit_url E u)"
    unfolding spawnNbdKit_file_def spawnNbdKit_url_def
    by (intro throws_rules safe_rules gsafe_target kit)+
qed

lemma gsafe_resource_error: "gsafe k T m \<Longrightarrow> gsafe k T (catch_resource_error E m)"
  unfolding catch_resource_error_def
  by (rule msafe_catch, assumption) (auto intro!: safe_rules msafe_throw split: exn.splits)

lemma gsafe_media [safe_rules]:
  "gsafe k {False} (mountLocalFile E)" "gsafe k {False} (mountSmbShare E)"
  "gsafe k {False} (mountNfsShare E)" "gsafe k {False} (mountHttpsShare E)"
  unfolding mountLocalFile_def mountSmbShare_def mountNfsShare_def mountHttpsShare_def Let_def
  by (intro throws_rules safe_rules msafe_get gsafe_target gsafe_resource_error)+

lemma gsafe_activating:
  "gsafe k {False} (activating_onEnter E)" "gsafe proxy {True} (activating_onEnter E)"
proof -
  have url: "gsafe k {False} (activate_url E n)" for n
    unfolding activate_url_def by (intro throws_rules safe_rules msafe_get gsafe_target)
  have legacy: "gsafe k {False} (activateLegacyMode E)"
    unfolding activateLegacyMode_def
    by (intro throws_rules safe_rules msafe_get gsafe_target msafe_liftE slot_number_defined url)
      (auto intro!: throws_rules safe_rules msafe_liftE slot_number_defined url split: prod.splits)
  have spawn: "gsafe k T (bindM (getMC config) (\<lambda>c. bindM (process_spawn E a (toArgs c) None) (spawned_or E ec msg)))"
    for k T a ec msg by (intro throws_rules safe_rules msafe_get)
  have "gsafe k {False} (activateProxyMode E)"
    unfolding activateProxyMode_def by (intro msafe_get throws_rules safe_rules spawn)
  with legacy show "gsafe k {False} (activating_onEnter E)"
    unfolding activating_onEnter_def by (intro throws_rules gsafe_modify msafe_get) simp_all
  have "gsafe proxy {True} (activateProxyMode E)"
    unfolding activateProxyMode_def
    by (rule msafe_get, drule good_none, simp) (intro throws_rules safe_rules spawn)
  then show "gsafe proxy {True} (activating_onEnter E)"
    unfolding activating_onEnter_def
    by (intro throws_then gsafe_modify msafe_get) (auto dest: good_mode)
qed

section \<open>Changing the state\<close>

lemma throws_triple: "throws_only P A m \<Longrightarrow> triple P m (\<lambda>_. P) (\<lambda>e _. A e)"
  by (fastforce simp: throws_only_def triple_def split: prod.splits sum.splits)

lemma throws_conj: "throws_only P A m \<Longrightarrow> keeps R m \<Longrightarrow> throws_only (\<lambda>s. P s \<and> R s) A m"
  by (auto simp: throws_only_def keeps_def)

lemma triple_results: "triple P m (\<lambda>_. Q) X \<Longrightarrow> results A m \<Longrightarrow> triple P m (\<lambda>r s. Q s \<and> A r) X"
  by (fastforce simp: triple_def results_def split: prod.splits sum.splits)

abbreviation "clean \<equiv> \<lambda>e (_::st). defined e"

definition goods :: "mode \<Rightarrow> bool set \<Rightarrow> st \<Rightarrow> bool" where
  "goods k T s \<longleftrightarrow> good k T (mc s) \<and> has_instance (wd s)"

lemma goods_any: "goods k T s \<Longrightarrow> goods k UNIV s"
  by (simp add: goods_def good_def)

lemma gsafe_triple: "gsafe k T m \<Longrightarrow> triple (goods k T) m (\<lambda>_. goods k T) clean"
  unfolding goods_def [abs_def] by (rule throws_triple)

lemma gsafe_clear [safe_rules]: "gsafe k UNIV (clear_target E)"
  unfolding clear_target_def
  by (intro msafe_get throws_rules safe_rules msafe_modify) (simp_all add: good_def)

lemma gsafe_enter_ready [safe_rules]: "gsafe k UNIV (ready_onEnter E)"
  unfolding ready_onEnter_def by (intro throws_rules safe_rules gsafe_modify) simp_all

lemma gsafe_enter_rest [safe_rules]: "gsafe k T active_onEnter" "gsafe k T (deactivating_onEnter E p g u st)"
  unfolding active_onEnter_def deactivating_onEnter_def by (intro throws_rules safe_rules gsafe_modify; simp)+

lemma gsafe_destroy_state: "gsafe k T (destroy_state E b)"
  unfolding destroy_state_def by (intro throws_rules safe_rules gsafe_modify) simp_all

definition enterable :: "mode \<Rightarrow> bool set \<Rightarrow> bstate \<Rightarrow> bool" where
  "enterable k T b \<longleftrightarrow>
     (case b of ReadyState _ \<Rightarrow> T = UNIV | ActivatingState _ _ \<Rightarrow> T = {False} \<or> k = proxy \<and> T = {True} | _ \<Rightarrow> True)"

definition follows :: "bstate \<Rightarrow> bstate option \<Rightarrow> bool" where
  "follows b n \<longleftrightarrow> ready_or_none n \<and> ((\<exists>e. b = ReadyState e) \<longrightarrow> n = None)"

lemma enter_safe:
  assumes "enterable k T b"
  shows "triple (\<lambda>s. goods k T s \<and> mc_state (mc s) = b) (onEnter E) (\<lambda>n s. goods k T s \<and> follows b n) clean"
proof (rule triple_cong)
  let ?m = "case b of InitialState \<Rightarrow> returnM None | ReadyState _ \<Rightarrow> ready_onEnter E
       | ActivatingState _ _ \<Rightarrow> activating_onEnter E | ActiveState _ _ \<Rightarrow> active_onEnter
       | DeactivatingState p g u st \<Rightarrow> deactivating_onEnter E p g u st"
  have "gsafe k T ?m"
    using assms gsafe_activating by (cases b) (auto simp: enterable_def intro!: throws_rules safe_rules)
  moreover have "results (follows b) ?m"
  proof (cases b)
    case (ActivatingState p g)
    then have "follows b = ready_or_none" by (auto simp: follows_def)
    with ActivatingState show ?thesis by (simp add: yields_activating)
  qed (simp_all add: ready_onEnter_def active_onEnter_def deactivating_onEnter_def yields_then
      yields_return follows_def ready_or_none_def)
  ultimately show "triple (\<lambda>s. goods k T s \<and> mc_state (mc s) = b) ?m (\<lambda>n s. goods k T s \<and> follows b n) clean"
    by (intro triple_pre [OF triple_results [OF gsafe_triple]]) simp_all
qed (simp add: onEnter_def getMC_def)

lemma change_safe:
  assumes "enterable k T b"
    and "\<And>n. follows b n \<Longrightarrow> triple (goods k T) (case n of None \<Rightarrow> returnM () | Some s \<Rightarrow> changeState E fuel s) (\<lambda>_. Q) clean"
  shows "triple (goods k T) (changeState E (Suc fuel) b) (\<lambda>_. Q) clean"
proof -
  have set: "triple (goods k T) (set_state b) (\<lambda>_ s. goods k T s \<and> mc_state (mc s) = b) clean"
    unfolding set_state_def modifyMC_def by (rule triple_modify) (simp add: goods_def good_def)
  have leave: "triple (\<lambda>s. goods k T s \<and> mc_state (mc s) = b) (destroy_state E old)
      (\<lambda>_ s. goods k T s \<and> mc_state (mc s) = b) clean" for old
    unfolding goods_def [abs_def]
    by (rule throws_triple) (intro throws_conj gsafe_destroy_state keeps_destroy_state)
  have follow: "triple (\<lambda>s. goods k T s \<and> follows b n)
      (case n of None \<Rightarrow> returnM () | Some s \<Rightarrow> changeState E fuel s) (\<lambda>_. Q) clean" for n
    using assms(2) [of n] by (cases "follows b n") (simp_all add: triple_def)
  show ?thesis
    unfolding changeState.simps getMC_def
    by (intro triple_get triple_pre [OF triple_then [OF set triple_then [OF leave
          triple_bind [OF enter_safe [OF assms(1)] follow]]]]) simp
qed

text \<open>Entering \<open>ReadyState\<close> has no state after it, so that one call is enough; two for any other state.\<close>

lemma change_ready_safe: "triple (goods k UNIV) (changeState E (Suc fuel) (ReadyState e)) (\<lambda>_. goods k UNIV) clean"
  by (rule change_safe) (auto simp: enterable_def follows_def triple_def returnM_def)

lemma change_state_safe:
  assumes "enterable k T b"
  shows "triple (goods k T) (changeState E 2 b) (\<lambda>_. goods k UNIV) clean"
  unfolding numeral_2_eq_2
proof (rule change_safe [OF assms])
  fix n
  assume n: "follows b n"
  show "triple (goods k T) (case n of None \<Rightarrow> returnM () | Some s \<Rightarrow> changeState E (Suc 0) s) (\<lambda>_. goods k UNIV) clean"
  proof (cases n)
    case (Some s)
    with n obtain e where "n = Some (ReadyState e)" by (auto simp: follows_def ready_or_none_def)
    then show ?thesis
      by (simp only: option.case) (rule triple_pre [OF change_ready_safe], rule goods_any)
  qed (auto simp: triple_def returnM_def intro: goods_any)
qed

section \<open>Handlers\<close>

lemma gsafe_make [safe_rules]: "gsafe k T move_out" "gsafe k T (make_deactivating p g e)"
  unfolding move_out_def make_deactivating_def by (intro throws_rules safe_rules gsafe_modify; simp)+

lemma gsafe_some [safe_rules]: "gsafe k T m \<Longrightarrow> gsafe k T (some_state m)"
  unfolding some_state_def by (intro throws_rules)

lemma gsafe_evaluate [safe_rules]: "gsafe k T (evaluate E u st)"
  unfolding evaluate_def by (intro throws_rules safe_rules)

definition plain :: "event \<Rightarrow> bool" where
  "plain e \<longleftrightarrow> (case e of RegisterDbusEvent \<Rightarrow> False | MountEvent _ \<Rightarrow> False | _ \<Rightarrow> True)"

lemma gsafe_handle:
  assumes "plain e"
  shows "gsafe k T (handleEvent E e)"
proof -
  have udev: "gsafe k T (activating_udev E p g d)" for p g d
    unfolding activating_udev_def by (intro throws_rules safe_rules msafe_get gsafe_modify) simp_all
  have stopped: "gsafe k T (activating_stopped E)"
    unfolding activating_stopped_def by (intro throws_rules safe_rules msafe_get)
  have "gsafe k T (initial_handle E e)" "gsafe k T (ready_handle E e)" "gsafe k T (activating_handle E p g e)"
    "gsafe k T (active_handle E p g e)" "gsafe k T (deactivating_handle E p g u st e)" for p g u st
    unfolding handle_defs
    using assms by (cases e; auto simp: plain_def intro!: throws_rules safe_rules msafe_throw udev stopped)+
  then show ?thesis unfolding handleEvent_def by (intro msafe_get) (auto split: bstate.splits)
qed

text \<open>Only a mount request starts an activation.\<close>

definition not_activating :: "bstate option \<Rightarrow> bool" where
  "not_activating n \<longleftrightarrow> (\<forall>p g. n \<noteq> Some (ActivatingState p g))"

lemma yields_weaken: "results A m \<Longrightarrow> (\<And>r. A r \<Longrightarrow> B r) \<Longrightarrow> results B m"
  by (auto simp: results_def)

lemma not_activating_fail [yields_rules]: "results not_activating (fail_with E ec msg)"
  by (rule yields_weaken [OF yields_fail]) (auto simp: not_activating_def ready_or_none_def)

lemma not_activating_some [yields_rules]:
  "results not_activating (some_state (make_deactivating p g e))"
  "results not_activating (bindM (ready_ok E) (\<lambda>s. returnM (Some s)))"
  "results not_activating (returnM (Some (ActiveState p g)))" "results not_activating (returnM None)"
  by (auto simp: results_def not_activating_def some_state_def make_deactivating_def ready_ok_def thenM_def
      returnM_def elim!: bindM_cases split: option.splits event.splits)

lemma handle_not_activating: "plain e \<Longrightarrow> results not_activating (handleEvent E e)"
  unfolding handleEvent_def handle_defs activating_udev_def activating_stopped_def evaluate_def
  by (intro yields_bind, cases e) (auto simp: plain_def intro!: yields_rules split: bstate.splits option.splits)

lemma emit_plain_safe:
  assumes "plain e"
  shows "triple (goods k UNIV) (emitEvent E e) (\<lambda>_. goods k UNIV) clean"
proof -
  have "triple (\<lambda>s. goods k UNIV s \<and> not_activating n) (case n of None \<Rightarrow> returnM () | Some s \<Rightarrow> changeState E 2 s)
      (\<lambda>_. goods k UNIV) clean" for n
  proof (cases "not_activating n")
    case True
    show ?thesis
    proof (cases n)
      case (Some b)
      with True have "enterable k UNIV b" by (auto simp: not_activating_def enterable_def split: bstate.splits)
      from change_state_safe [OF this, of E] Some show ?thesis by (simp only: option.case) (erule triple_pre, blast)
    qed (simp add: triple_def returnM_def)
  qed (simp add: triple_def)
  then show ?thesis
    unfolding emitEvent_def
    by (intro triple_bind [OF triple_results [OF gsafe_triple [OF gsafe_handle [OF assms]] handle_not_activating [OF assms]]])
qed

text \<open>A mount request: with a target, or in proxy mode without one.\<close>

lemma emit_mount_safe:
  assumes "t \<noteq> None \<or> k = proxy"
  shows "triple (goods k {b}) (emitEvent E (MountEvent t)) (\<lambda>_. goods k UNIV) clean"
proof -
  let ?T = "if t = None then {b} else {False}"
  have put: "triple (goods k UNIV) (modifyMC (\<lambda>m. m\<lparr>target := Some x\<rparr>)) (\<lambda>_. goods k {False}) clean" for x
    unfolding modifyMC_def by (rule triple_modify) (simp add: goods_def good_def)
  have set: "triple (goods k {b}) (set_target E x) (\<lambda>_. goods k {False}) clean" for x
    unfolding set_target_def
    by (intro triple_then [OF triple_pre [OF gsafe_triple [OF gsafe_clear]] put]) (rule goods_any)
  have ready: "triple (goods k {b}) (ready_handle E (MountEvent t))
      (\<lambda>n s. goods k ?T s \<and> n = Some (ActivatingState None None)) clean"
    unfolding ready_handle_def event.case
    by (cases t) (auto intro!: triple_then [OF gsafe_triple [OF gsafe_notify(2)]] triple_then [OF set]
        triple_then [OF triple_return [where Q = "\<lambda>_. goods k {b}"]] triple_return)
  have ready': "triple (\<lambda>s. goods k {b} s \<and> mc_state (mc s) = st) (ready_handle E (MountEvent t))
      (\<lambda>n s. goods k UNIV s \<and> (n = None \<or> goods k ?T s \<and> n = Some (ActivatingState None None))) clean" for st
    by (rule triple_weaken [OF ready]) (auto intro: goods_any)
  have "triple (\<lambda>s. goods k {b} s \<and> mc_state (mc s) = st) (case st of
         InitialState \<Rightarrow> initial_handle E (MountEvent t)
       | ReadyState _ \<Rightarrow> ready_handle E (MountEvent t)
       | ActivatingState p g \<Rightarrow> activating_handle E p g (MountEvent t)
       | ActiveState p g \<Rightarrow> active_handle E p g (MountEvent t)
       | DeactivatingState p g u s \<Rightarrow> deactivating_handle E p g u s (MountEvent t))
     (\<lambda>n s. goods k UNIV s \<and> (n = None \<or> goods k ?T s \<and> n = Some (ActivatingState None None))) clean" for st
    using ready'
    by (cases st) (auto simp: initial_handle_def activating_handle_def active_handle_def deactivating_handle_def
        simp del: split_paired_All intro!: triple_throw triple_return intro: goods_any)
  then have handle: "triple (goods k {b}) (handleEvent E (MountEvent t))
      (\<lambda>n s. goods k UNIV s \<and> (n = None \<or> goods k ?T s \<and> n = Some (ActivatingState None None))) clean"
    unfolding handleEvent_def getMC_def by (rule triple_get)
  have enter: "enterable k ?T (ActivatingState None None)"
    using assms by (cases b) (auto simp: enterable_def)
  have "triple (\<lambda>s. goods k UNIV s \<and> (n = None \<or> goods k ?T s \<and> n = Some (ActivatingState None None)))
      (case n of None \<Rightarrow> returnM () | Some s \<Rightarrow> changeState E 2 s) (\<lambda>_. goods k UNIV) clean" for n
  proof (cases n)
    case (Some x)
    show ?thesis
    proof (cases "x = ActivatingState None None")
      case True
      from change_state_safe [OF enter] have "triple (goods k ?T) (changeState E 2 x) (\<lambda>_. goods k UNIV) clean"
        using True by blast
      then show ?thesis using Some by (simp only: option.case) (erule triple_pre, auto)
    qed (simp add: Some triple_def)
  qed (simp add: triple_def returnM_def)
  then show ?thesis unfolding emitEvent_def by (intro triple_bind [OF handle])
qed

section \<open>Steps of the event loop\<close>

text \<open>A mount point that has been registered, or not yet; and the service has made \<^verbatim>\<open>vm::Interface\<close>.\<close>

definition usable :: "mode \<Rightarrow> st \<Rightarrow> bool" where
  "usable k s \<longleftrightarrow> (mc_state (mc s) = InitialState \<or> completion (mc s) \<noteq> None) \<and> mp_mode (config (mc s)) = k \<and>
     has_instance (wd s)"

lemma emit_safe:
  assumes "e \<noteq> RegisterDbusEvent" and "\<And>t. e = MountEvent t \<Longrightarrow> t \<noteq> None \<or> k = proxy"
  shows "triple (usable k) (emitEvent E e) (\<lambda>_ s. has_instance (wd s)) clean"
proof -
  have known: "triple (goods k {b}) (emitEvent E e) (\<lambda>_. goods k UNIV) clean" for b
  proof (cases "plain e")
    case True
    show ?thesis by (rule triple_pre [OF emit_plain_safe [OF True]]) (rule goods_any)
  next
    case False
    with assms obtain t where "e = MountEvent t" "t \<noteq> None \<or> k = proxy" by (cases e) (auto simp: plain_def)
    then show ?thesis using emit_mount_safe by blast
  qed
  show ?thesis
  proof (rule tripleI)
    fix s a s'
    assume s: "usable k s" and run: "emitEvent E e s = (Inr a, s')"
    show "has_instance (wd s')"
    proof (cases "mc_state (mc s) = InitialState")
      case True
      with run s assms(1) show ?thesis
        by (auto simp: emitEvent_def handleEvent_state initial_handle_def bindM_def returnM_def usable_def split: event.splits)
    next
      case False
      with s have "goods k {target (mc s) = None} s" by (simp add: usable_def goods_def good_def)
      from triple_Inr [OF known this run] show ?thesis by (simp add: goods_def)
    qed
  next
    fix s x s'
    assume s: "usable k s" and run: "emitEvent E e s = (Inl x, s')"
    show "defined x"
    proof (cases "mc_state (mc s) = InitialState")
      case True
      with run s assms(1) show ?thesis
        by (auto simp: emitEvent_def handleEvent_state initial_handle_def bindM_def returnM_def split: event.splits)
    next
      case False
      with s have "goods k {target (mc s) = None} s" by (simp add: usable_def goods_def good_def)
      from triple_Inl [OF known this run] show ?thesis .
    qed
  qed
qed

lemma secret_defined: "n \<le> length buf \<Longrightarrow> parse_secret buf n = Inl e \<Longrightarrow> defined e"
proof -
  assume e: "parse_secret buf n = Inl e"
  show "defined e"
  proof (cases "length (filter (\<lambda>c. c = NUL) (take n buf)) = 2")
    case True
    then obtain u p r where parts: "take n buf = u @ NUL # p @ NUL # r" "NUL \<notin> set u" "NUL \<notin> set p"
      by (rule two_nulls)
    from parse_secret_parts [OF this, of "drop n buf"] True e show ?thesis
      by (simp add: parse_secret_def Let_def)
  qed (use e in \<open>auto simp: parse_secret_def Let_def\<close>)
qed

text \<open>The methods that are registered for the mode, with what came through the pipe in the buffer.\<close>

definition op_ok :: "mode \<Rightarrow> loop_op \<Rightarrow> bool" where
  "op_ok k op =
     (case op of
        Register \<Rightarrow> False
      | ProxyMount _ \<Rightarrow> k = proxy
      | LegacyMount _ _ (Some (buf, n)) _ \<Rightarrow> n \<le> length buf
      | _ \<Rightarrow> True)"

lemma usable_modify:
  assumes "\<And>m. mc_state (f m) = mc_state m \<and> mp_mode (config (f m)) = mp_mode (config m)"
    and "\<And>m. completion m \<noteq> None \<Longrightarrow> completion (f m) \<noteq> None"
  shows "triple (usable k) (modifyMC f) (\<lambda>_. usable k) X"
  unfolding modifyMC_def by (rule triple_modify) (use assms in \<open>auto simp: usable_def\<close>)

lemma usable_liftW: "wsafe m \<Longrightarrow> triple (usable k) (liftW m) (\<lambda>_. usable k) clean"
  by (fastforce simp: throws_only_def triple_def liftW_def usable_def split: prod.splits sum.splits)

lemma triple_noexcept_clean: "triple P m (\<lambda>_. Q) clean \<Longrightarrow> triple P (noexceptM m) (\<lambda>_. Q) clean"
  unfolding noexceptM_def
  by (rule triple_catch, assumption) (auto simp: triple_def throwM_def split: exn.splits)

lemma methods_safe:
  assumes "op_ok k op" and "op \<in> {ProxyMount i, LegacyMount u rw sec i, UnmountCall}"
  shows "triple (usable k) (loop_step E limit op) (\<lambda>_ _. True) clean"
proof -
  have emit: "triple (usable k) (thenM (emitEvent E e) (returnM x)) (\<lambda>_ _. True) clean"
    if "e = UnmountEvent \<or> e = MountEvent (Some t) \<or> e = MountEvent None \<and> k = proxy" for e t and x :: bool
    by (rule triple_then [OF emit_safe triple_return]) (use that in auto)
  have info: "triple (usable k) (whenM b (setAdditionalInfo i)) (\<lambda>_. usable k) clean" for b i
    unfolding setAdditionalInfo_def by (intro triple_when usable_modify) simp_all
  have forget: "triple (usable j) (thenM m (returnM ())) (\<lambda>_ _. True) clean"
    if "triple (usable j) m (\<lambda>_ _. True) clean" for j and m :: "bool mprog"
    by (rule triple_then [OF that triple_return]) simp
  have read: "triple (usable k) (liftE (case sec of None \<Rightarrow> Inr None | Some (buf, n) \<Rightarrow>
      (case parse_secret buf n of Inl e \<Rightarrow> Inl e | Inr (user, pass) \<Rightarrow> Inr (Some (make_credentials user pass)))))
      (\<lambda>_. usable k) clean" if "op = LegacyMount u rw sec i"
    by (rule triple_liftE)
      (use assms(1) that in \<open>auto simp: op_ok_def intro: secret_defined split: option.splits sum.splits prod.splits\<close>)
  have "triple (usable k) (proxyMount E i) (\<lambda>_ _. True) clean" if "k = proxy"
    unfolding proxyMount_def getMC_def
    by (intro triple_get triple_pre [OF triple_then [OF info emit]]) (use that in auto)
  moreover have "triple (usable k) (legacyMount E u rw sec i) (\<lambda>_ _. True) clean" if "op = LegacyMount u rw sec i"
    unfolding legacyMount_def getMC_def
    by (intro triple_get triple_pre [OF triple_then [OF info triple_bind [OF read [OF that] emit]]]) auto
  moreover have "triple (usable k) (unmountMethod E) (\<lambda>_ _. True) clean"
    unfolding unmountMethod_def by (rule emit) simp
  ultimately show ?thesis
    using assms by (auto simp: loop_step_def op_ok_def intro!: forget)
qed

lemma secret_safe: "triple (\<lambda>s. has_instance (wd s)) (destroy_secret E f) (\<lambda>_ _. True) clean"
proof -
  have "msafe (\<lambda>_. True) (destroy_secret E f)"
    unfolding destroy_secret_def by (intro throws_rules safe_rules)
  from throws_triple [OF this] show ?thesis by (rule triple_weaken) simp_all
qed

lemma loop_safe:
  "triple (usable k) (child_exit E i) (\<lambda>_ _. True) clean" "triple (usable k) (run_stop E) (\<lambda>_ _. True) clean"
  "triple (usable k) (run_posted E) (\<lambda>_ _. True) clean" "triple (usable k) (active_tick E limit now) (\<lambda>_ _. True) clean"
  "triple (usable k) (update_notification E f) (\<lambda>_ _. True) clean"
  "triple (usable k) (noexceptM (emitUdevStateChangeEvent E dev d)) (\<lambda>_ _. True) clean"
proof -
  have emit: "triple (usable k) (emitEvent E e) (\<lambda>_ s. has_instance (wd s)) clean"
    if "e \<noteq> RegisterDbusEvent" "\<And>t. e \<noteq> MountEvent t" for e
    by (rule emit_safe) (use that in auto)
  have last: "triple (usable k) m (\<lambda>_ _. True) clean" if "triple (usable k) m Q clean" for m :: "unit mprog" and Q
    by (rule triple_weaken [OF that]) simp_all
  have change: "triple P (modifyMC f) (\<lambda>_ _. True) clean" for P f
    unfolding modifyMC_def by (rule triple_modify) simp
  have "triple (usable k) (noexceptM (thenM (emitEvent E SubprocessStoppedEvent) (destroy_secret E f)))
      (\<lambda>_ _. True) clean" for f
    by (rule triple_noexcept_clean) (rule triple_then [OF emit secret_safe], simp_all)
  then show "triple (usable k) (child_exit E i) (\<lambda>_ _. True) clean"
    unfolding child_exit_def getMC_def
    by (intro triple_get triple_if triple_return triple_pre [OF triple_bind [OF usable_liftW
          triple_then [OF usable_modify]]] safe_rules) (auto simp: remove_child_def)
  show "triple (usable k) (run_stop E) (\<lambda>_ _. True) clean"
    unfolding run_stop_def getMC_def
    by (intro triple_get triple_if triple_return triple_pre [OF triple_bind [OF usable_liftW change]] safe_rules) auto
  have "triple (usable k) (noexceptM (emitEvent E (case p of PostedUnmount \<Rightarrow> UnmountEvent
      | PostedStopped \<Rightarrow> SubprocessStoppedEvent))) (\<lambda>_ _. True) clean" for p
    by (rule triple_noexcept_clean) (cases p; simp add: last [OF emit])
  then show "triple (usable k) (run_posted E) (\<lambda>_ _. True) clean"
    unfolding run_posted_def getMC_def
    by (intro triple_get) (auto intro!: triple_return triple_pre [OF triple_then [OF usable_modify]] split: list.splits)
  show "triple (usable k) (active_tick E limit now) (\<lambda>_ _. True) clean"
    unfolding active_tick_def getMC_def Let_def
    by (intro triple_get triple_pre [OF triple_bind [OF usable_liftW]] triple_then [where R = "usable k"]
        triple_if change safe_rules)
      (auto intro!: triple_return triple_when triple_pre [OF usable_modify] split: option.splits)
  have send: "triple (usable k) (liftW (do_sys E c)) (\<lambda>_ _. True) clean" for c
    by (rule last [OF usable_liftW]) (rule safe_rules)
  show "triple (usable k) (update_notification E f) (\<lambda>_ _. True) clean"
    unfolding update_notification_def getMC_def
    by (intro triple_get) (auto intro!: triple_return triple_pre [OF triple_then [OF usable_modify]] send
        split: option.splits prod.splits)
  show "triple (usable k) (noexceptM (emitUdevStateChangeEvent E dev d)) (\<lambda>_ _. True) clean"
    unfolding emitUdevStateChangeEvent_def getMC_def
    by (intro triple_noexcept_clean triple_get triple_if triple_return triple_pre [OF last [OF emit]]) simp_all
qed

text \<open>No timer handler is run that was queued for a state that is gone.\<close>

definition fresh_tick :: "loop_op \<Rightarrow> machine \<Rightarrow> bool" where
  "fresh_tick op m = (case op of RunTick _ \<Rightarrow> \<not> stale_tick m | _ \<Rightarrow> True)"

lemma loop_step_safe:
  assumes "op_ok k op"
  shows "triple (\<lambda>s. usable k s \<and> fresh_tick op (mc s)) (loop_step E limit op) (\<lambda>_ _. True) clean"
proof -
  have pre: "triple (\<lambda>s. usable k s \<and> fresh_tick op' (mc s)) m (\<lambda>_ _. True) clean"
    if "triple (usable k) m (\<lambda>_ _. True) clean" for op' and m :: "unit mprog"
    by (rule triple_pre [OF that]) simp
  show ?thesis
  proof (cases op)
    case Register
    with assms show ?thesis by (simp add: op_ok_def)
  next
    case (ProxyMount i)
    show ?thesis by (rule pre [OF methods_safe [OF assms, where i = i]]) (simp add: ProxyMount)
  next
    case (LegacyMount u rw sec i)
    show ?thesis
      by (rule pre [OF methods_safe [OF assms, where u = u and rw = rw and sec = sec and i = i]])
        (simp add: LegacyMount)
  next
    case UnmountCall
    show ?thesis by (rule pre [OF methods_safe [OF assms]]) (simp add: UnmountCall)
  next
    case TimerElapse
    show ?thesis
      unfolding TimerElapse loop_step_def loop_op.case modifyMC_def by (rule triple_modify) simp
  next
    case (RunTick now)
    have go: "triple (\<lambda>s. usable k s \<and> fresh_tick op (mc s))
        (\<lambda>s. (if tick_timer (mc s) = Due then active_tick E limit now else returnM ()) s) (\<lambda>_ _. True) clean"
      using loop_safe(4) [of k E limit now] by (auto simp: triple_def returnM_def)
    show ?thesis
      by (rule triple_cong [OF go]) (simp add: RunTick loop_step_def run_tick_def getMC_def fresh_tick_def)
  qed (auto simp: loop_step_def intro!: pre loop_safe)
qed

text \<open>Of one mount point on its own, once \<^verbatim>\<open>vm::Interface\<close> is there.\<close>

lemma step_defined:
  assumes "reachable E limit name c s" and "vm_instance (wd s) \<noteq> None" and "fresh_tick op (mc s)"
    and "op_ok (mp_mode (config (mc s))) op" and "loop_step E limit op s = (Inl e, s')"
  shows "defined e"
proof -
  have "machine_ok (mc s)" using mp.run_good [OF assms(1)] by (simp add: own_def)
  then have "usable (mp_mode (config (mc s))) s \<and> fresh_tick op (mc s)"
    using assms(2,3) by (auto simp: usable_def machine_ok_def has_instance_def split: bstate.splits)
  from triple_Inl [OF loop_step_safe [OF assms(4)] this assms(5)] show ?thesis .
qed

end
