(* ===== verification/ServiceDefined.thy ===== *)
theory ServiceDefined
  imports Service Defined
begin

text \<open>
  No step of the whole service has undefined behaviour: \<^verbatim>\<open>vm::Interface\<close> stays there once \<^verbatim>\<open>main\<close> has made
  it, every mount point is there and registered, and the steps of \<open>Defined\<close> follow one another over one
  world.
\<close>

section \<open>The interface object stays\<close>

definition live :: "app \<Rightarrow> bool" where
  "live a \<longleftrightarrow> has_instance (app_wd a)"

lemma live_on_machine:
  assumes "\<And>x. keeps (identified x) p"
  shows "guards live (on_machine n p)"
proof -
  have "live a'" if "live a" "on_machine n p a = (r, a')" for r a a'
  proof (cases "sm_find (mpsm a) n")
    case (Some m)
    obtain q s where s: "p \<lparr>mc = m, wd = app_wd a\<rparr> = (q, s)" by fastforce
    have "has_instance (wd s)"
      by (use keeps_result [OF assms [of "(identity m, True)"] _ s] that(1) in \<open>simp add: live_def\<close>)
    with s Some that(2) show ?thesis by (auto simp: on_machine_def live_def)
  qed (use that in \<open>simp add: on_machine_def\<close>)
  then show ?thesis unfolding guards_def by (intro tripleI) blast+
qed

lemma live_liftApp: "wsafe m \<Longrightarrow> guards live (liftApp m)"
  by (fastforce simp: guards_def triple_def liftApp_def live_def throws_only_def split: prod.splits sum.splits)

lemma live_service_run: "guards live (service_run E c op)"
proof -
  have find: "guards live (find_local E slots)" for slots
    by (induction slots) (unfold find_local.simps, (intro guards_rules live_liftApp safe_rules; assumption)+)
  have take: "guards live (take_slot E path rw slots)" for path rw slots
    by (induction slots) (unfold take_slot.simps mount_on_def,
        (intro guards_rules live_on_machine identity_steps identity_rules; assumption)+)
  have mount: "guards live (localMount E path rw)" for path rw
    unfolding localMount_search by (intro guards_rules find take live_liftApp safe_rules)
  have "guards live (modifyM (\<lambda>a. a\<lparr>watched := ws\<rparr>))" for ws
    by (rule guards_modify) (simp add: live_def)
  then have device: "guards live (device_round E u)" for u
    unfolding device_round_def dispatch_device_def emitUdevStateChangeEvent_def
    by (intro guards_rules live_on_machine identity_steps identity_rules)
  show ?thesis
    by (cases op) (auto simp: service_run_def localUnmount_search getCurrentMount_search
        intro!: guards_rules find mount device live_on_machine live_liftApp identity_rules identity_loop_step safe_rules)
qed

lemma live_start:
  assumes "service_init E c a"
  shows "live a"
proof -
  from assms obtain files args where main: "app_main E files args = (Inr None, a)"
    and load: "load_config E (parse_args [] args) (files (parse_args [] args)) = Inr c"
    unfolding service_init_def by blast
  from main load obtain a0 where "app_run E c a0 = (Inr (), a)"
    by (auto simp: app_main_def Let_def returnM_def thenM_def elim!: bindM_cases split: if_splits)
  then have run: "addInterfaces E ((app_wd a0)\<lparr>vm_instance :=
      Some (make_interface (fst (snd (service_context E (configPath c)))) (configPath c))\<rparr>) = (Inr (), app_wd a)"
    by (auto simp: app_run_def liftApp_def thenM_def split: prod.splits)
  show ?thesis
    using keeps_result [OF keeps_interfaces _ run] by (simp add: live_def has_instance_def)
qed

section \<open>The states between two steps\<close>

definition equipped :: "env \<Rightarrow> configuration \<Rightarrow> app \<Rightarrow> bool" where
  "equipped E c a \<longleftrightarrow> staffed E c a \<and> live a"

interpretation svd: invariant_system "service_init E c" "service_step E c" "equipped E c" for E c
proof unfold_locales
  show "equipped E c a" if "service_init E c a" for a
    using svc.init_good [OF that] live_start [OF that] by (simp add: equipped_def)
  show "equipped E c a'" if "equipped E c a" "service_step E c op a a'" for op a a'
    using that(2)
  proof (rule service_stepE)
    show "equipped E c a'" if "service_run E c op a = (r, a')" "\<And>e. r = Inl e \<Longrightarrow> catchable e" for r
      using guardsD [OF live_service_run _ that] svc.step_good [OF _ \<open>service_step E c op a a'\<close>] \<open>equipped E c a\<close>
      by (simp add: equipped_def)
  qed
qed

abbreviation names_of :: "configuration \<Rightarrow> string set" where
  "names_of c \<equiv> set (map fst (mountPoints c))"

lemma equipped_machine:
  assumes "equipped E c a" and "n \<in> names_of c"
  obtains m where "sm_find (mpsm a) n = Some m" and "usable (mp_mode (config m)) \<lparr>mc = m, wd = app_wd a\<rparr>"
proof -
  from assms obtain m where m: "sm_find (mpsm a) n = Some m"
    by (auto simp: equipped_def staffed_def roster_def)
  with assms(1) have "machine_ok m" by (simp add: equipped_def staffed_def sound_def)
  with m assms(1) that show thesis
    by (auto simp: usable_def machine_ok_def equipped_def live_def split: bstate.splits)
qed

section \<open>Operations of the application\<close>

abbreviation "asafe E c p \<equiv> triple (equipped E c) p (\<lambda>_. equipped E c) (\<lambda>e _. defined e)"

named_theorems asafe_rules \<open>operations of the application without undefined behaviour\<close>

lemma asafe_guards:
  assumes "guards (sound (mountPoints c)) p" and "\<And>reg names. guards (roster reg names) p" and "guards live p"
    and "triple (equipped E c) p (\<lambda>_ _. True) (\<lambda>e _. defined e)"
  shows "asafe E c p"
proof (rule tripleI)
  show "equipped E c a'" if "equipped E c a" "p a = (Inr x, a')" for a x a'
    using that guards_Inr [OF assms(1) _ that(2)] guards_Inr [OF assms(2) _ that(2)] guards_Inr [OF assms(3) _ that(2)]
    by (auto simp: equipped_def staffed_def)
  show "defined e" if "equipped E c a" "p a = (Inl e, a')" for a e a'
    by (rule triple_Inl [OF assms(4) that])
qed

lemma asafe_liftApp:
  assumes "wsafe m" and "quiet m"
  shows "asafe E c (liftApp m)"
proof (intro asafe_guards sound_liftApp roster_liftApp live_liftApp assms)
  show "triple (equipped E c) (liftApp m) (\<lambda>_ _. True) (\<lambda>e _. defined e)"
    using throws_onlyD [OF assms(1)]
    by (intro tripleI) (auto simp: liftApp_def equipped_def live_def split: prod.splits)
qed

lemma asafe_on_machine:
  assumes "\<And>bk. triple (consistent bk) p (\<lambda>_. consistent bk) (unless_crash (consistent bk))"
    and "\<And>x. keeps (identified x) p" and "\<And>k. triple (usable k) p (\<lambda>_ _. True) clean" and "n \<in> names_of c"
  shows "asafe E c (on_machine n p)"
proof (intro asafe_guards sound_on_machine roster_on_machine live_on_machine assms(1,2))
  show "triple (equipped E c) (on_machine n p) (\<lambda>_ _. True) (\<lambda>e _. defined e)"
  proof (rule tripleI)
    fix a e a'
    assume "equipped E c a" and run: "on_machine n p a = (Inl e, a')"
    then obtain m where "sm_find (mpsm a) n = Some m" "usable (mp_mode (config m)) \<lparr>mc = m, wd = app_wd a\<rparr>"
      using equipped_machine assms(4) by blast
    with run triple_Inl [OF assms(3)] show "defined e"
      by (fastforce simp: on_machine_def split: prod.splits)
  qed simp
qed

lemma asafe_for: "(\<And>x. x \<in> set xs \<Longrightarrow> asafe E c (f x)) \<Longrightarrow> asafe E c (forM xs f)"
  by (induction xs) (auto intro: triple_return triple_then)

lemma asafe_noexcept: "asafe E c p \<Longrightarrow> asafe E c (noexceptM p)"
  unfolding noexceptM_def by (rule triple_catch, assumption) (auto simp: triple_def throwM_def split: exn.splits)

section \<open>The methods for local media\<close>

definition found_in :: "configuration \<Rightarrow> (string \<times> string) option \<Rightarrow> bool" where
  "found_in c found \<longleftrightarrow> (\<forall>n p. found = Some (n, p) \<longrightarrow> n \<in> names_of c)"

lemma registered_known:
  assumes "equipped E c a" and "registered_machine a n \<noteq> None"
  shows "n \<in> names_of c"
  using assms by (auto simp: equipped_def staffed_def roster_def registered_machine_def split: if_splits)

lemma safe_exists: "asafe E c (liftApp (fs_query E (Exists p)))" "asafe E c (liftApp (fs_query E (IsRegularFile p)))"
  by (intro asafe_liftApp safe_rules at_most_fs_query; simp)+

lemma safe_find_local: "triple (equipped E c) (find_local E slots) (\<lambda>found a. equipped E c a \<and> found_in c found) (\<lambda>e _. defined e)"
proof (induction slots)
  case Nil
  show ?case unfolding find_local.simps by (rule triple_return) (simp add: found_in_def)
next
  case (Cons n slots)
  have "triple (\<lambda>a. equipped E c a \<and> local_path a n = x)
      (case x of None \<Rightarrow> find_local E slots | Some p \<Rightarrow> bindM (liftApp (fs_query E (Exists p)))
         (\<lambda>there. if there then returnM (Some (n, p)) else find_local E slots))
      (\<lambda>found a. equipped E c a \<and> found_in c found) (\<lambda>e _. defined e)" for x
  proof (cases x)
    case None
    show ?thesis unfolding None option.case by (rule triple_pre [OF Cons.IH]) simp
  next
    case (Some p)
    show ?thesis
    proof (cases "n \<in> names_of c")
      case True
      have "triple (equipped E c) (if there then returnM (Some (n, p)) else find_local E slots)
          (\<lambda>found a. equipped E c a \<and> found_in c found) (\<lambda>e _. defined e)" for there
        using True Cons.IH by (cases there) (auto simp: found_in_def intro: triple_return)
      from triple_bind [OF safe_exists(1) this] show ?thesis
        unfolding Some option.case by (rule triple_pre) simp
    next
      case False
      then have "\<not> (equipped E c a \<and> local_path a n = x)" for a
        using registered_known [of E c a n] Some by (auto simp: local_path_def split: option.splits)
      then show ?thesis unfolding triple_def by blast
    qed
  qed
  then show ?case unfolding find_local.simps by (rule triple_get)
qed

text \<open>A method that acts on the machine it found.\<close>

lemma safe_local_emit:
  assumes "n \<in> names_of c" and "e = UnmountEvent \<or> (\<exists>p rw. e = MountEvent (Some (make_target p rw None)))"
  shows "asafe E c (on_machine n (emitEvent E e))"
proof (intro asafe_on_machine emitEvent_consistent identity_emitEvent assms(1))
  show "triple (usable k) (emitEvent E e) (\<lambda>_ _. True) clean" for k
    by (rule triple_weaken [OF emit_safe]) (use assms(2) in auto)
qed (use assms(2) in \<open>auto simp: fresh_event_def make_target_def\<close>)

lemma safe_take_slot: "asafe E c (take_slot E path rw slots)"
proof (induction slots)
  case Nil
  show ?case unfolding take_slot.simps by (rule triple_throw) simp
next
  case (Cons n slots)
  have mount: "asafe E c (mount_on E path rw n)" if "n \<in> names_of c"
  proof -
    let ?e = "MountEvent (Some (make_target path rw None))"
    have "asafe E c (on_machine n (thenM (setAdditionalInfo ''LMEDIA'') (emitEvent E ?e)))"
    proof (intro asafe_on_machine that)
      show "triple (consistent bk) (thenM (setAdditionalInfo ''LMEDIA'') (emitEvent E ?e)) (\<lambda>_. consistent bk)
          (unless_crash (consistent bk))" for bk
        unfolding setAdditionalInfo_def
        by (intro ok_then ok_modify emitEvent_consistent) (simp_all add: fresh_event_def make_target_def)
      show "keeps (identified x) (thenM (setAdditionalInfo ''LMEDIA'') (emitEvent E ?e))" for x
        by (intro identity_steps identity_rules)
      have "triple (usable k) (setAdditionalInfo i) (\<lambda>_. usable k) clean" for k i
        unfolding setAdditionalInfo_def by (intro usable_modify) simp_all
      then show "triple (usable k) (thenM (setAdditionalInfo ''LMEDIA'') (emitEvent E ?e)) (\<lambda>_ _. True) clean" for k
        by (rule triple_then) (rule triple_weaken [OF emit_safe], auto)
    qed
    then show ?thesis unfolding mount_on_def by (intro triple_then triple_return)
  qed
  have "triple (\<lambda>a. equipped E c a \<and> available a n = free)
      (if free then mount_on E path rw n else take_slot E path rw slots) (\<lambda>_. equipped E c) (\<lambda>e _. defined e)" for free
  proof (cases free)
    case True
    have "\<not> (equipped E c a \<and> available a n)" if "n \<notin> names_of c" for a
      using registered_known [of E c a n] that by (auto simp: available_def split: option.splits)
    with True mount show ?thesis
      by (cases "n \<in> names_of c") (auto simp: triple_def simp del: set_map)
  next
    case False
    show ?thesis unfolding if_not_P [OF False] by (rule triple_pre [OF Cons.IH]) simp
  qed
  then show ?case unfolding take_slot.simps by (rule triple_get)
qed

lemma safe_localMount: "asafe E c (localMount E path rw)"
proof -
  have img: "asafe E c (liftApp (detectImageType E path))"
    by (intro asafe_liftApp safe_rules)
      (unfold detectImageType_def, intro at_most_steps at_most_sys, simp add: is_resource_call_def)
  have weaken: "triple (\<lambda>a. equipped E c a \<and> found_in c f) p (\<lambda>_. equipped E c) (\<lambda>e _. defined e)"
    if "asafe E c p" for f and p :: "string aprog"
    by (rule triple_pre [OF that]) simp
  show ?thesis
    unfolding localMount_search
  proof (intro triple_bind [OF safe_find_local] triple_option)
    show "triple (\<lambda>a. equipped E c a \<and> found_in c f) (case x of (slot, p) \<Rightarrow> throwM (busy_with slot p))
        (\<lambda>_. equipped E c) (\<lambda>e _. defined e)" for f x
      by (cases x) (simp add: triple_throw busy_with_def)
  qed (rule weaken, intro triple_if triple_throw triple_bind [OF safe_exists(1)] triple_bind [OF safe_exists(2)]
      triple_bind [OF img] safe_take_slot; simp)
qed

lemma safe_localUnmount: "asafe E c (localUnmount E)"
proof -
  have "triple (\<lambda>a. equipped E c a \<and> found_in c (Some (n, p)))
      (thenM (on_machine n (emitEvent E UnmountEvent)) (returnM True)) (\<lambda>_. equipped E c) (\<lambda>e _. defined e)" for n p
  proof (cases "n \<in> names_of c")
    case True
    show ?thesis by (rule triple_pre [OF triple_then [OF safe_local_emit [OF True] triple_return]]) simp_all
  qed (simp add: triple_def found_in_def)
  then show ?thesis
    unfolding localUnmount_search
    by (intro triple_bind [OF safe_find_local] triple_option) (auto intro!: triple_return)
qed

lemma safe_device_round: "asafe E c (device_round E u)"
proof -
  have emit: "triple (usable k) (emitUdevStateChangeEvent E d ch) (\<lambda>_ _. True) clean" for k d ch
  proof -
    have "triple (usable k) (emitEvent E (UdevStateChangeEvent ch)) (\<lambda>_ _. True) clean"
      by (rule triple_weaken [OF emit_safe]) simp_all
    then show ?thesis
      unfolding emitUdevStateChangeEvent_def getMC_def
      by (intro triple_get triple_if triple_return) (rule triple_pre, assumption, simp_all)
  qed
  have tell: "asafe E c (on_machine n (emitUdevStateChangeEvent E d ch))" if "n \<in> names_of c" for n d ch
    using that by (intro asafe_on_machine ok_udev emit)
      (auto simp: emitUdevStateChangeEvent_def intro!: identity_steps identity_rules)
  have "triple (\<lambda>a. equipped E c a \<and> map fst (mpsm a) = ns)
      (forM ns (\<lambda>n. on_machine n (emitUdevStateChangeEvent E d ch))) (\<lambda>_. equipped E c) (\<lambda>e _. defined e)" for ns d ch
  proof (cases "set ns \<subseteq> names_of c")
    case True
    show ?thesis by (rule triple_pre [OF asafe_for [OF tell]]) (use True in auto)
  next
    case False
    have "set (map fst (mpsm a)) \<subseteq> names_of c" if "equipped E c a" for a
    proof
      fix n
      assume "n \<in> set (map fst (mpsm a))"
      then have "sm_find (mpsm a) n \<noteq> None" unfolding sm_find_keys by simp
      with that show "n \<in> names_of c" by (auto simp: equipped_def staffed_def roster_def)
    qed
    with False show ?thesis by (auto simp: triple_def simp del: set_map)
  qed
  then have "asafe E c (noexceptM (dispatch_device E d ch))" for d ch
    unfolding dispatch_device_def by (intro asafe_noexcept triple_get)
  moreover have "triple (\<lambda>a. equipped E c a \<and> x a) (modifyM (\<lambda>a. a\<lparr>watched := ws\<rparr>)) (\<lambda>_. equipped E c) (\<lambda>e _. defined e)" for x ws
    by (rule triple_modify) (simp add: equipped_def staffed_def sound_def roster_def live_def)
  ultimately show ?thesis
    unfolding device_round_def
    by (intro triple_get) (auto split: prod.split option.split intro!: triple_then triple_return)
qed

section \<open>No undefined behaviour\<close>

text \<open>
  The steps the theorem is about: a D-Bus method that is registered for the mount point, with no more
  bytes than the buffer has, and no timer handler that is queued for a state that is gone.
\<close>

definition allowed :: "app \<Rightarrow> service_op \<Rightarrow> bool" where
  "allowed a op =
     (case op of
        Request n lop \<Rightarrow>
          (case sm_find (mpsm a) n of
             None \<Rightarrow> False
           | Some m \<Rightarrow> op_ok (mp_mode (config m)) lop \<and> fresh_tick lop m)
      | _ \<Rightarrow> True)"

lemma safe_service_run:
  assumes "equipped E c a" and "allowed a op" and "service_run E c op a = (Inl e, a')"
  shows "defined e"
proof -
  have by_triple: thesis_e if "asafe E c p" "p a = (Inl e, a')" "defined e \<Longrightarrow> thesis_e" for p :: "unit aprog" and thesis_e
    using triple_Inl [OF that(1) assms(1) that(2)] that(3) by blast
  have unit: "asafe E c (thenM p (returnM ()))" if "asafe E c p" for p :: "'b aprog"
    by (rule triple_then [OF that triple_return]) simp
  show ?thesis
  proof (cases op)
    case (Request n lop)
    with assms(2) obtain m where m: "sm_find (mpsm a) n = Some m" "op_ok (mp_mode (config m)) lop" "fresh_tick lop m"
      by (auto simp: allowed_def split: option.splits)
    have "n \<in> names_of c"
      using assms(1) m(1) unfolding equipped_def staffed_def roster_def by (metis option.distinct(1))
    from equipped_machine [OF assms(1) this] m
    have "usable (mp_mode (config m)) \<lparr>mc = m, wd = app_wd a\<rparr> \<and> fresh_tick lop (mc \<lparr>mc = m, wd = app_wd a\<rparr>)"
      by (metis option.inject st.select_convs(1))
    from triple_Inl [OF loop_step_safe [OF m(2), of E "inactivityTimeout c"] this] m assms(3) Request show ?thesis
      by (fastforce simp: service_run_def on_machine_def whenM_def returnM_def split: if_splits prod.splits)
  next
    case (DeviceEvent u)
    with assms(3) by_triple [OF safe_device_round] show ?thesis by (simp add: service_run_def)
  next
    case (LocalMountCall path rw)
    with assms(3) by_triple [OF unit [OF safe_localMount]] show ?thesis by (simp add: service_run_def)
  next
    case LocalUnmountCall
    with assms(3) by_triple [OF unit [OF safe_localUnmount]] show ?thesis by (simp add: service_run_def)
  next
    case LocalCurrentCall
    have "asafe E c (getCurrentMount E)"
      unfolding getCurrentMount_search by (intro triple_bind [OF safe_find_local] triple_return) simp
    with LocalCurrentCall assms(3) by_triple [OF unit] show ?thesis by (simp add: service_run_def)
  next
    case (SessionSignal msg)
    with assms(3) by_triple [OF asafe_liftApp [OF safe_sessionCallback quiet_sessionCallback]] show ?thesis
      by (simp add: service_run_def)
  next
    case (SetRetry k i)
    with assms(3) by_triple [OF unit [OF asafe_liftApp [OF safe_SetAll quiet_SetAll]]] show ?thesis
      by (simp add: service_run_def)
  qed
qed

text \<open>
  C6. No step of the service has undefined behaviour: in every reachable state, a D-Bus method that is
  registered for its mount point, the four methods for local media, a device event, the end of a child,
  a posted event, a timer, the signal of the session manager and a change of the retry parameters
  neither dereference a null pointer or an empty optional, nor look for a mount point that is not there,
  nor read past a buffer, nor change a state without end, whatever the system answers and however the
  step fails. The one exception is the timer handler that is queued for a state that is gone.
\<close>

theorem service_defined:
  assumes "service_reachable E c a" and "allowed a op" and "service_run E c op a = (r, a')"
  shows "r \<noteq> Inl (UB what)"
proof
  assume "r = Inl (UB what)"
  with safe_service_run [OF svd.run_good [OF assms(1)] assms(2)] assms(3) have "defined (UB what)" by blast
  then show False by simp
qed

theorem service_defined_witness:
  "\<exists>a r a'. service_reachable proxy_env proxy_configuration a \<and>
     service_run proxy_env proxy_configuration (Request ''Slot_0'' (ProxyMount ''client'')) a = (r, a') \<and>
     r \<noteq> Inl (UB ''completionNotification is null'')"
proof -
  let ?op = "Request ''Slot_0'' (ProxyMount ''client'')"
  from proxy_service obtain a where a: "service_init proxy_env proxy_configuration a" by blast
  note reach = service_begins [OF a]
  from service_started(3) [OF a, of "''Slot_0''"] obtain m where m: "sm_find (mpsm a) ''Slot_0'' = Some m"
    by (auto simp: proxy_configuration_def)
  have "identity m = (''Slot_0'', (shipped_slot proxy nbd0 [] ''/run/nbd0.sock'' 30)\<lparr>remainingInactivityTimeout := None\<rparr>)"
    using sound_machine(2) [OF service_started(2,1) [OF a] m]
    by (simp add: proxy_configuration_def sm_find_def)
  from identity_mode [OF this] have "allowed a ?op"
    using m by (simp add: allowed_def op_ok_def fresh_tick_def shipped_slot_def)
  moreover obtain r a' where "service_run proxy_env proxy_configuration ?op a = (r, a')" by fastforce
  ultimately show ?thesis using service_defined [OF reach] reach by blast
qed

end
