(* ===== verification/Refusal.thy ===== *)
theory Refusal
  imports Reachable
begin

text \<open>
  What a mount request does not do: without a user name and a password a share that needs them is
  refused before anything is started for it.
\<close>

section \<open>Nothing is started\<close>

text \<open>Calls that start something for a medium, or hand its credentials on.\<close>

definition launches :: "call \<times> int \<Rightarrow> bool" where
  "launches x =
     (case fst x of Spawn _ _ \<Rightarrow> True | MountCall _ _ _ _ _ \<Rightarrow> True | WriteCredentials _ _ _ \<Rightarrow> True
      | MakeTempFile _ \<Rightarrow> True | _ \<Rightarrow> False)"

lemma launches_simps [simp]:
  "\<not> launches (AddInterface a b, r)" "\<not> launches (OpenForWrite a, r)" "\<not> launches (WriteBytes a b, r)"
  "\<not> launches (Exists a, r)" "\<not> launches (CreateDirectories a, r)" "\<not> launches (SetPermissions a, r)"
  "\<not> launches (SendSignal a b c n, r)" "\<not> launches (Umount2 a b, r)" "\<not> launches (RemovePath a, r)"
  by (simp_all add: launches_def)

definition calm :: "st \<Rightarrow> st \<Rightarrow> bool" where
  "calm s0 s \<longleftrightarrow>
     (\<exists>new. hist (wd s) = new @ hist (wd s0) \<and> tally launches new = 0) \<and> creds (wd s) = creds (wd s0) \<and>
     children (mc s) = children (mc s0) \<and> mp_mode (config (mc s)) = mp_mode (config (mc s0))"

lemma calm_refl: "calm s s"
  by (simp add: calm_def)

text \<open>The rules, with the target and the state of the machine beside.\<close>

definition calm_with :: "st \<Rightarrow> target option \<times> bstate \<Rightarrow> st \<Rightarrow> bool" where
  "calm_with s0 t s \<longleftrightarrow> calm s0 s \<and> (target (mc s), mc_state (mc s)) = t"

lemma calm_liftW:
  assumes "at_most launches 0 m" and "\<And>c. keeps (\<lambda>w. creds w = c) m"
  shows "triple (calm_with s0 t) (liftW m) (\<lambda>_. calm_with s0 t) (\<lambda>_. calm_with s0 t)"
proof -
  have "keeps (calm_with s0 t) (liftW m)"
  proof (rule keepsI)
    fix s
    assume s: "calm_with s0 t s"
    obtain r w' where m: "m (wd s) = (r, w')" by (cases "m (wd s)")
    from at_mostD [OF assms(1) m] obtain new where "hist w' = new @ hist (wd s)" "tally launches new = 0" by auto
    moreover from keeps_result [OF assms(2) refl m] have "creds w' = creds (wd s)" .
    ultimately show "calm_with s0 t (snd (liftW m s))"
      using s by (auto simp: calm_with_def calm_def liftW_def m)
  qed
  then show ?thesis by (simp add: triple_keeps)
qed

lemma calm_set:
  assumes "\<And>m. children (f m) = children m \<and> config (f m) = config m \<and> target (f m) = target m \<and>
    mc_state (f m) = mc_state m"
  shows "triple (calm_with s0 t) (modifyMC f) (\<lambda>_. calm_with s0 t) X"
  unfolding modifyMC_def by (rule triple_modify) (use assms in \<open>simp add: calm_with_def calm_def\<close>)

lemma calm_notify:
  "triple (calm_with s0 t) (notify_client E ec) (\<lambda>_. calm_with s0 t) (\<lambda>_. calm_with s0 t)"
  unfolding notify_client_def getMC_def
  by (intro triple_get triple_option triple_throw)
    (auto split: prod.splits option.splits intro!: triple_then [OF triple_pre [OF calm_set]] triple_return
      calm_liftW at_most_do_sys keeps_do_sys)

lemma calm_fail:
  "triple (calm_with s0 t) (fail_with E ec message)
     (\<lambda>n s. calm_with s0 t s \<and> n = Some (ReadyState (Some (ec, message)))) (\<lambda>_. calm_with s0 t)"
  unfolding fail_with_def ready_error_def thenM_def
  by (intro triple_bind [OF triple_bind [OF calm_notify]] triple_return) auto

lemma keeps_creds_save: "keeps (\<lambda>w. creds w = c) (saveImageURLToJson E url slot)"
proof -
  have "keeps (\<lambda>w. creds w = c) (loadJson E)"
    by (rule keepsI) (simp add: loadJson_def split: option.splits)
  moreover have "keeps (\<lambda>w. creds w = c) (publish_urls E a b)" for a b
    by (rule keepsI) (simp add: publish_urls_def then_do_sys modifyM_def split: option.splits)
  ultimately show ?thesis
    unfolding saveImageURLToJson_def writeJson_def loadImageURLFromJson_def sys_bool_def
    by (intro keeps_rules keeps_sys keeps_modify) simp_all
qed

lemma calm_socket_dir:
  "triple (calm_with s0 t) (liftW (prepare_socket_dir E dir)) (\<lambda>_. calm_with s0 t) (\<lambda>_. calm_with s0 t)"
  unfolding prepare_socket_dir_def fs_query_def
  by (intro calm_liftW at_most_steps at_most_sys keeps_rules keeps_sys) simp_all

section \<open>Shares that need credentials\<close>

definition needs_credentials :: "string \<Rightarrow> bool" where
  "needs_credentials url \<longleftrightarrow> isCifsUrl url \<or> isHttpsUrl url"

lemma needs_credentials_remote: "needs_credentials url \<Longrightarrow> \<not> isLocalFile url"
  by (cases url)
    (auto simp: needs_credentials_def isCifsUrl_def isHttpsUrl_def checkUrl_def isLocalFile_def starts_with_def)

text \<open>The outcome of a refusal: no next state but that of the error.\<close>

definition refused :: "st \<Rightarrow> target option \<times> bstate \<Rightarrow> bstate option \<Rightarrow> st \<Rightarrow> bool" where
  "refused s0 t n s \<longleftrightarrow> calm_with s0 t s \<and> (\<exists>ec message. n = Some (ReadyState (Some (ec, message))))"

lemma refused_fail:
  "triple (calm_with s0 t) (fail_with E ec message) (refused s0 t) (\<lambda>_. calm_with s0 t)"
  by (rule triple_weaken [OF calm_fail]) (auto simp: refused_def)

lemma refused_target:
  "triple (calm_with s0 (Some t, b)) (f t) Q X \<Longrightarrow> triple (calm_with s0 (Some t, b)) (the_target f) Q X"
  unfolding the_target_def getMC_def
  by (rule triple_get) (rule triple_option; auto simp: calm_with_def triple_def)

lemma refused_url:
  assumes "needs_credentials (imgUrl t)" and "lacks_credentials t"
  shows "triple (calm_with s0 (Some t, b)) (activate_url E n) (refused s0 (Some t, b)) (\<lambda>_. calm_with s0 (Some t, b))"
proof -
  have "triple (calm_with s0 (Some t, b)) (fail_with E ECONNREFUSED missing_credentials) (refused s0 (Some t, b))
      (\<lambda>_. calm_with s0 (Some t, b))" by (rule refused_fail)
  then show ?thesis
    unfolding activate_url_def getMC_def
    using assms needs_credentials_remote [OF assms(1)]
    by (intro refused_target triple_get) (auto simp: needs_credentials_def split: option.splits
        intro: triple_pre)
qed

lemma refused_legacy:
  assumes "needs_credentials (imgUrl t)" and "lacks_credentials t"
  shows "triple (calm_with s0 (Some t, b)) (activateLegacyMode E) (refused s0 (Some t, b)) (\<lambda>_. calm_with s0 (Some t, b))"
  unfolding activateLegacyMode_def getMC_def
  by (intro refused_target triple_get triple_then [where R = "calm_with s0 (Some t, b)"]
      triple_bind [where R = "\<lambda>_. calm_with s0 (Some t, b)"] triple_option triple_if triple_liftE
      triple_pre [OF refused_fail] triple_pre [OF refused_url [OF assms]]
      triple_pre [OF calm_socket_dir] triple_pre [OF calm_liftW] at_most_saveImageURL keeps_creds_save)
    (auto split: prod.splits intro: refused_fail)

lemma refused_onEnter:
  assumes "needs_credentials (imgUrl t)" and "lacks_credentials t" and "mp_mode (config (mc s0)) \<noteq> proxy"
  shows "triple (calm_with s0 (Some t, b)) (activating_onEnter E) (refused s0 (Some t, b)) (\<lambda>_. calm_with s0 (Some t, b))"
proof -
  have "triple (\<lambda>s. calm_with s0 (Some t, b) s \<and> config (mc s) = c) (activateProxyMode E) Q X" if "mp_mode c = proxy" for c Q X
    using assms(3) that by (auto simp: triple_def calm_with_def calm_def)
  then show ?thesis
    unfolding activating_onEnter_def getMC_def
    by (intro triple_then [OF calm_set] triple_get triple_if triple_pre [OF refused_legacy [OF assms(1,2)]]) auto
qed

section \<open>The request\<close>

definition without_credentials :: "(string \<times> nat) option \<Rightarrow> bool" where
  "without_credentials secret =
     (case secret of
        None \<Rightarrow> True
      | Some (buf, n) \<Rightarrow>
          (case parse_secret buf n of Inl e \<Rightarrow> True | Inr (user, pass) \<Rightarrow> user = '''' \<or> pass = ''''))"

lemma calm_destroy_mount:
  "triple (calm_with s0 x) (destroy_mount E d) (\<lambda>_. calm_with s0 x) (\<lambda>_. calm_with s0 x)"
  unfolding destroy_mount_def mount_destroy_def directory_destroy_def
  by (intro triple_option triple_return calm_liftW at_most_steps at_most_do_sys keeps_rules keeps_do_sys) simp_all

lemma calm_clear_target:
  "triple (calm_with s0 (t, b)) (clear_target E) (\<lambda>_. calm_with s0 (None, b)) (\<lambda>_. calm s0)"
proof -
  have weak: "triple (calm_with s0 x) (destroy_mount E d) (\<lambda>_. calm_with s0 x) (\<lambda>_. calm s0)" for x d
    by (rule triple_weaken [OF calm_destroy_mount]) (auto simp: calm_with_def)
  have drop: "triple (\<lambda>s. calm_with s0 (t, b) s \<and> target (mc s) = u) (modifyMC (\<lambda>m. m\<lparr>target := None\<rparr>))
      (\<lambda>_. calm_with s0 (None, b)) (\<lambda>_. calm s0)" for u
    unfolding modifyMC_def by (rule triple_modify) (simp add: calm_with_def calm_def)
  show ?thesis
    unfolding clear_target_def getMC_def
    by (intro triple_get triple_then [OF drop] triple_option triple_return triple_then [OF weak] weak)
qed

lemma calm_set_state:
  "triple (calm_with s0 (t, b)) (set_state b') (\<lambda>_. calm_with s0 (t, b')) X"
  unfolding set_state_def modifyMC_def by (rule triple_modify) (simp add: calm_with_def calm_def)

lemma calm_destroy_state:
  "old = ReadyState e \<or> old = ActivatingState None None \<Longrightarrow> triple P (destroy_state E old) (\<lambda>_. P) X"
  by (auto simp: destroy_state_def destroy_gadget_def destroy_process_def whenM_def thenM_def
      triple_def returnM_def)

lemma calm_change:
  assumes "old = ReadyState e \<or> old = ActivatingState None None"
    and "triple (calm_with s0 (t, new)) (onEnter E) R X"
    and "\<And>n. triple (R n) (case n of None \<Rightarrow> returnM () | Some s \<Rightarrow> changeState E fuel s) Q X"
  shows "triple (calm_with s0 (t, old)) (changeState E (Suc fuel) new) Q X"
proof (rule triple_cong)
  show "triple (calm_with s0 (t, old))
      (thenM (set_state new) (thenM (destroy_state E old) (bindM (onEnter E)
        (\<lambda>next. case next of None \<Rightarrow> returnM () | Some s \<Rightarrow> changeState E fuel s)))) Q X"
    by (intro triple_then [OF calm_set_state] triple_then [OF calm_destroy_state [OF assms(1)]]
        triple_bind [OF assms(2)] assms(3))
qed (simp add: calm_with_def getMC_def)

lemma calm_enter_ready:
  "triple (calm_with s0 (t, ActivatingState None None)) (changeState E 1 (ReadyState e))
     (\<lambda>_. calm_with s0 (None, ReadyState e)) (\<lambda>_. calm s0)"
proof -
  let ?r = "ReadyState e"
  have clear: "triple (calm_with s0 (None, ?r))
      (modifyMC (\<lambda>m. m\<lparr>config := (config m)\<lparr>remainingInactivityTimeout := Some 0\<rparr>\<rparr>))
      (\<lambda>_. calm_with s0 (None, ?r)) (\<lambda>_. calm s0)"
    unfolding modifyMC_def by (rule triple_modify) (simp add: calm_with_def calm_def)
  have "triple (calm_with s0 (t, ?r)) (ready_onEnter E) (\<lambda>n s. calm_with s0 (None, ?r) s \<and> n = None) (\<lambda>_. calm s0)"
    unfolding ready_onEnter_def
    by (intro triple_then [OF calm_clear_target] triple_then [OF clear] triple_return) simp
  then have "triple (calm_with s0 (t, ?r)) (onEnter E) (\<lambda>n s. calm_with s0 (None, ?r) s \<and> n = None) (\<lambda>_. calm s0)"
    by (rule triple_cong) (simp add: onEnter_def getMC_def calm_with_def)
  then show ?thesis
    unfolding One_nat_def
    by (rule calm_change [rotated]) (auto simp: triple_def returnM_def split: option.splits)
qed

lemma calm_start:
  "triple (calm_with s0 x) notificationStart (\<lambda>_. calm_with s0 x) (\<lambda>_. calm s0)"
  by (auto simp: triple_def notificationStart_def getMC_def modifyMC_def modifyM_def throwM_def
      calm_with_def calm_def split: option.splits)

lemma calm_handle:
  "triple (calm_with s0 (t0, ReadyState e)) (handleEvent E (MountEvent (Some t)))
     (\<lambda>n s. calm_with s0 (Some t, ReadyState e) s \<and> n = Some (ActivatingState None None)) (\<lambda>_. calm s0)"
proof (rule triple_cong)
  have put: "triple (calm_with s0 (None, ReadyState e)) (modifyMC (\<lambda>m. m\<lparr>target := Some t\<rparr>))
      (\<lambda>_. calm_with s0 (Some t, ReadyState e)) (\<lambda>_. calm s0)"
    unfolding modifyMC_def by (rule triple_modify) (simp add: calm_with_def calm_def)
  show "triple (calm_with s0 (t0, ReadyState e)) (ready_handle E (MountEvent (Some t)))
      (\<lambda>n s. calm_with s0 (Some t, ReadyState e) s \<and> n = Some (ActivatingState None None)) (\<lambda>_. calm s0)"
    unfolding ready_handle_def event.case option.case set_target_def
    by (intro triple_then [OF calm_start] triple_then [OF triple_then [OF calm_clear_target put]] triple_return) simp
qed (simp add: handleEvent_def getMC_def calm_with_def)

definition refused_state :: "st \<Rightarrow> bool" where
  "refused_state s \<longleftrightarrow> (\<exists>ec message. mc_state (mc s) = ReadyState (Some (ec, message)))"

lemma calm_emit:
  assumes "needs_credentials (imgUrl t)" and "lacks_credentials t" and "mp_mode (config (mc s0)) \<noteq> proxy"
  shows "triple (calm_with s0 (t0, ReadyState e)) (emitEvent E (MountEvent (Some t)))
    (\<lambda>_ s. calm s0 s \<and> refused_state s) (\<lambda>_. calm s0)"
proof -
  let ?a = "ActivatingState None None"
  have "triple (calm_with s0 (Some t, ?a)) (onEnter E) (refused s0 (Some t, ?a)) (\<lambda>_. calm_with s0 (Some t, ?a))"
    by (rule triple_cong [OF refused_onEnter [OF assms]]) (simp add: onEnter_def getMC_def calm_with_def)
  then have enter: "triple (calm_with s0 (Some t, ?a)) (onEnter E) (refused s0 (Some t, ?a)) (\<lambda>_. calm s0)"
    by (rule triple_weaken) (auto simp: calm_with_def)
  have again: "triple (calm_with s0 (Some t, ?a)) (changeState E 1 (ReadyState (Some (ec, message))))
      (\<lambda>_ s. calm s0 s \<and> refused_state s) (\<lambda>_. calm s0)" for ec message
    by (rule triple_weaken [OF calm_enter_ready]) (auto simp: calm_with_def refused_state_def)
  have "triple (refused s0 (Some t, ?a) n)
      (case n of None \<Rightarrow> returnM () | Some s \<Rightarrow> changeState E 1 s) (\<lambda>_ s. calm s0 s \<and> refused_state s) (\<lambda>_. calm s0)" for n
  proof (cases "\<exists>ec message. n = Some (ReadyState (Some (ec, message)))")
    case True
    then obtain ec message where "n = Some (ReadyState (Some (ec, message)))" by blast
    then show ?thesis by (simp only: option.case) (rule triple_pre [OF again], simp add: refused_def)
  next
    case False
    then show ?thesis by (simp add: refused_def triple_def)
  qed
  from calm_change [OF disjI1 [OF refl] enter this]
  have "triple (calm_with s0 (Some t, ReadyState e)) (changeState E 2 ?a)
      (\<lambda>_ s. calm s0 s \<and> refused_state s) (\<lambda>_. calm s0)" by (simp add: numeral_2_eq_2)
  then show ?thesis
    unfolding emitEvent_def
    by (intro triple_bind [OF calm_handle] triple_option) (auto simp: triple_def)
qed

text \<open>
  C10. A request for a CIFS or HTTPS share that does not come with both a user name and a password starts
  nothing: whatever the system answers, and whether or not the request fails on the way, no process is
  spawned, nothing is mounted, no credentials are kept, written to a pipe or to a file; and when the
  request returns, the slot is ready again with an error.
\<close>

theorem credentials_required:
  assumes "mc_state (mc s) = ReadyState e" and "mp_mode (config (mc s)) \<noteq> proxy"
    and "needs_credentials url" and "without_credentials secret"
    and "loop_step E limit (LegacyMount url rw secret info) s = (r, s')"
  shows "(\<exists>new. hist (wd s') = new @ hist (wd s) \<and> tally launches new = 0) \<and> creds (wd s') = creds (wd s) \<and>
    children (mc s') = children (mc s) \<and>
    (r = Inr () \<longrightarrow> (\<exists>ec message. mc_state (mc s') = ReadyState (Some (ec, message))))"
proof -
  let ?x = "(target (mc s), ReadyState e)"
  let ?Q = "\<lambda>_::unit. \<lambda>s'. calm s s' \<and> refused_state s'"
  have lacks: "lacks_credentials (make_target url rw (Some (make_credentials user pass)))"
    if "secret = Some (buf, n)" "parse_secret buf n = Inr (user, pass)" for buf n user pass
    using assms(4) that
    by (auto simp: without_credentials_def lacks_credentials_def make_target_def make_credentials_def)
  have emit: "triple (calm_with s ?x) (emitEvent E (MountEvent (Some (make_target url rw cr)))) ?Q (\<lambda>_. calm s)"
    if "lacks_credentials (make_target url rw cr)" for cr
    by (rule calm_emit) (use assms(2,3) that in \<open>simp_all add: make_target_def\<close>)
  let ?cr = "case secret of None \<Rightarrow> Inr None | Some (buf, n) \<Rightarrow>
      (case parse_secret buf n of Inl e \<Rightarrow> Inl e | Inr (user, pass) \<Rightarrow> Inr (Some (make_credentials user pass)))"
  have cr: "lacks_credentials (make_target url rw c)" if "?cr = Inr c" for c
    using that lacks by (auto simp: lacks_credentials_def make_target_def split: option.splits sum.splits prod.splits)
  have keep: "triple (calm_with s ?x) (whenM b (modifyMC (\<lambda>m. m\<lparr>additionalInfo := info\<rparr>))) (\<lambda>_. calm_with s ?x)
      (\<lambda>_. calm s)" for b
    by (intro triple_when calm_set) simp_all
  have read: "triple (calm_with s ?x) (liftE ?cr)
      (\<lambda>c s'. calm_with s ?x s' \<and> lacks_credentials (make_target url rw c)) (\<lambda>_. calm s)"
    by (rule triple_liftE) (auto simp: calm_with_def cr)
  have emit': "triple (\<lambda>s'. calm_with s ?x s' \<and> lacks_credentials (make_target url rw c))
      (emitEvent E (MountEvent (Some (make_target url rw c)))) ?Q (\<lambda>_. calm s)" for c
    using emit [of c] by (cases "lacks_credentials (make_target url rw c)") (simp_all add: triple_def)
  have "triple (calm_with s ?x) (legacyMount E url rw secret info) (\<lambda>_. ?Q ()) (\<lambda>_. calm s)"
    unfolding legacyMount_def getMC_def setAdditionalInfo_def
    by (intro triple_get triple_pre [OF triple_then [OF keep triple_bind [OF read]]]
        triple_then [OF emit'] triple_return) simp_all
  then have "triple (calm_with s ?x) (loop_step E limit (LegacyMount url rw secret info)) ?Q (\<lambda>_. calm s)"
    unfolding loop_step_def loop_op.case by (intro triple_then [where R = "?Q ()"] triple_return) simp_all
  moreover have "calm_with s ?x s" using assms(1) by (simp add: calm_with_def calm_refl)
  ultimately have "case r of Inr a \<Rightarrow> ?Q a s' | Inl e \<Rightarrow> calm s s'"
    using assms(5) by (auto simp: triple_def)
  then show ?thesis by (auto simp: calm_def refused_state_def split: sum.splits)
qed

definition sample_slot :: st where
  "sample_slot =
     \<lparr>mc = (make_machine ''Slot_2'' (sample_mount_point\<lparr>mp_mode := legacy\<rparr>))\<lparr>mc_state := ReadyState None\<rparr>,
      wd = initial_world None\<rparr>"

theorem credentials_required_witness:
  "\<exists>r s'. loop_step quiet_env 0 (LegacyMount ''smb://server/share/a.iso'' True None ''session_3'') sample_slot = (r, s') \<and>
     tally launches (hist (wd s')) = 0 \<and> creds (wd s') = [None, None] \<and> children (mc s') = []"
proof -
  let ?op = "LegacyMount ''smb://server/share/a.iso'' True None ''session_3''"
  obtain r s' where run: "loop_step quiet_env 0 ?op sample_slot = (r, s')" by fastforce
  have start: "mc_state (mc sample_slot) = ReadyState None" "mp_mode (config (mc sample_slot)) \<noteq> proxy"
    by (simp_all add: sample_slot_def sample_mount_point_def make_machine_def)
  have share: "needs_credentials ''smb://server/share/a.iso''"
    by (simp add: needs_credentials_def isCifsUrl_def checkUrl_def)
  from credentials_required [OF start share _ run] run show ?thesis
    by (auto simp: without_credentials_def sample_slot_def initial_world_def make_machine_def)
qed

end
