(* ===== verification/Reconnect.thy ===== *)
theory Reconnect
  imports SlotTools
begin

text \<open>
  The reconnection of remote media (\<^verbatim>\<open>src/system.hpp\<close>): probing a mounted directory with a bound on
  the time, the loop of mount attempts, the thread that unmounts and retries, and the thread that
  watches a mounted share. A thread is a program of its own on the shared \<open>world\<close>.
\<close>

section \<open>Probing a directory\<close>

text \<open>
  The answer to \<open>Statfs\<close> is the flag \<^verbatim>\<open>isStatfsDone\<close> as the probing thread has left it at that
  moment: 0 while \<^verbatim>\<open>statfs\<close> has not returned, negative when it failed. A flag that is set between
  the last round and the check after the loop leaves a joinable thread to its destructor, which is
  \<^verbatim>\<open>std::terminate\<close>.
\<close>

definition statfs_flag :: "env \<Rightarrow> string \<Rightarrow> int wprog" where
  "statfs_flag E path = bindM (sys E (Statfs path)) (\<lambda>r. returnM (sgn r))"

fun isMountedPathAccessible :: "env \<Rightarrow> string \<Rightarrow> nat \<Rightarrow> int wprog" where
  "isMountedPathAccessible E path 0 =
     bindM (statfs_flag E path) (\<lambda>isStatfsDone.
       if isStatfsDone = 0 then returnM 0 else throwM Terminate)"
| "isMountedPathAccessible E path (Suc n) =
     bindM (statfs_flag E path) (\<lambda>isStatfsDone.
       if isStatfsDone \<noteq> 0 then returnM isStatfsDone
       else thenM (do_sys E (Sleep 1)) (isMountedPathAccessible E path n))"

section \<open>Mounting again\<close>

definition slot_creds :: "world \<Rightarrow> int \<Rightarrow> slot_credentials option" where
  "slot_creds w n = creds w ! nat n"

definition set_slot_creds :: "int \<Rightarrow> slot_credentials option \<Rightarrow> unit wprog" where
  "set_slot_creds n c =
     (if n < 0 then throwM (UB ''index of creds out of range'')
      else modifyM (\<lambda>w. w\<lparr>creds := (creds w)[nat n := c]\<rparr>))"

definition with_slot_creds :: "int \<Rightarrow> (slot_credentials \<Rightarrow> 'a wprog) \<Rightarrow> 'a wprog" where
  "with_slot_creds n f =
     bindM (getM (\<lambda>w. slot_creds w n))
       (\<lambda>c. case c of None \<Rightarrow> throwM (UB ''creds is null'') | Some c \<Rightarrow> f c)"

text \<open>The ten rounds that wait for the mount to be seen.\<close>

fun await_mount :: "env \<Rightarrow> string \<Rightarrow> string \<Rightarrow> nat \<Rightarrow> bool wprog" where
  "await_mount E objpath imageName 0 = returnM False"
| "await_mount E objpath imageName (Suc n) =
     bindM (getActiveStatus E objpath) (\<lambda>active.
     bindM (if active then returnM True else isFileAccessible E imageName) (\<lambda>seen.
       if seen then returnM True
       else thenM (do_sys E (Sleep 1)) (await_mount E objpath imageName n)))"

text \<open>The \<^verbatim>\<open>try\<close> of one attempt: \<open>True\<close> when the function is to return.\<close>

definition mount_attempt ::
    "env \<Rightarrow> string \<Rightarrow> string \<Rightarrow> string \<Rightarrow> int \<Rightarrow> nat \<Rightarrow> bool wprog" where
  "mount_attempt E objpath interface imageName slotNumber retryDelay =
     bindM (getActiveStatus E objpath) (\<lambda>active.
       if active then returnM True
       else thenM (do_sys E (Sleep retryDelay))
         (with_slot_creds slotNumber (\<lambda>c.
            bindM (sys E (ReleaseFd (nat slotNumber))) (\<lambda>fd.
            thenM (dbus_call E ''xyz.openbmc_project.VirtualMedia'' objpath interface ''Mount''
                [ArgStr (sc_url c), ArgBool (sc_rw c),
                 if find_str ''nfs://'' (sc_url c) \<noteq> Some 0 then ArgFd fd else ArgInt (-1),
                 ArgStr (sc_additionalInfo c)])
              (await_mount E objpath imageName 10)))))"

text \<open>
  The loop of attempts, \<^verbatim>\<open>for (unsigned attempt = 1; attempt <= maxRetries; ++attempt)\<close>: the handlers catch
  every exception of an attempt, which then counts as failed. \<open>Some True\<close> is a return from inside the loop,
  \<open>Some False\<close> its end. The counter wraps around, so that the loop need not end; \<open>fuel\<close> is a number of
  tests of its condition, and \<open>None\<close> says that it is still running after them.
\<close>

definition attempt_handler :: "exn \<Rightarrow> bool wprog" where
  "attempt_handler e = (case e of UB m \<Rightarrow> throwM (UB m) | _ \<Rightarrow> returnM False)"

fun retry_attempts ::
    "env \<Rightarrow> string \<Rightarrow> string \<Rightarrow> string \<Rightarrow> int \<Rightarrow> nat \<Rightarrow> 32 word \<Rightarrow> nat \<Rightarrow> 32 word \<Rightarrow> bool option wprog" where
  "retry_attempts E objpath interface imageName slotNumber retryDelay maxRetries 0 attempt = returnM None"
| "retry_attempts E objpath interface imageName slotNumber retryDelay maxRetries (Suc fuel) attempt =
     (if attempt \<le> maxRetries
      then bindM (catchM (mount_attempt E objpath interface imageName slotNumber retryDelay) attempt_handler)
             (\<lambda>ended.
                if ended then returnM (Some True)
                else retry_attempts E objpath interface imageName slotNumber retryDelay maxRetries fuel (attempt + 1))
      else returnM (Some False))"

definition legacy_object :: "world \<Rightarrow> string \<Rightarrow> string" where
  "legacy_object w slot =
     ''/xyz/openbmc_project/'' @ snd (getServiceAndBasePath w) @ ''/Legacy/'' @ slot"

text \<open>The name of the image in the mount directory: what follows the last separator of the URL.\<close>

definition url_file :: "string \<Rightarrow> string" where
  "url_file url =
     (case find_last_of path_separators url of Some i \<Rightarrow> drop (i + 1) url | None \<Rightarrow> url)"

definition retryMount :: "env \<Rightarrow> nat \<Rightarrow> string \<Rightarrow> 32 word \<Rightarrow> nat \<Rightarrow> bool option wprog" where
  "retryMount E fuel localMountPath maxRetries retryDelay =
     bindM (liftE (extractSlotNumber localMountPath)) (\<lambda>slotNumber.
       if slotNumber < 0 then returnM (Some False)
       else
         bindM (getM (\<lambda>w. slot_creds w slotNumber)) (\<lambda>c.
         bindM (case c of
                  None \<Rightarrow> returnM (Some False)
                | Some c \<Rightarrow>
                    bindM (getM (\<lambda>w. legacy_object w localMountPath)) (\<lambda>objpath.
                    bindM (getM (getMountDirPrefix E)) (\<lambda>prefix.
                      retry_attempts E objpath ''xyz.openbmc_project.VirtualMedia.Legacy''
                        (prefix @ localMountPath @ ''/'' @ url_file (sc_url c))
                        slotNumber retryDelay maxRetries fuel 1))) (\<lambda>ended.
           case ended of
             None \<Rightarrow> returnM None
           | Some True \<Rightarrow> returnM (Some False)
           | Some False \<Rightarrow> thenM (set_slot_creds slotNumber None) (returnM (Some False)))))"

section \<open>Unmounting and retrying\<close>

definition set_retry_created :: "string \<Rightarrow> bool \<Rightarrow> unit wprog" where
  "set_retry_created slot b = modifyM (\<lambda>w. w\<lparr>retryThreadCreated := (retryThreadCreated w)(slot := b)\<rparr>)"

text \<open>Retrying one slot, and going on with \<open>go_on\<close> once that has ended.\<close>

definition retry_slot :: "env \<Rightarrow> nat \<Rightarrow> 32 word \<Rightarrow> 32 word \<Rightarrow> string \<Rightarrow> bool wprog \<Rightarrow> bool wprog" where
  "retry_slot E fuel retryCount retryInterval slot go_on =
     bindM (retryMount E fuel slot retryCount (unat retryInterval)) (\<lambda>r.
       case r of None \<Rightarrow> returnM False | Some _ \<Rightarrow> thenM (set_retry_created slot False) go_on)"

text \<open>\<open>True\<close>: the function has returned; \<open>False\<close>: it is still in a loop of attempts.\<close>

definition handleUnmountAndRetry :: "env \<Rightarrow> nat \<Rightarrow> string \<Rightarrow> int \<Rightarrow> bool wprog" where
  "handleUnmountAndRetry E fuel path slotNumber =
     bindM (getM (\<lambda>w. ask_retry E (hist w))) (\<lambda>(retryCount, retryInterval).
     thenM (dbus_call E ''xyz.openbmc_project.VirtualMedia'' ''/xyz/openbmc_project/VirtualMedia''
              ''xyz.openbmc_project.VirtualMedia.Reconnect'' ''GetAll'' [])
     (bindM (getM isSamePath) (\<lambda>ret.
        if ret = 1
        then thenM (forM [''Slot_2'', ''Slot_3''] (\<lambda>slot.
                thenM (unMount E slot) (do_sys E (Sleep 10))))
              (retry_slot E fuel retryCount retryInterval ''Slot_2''
                 (retry_slot E fuel retryCount retryInterval ''Slot_3'' (returnM True)))
        else thenM (unMount E path)
              (thenM (do_sys E (Sleep 5))
                 (retry_slot E fuel retryCount retryInterval path (returnM True))))))"

text \<open>An exception that leaves the function of a thread ends the process.\<close>

definition thread :: "'a wprog \<Rightarrow> 'a wprog" where
  "thread m = noexceptM m"

section \<open>Watching a share\<close>

text \<open>One round of \<^verbatim>\<open>mountMonitorThread\<close>: \<open>None\<close> ends the loop, \<open>Some\<close> has the next path, mount path and
  slot number.\<close>

type_synonym monitor_state = "string \<times> string \<times> int"

definition monitor_switch :: "env \<Rightarrow> monitor_state \<Rightarrow> world \<Rightarrow> exn + monitor_state" where
  "monitor_switch E = (\<lambda>(path, mountPath, slotNumber) w.
     if slotNumber = 0
     then map_sum id (\<lambda>n. (''Slot_3'', getMountDirPrefix E w @ ''Slot_3'', n)) (extractSlotNumber ''Slot_3'')
     else if slotNumber = 1
     then map_sum id (\<lambda>n. (''Slot_2'', getMountDirPrefix E w @ ''Slot_2'', n)) (extractSlotNumber ''Slot_2'')
     else Inr (path, mountPath, slotNumber))"

definition monitor_react :: "env \<Rightarrow> monitor_state \<Rightarrow> int \<Rightarrow> monitor_state option wprog" where
  "monitor_react E = (\<lambda>(path, mountPath, slotNumber) result.
     bindM (getM (\<lambda>w. retryThreadCreated w path)) (\<lambda>created.
     bindM (getM isSamePath) (\<lambda>same.
       if result = 0
       then thenM
          (whenM (\<not> created)
             (thenM (do_sys E (StartThread ''handleUnmountAndRetry'' path))
             (thenM (if same = 1
                     then thenM (set_retry_created ''Slot_2'' True) (set_retry_created ''Slot_3'' True)
                     else set_retry_created path True)
                (modifyM (\<lambda>w. w\<lparr>is_reconnecting := True\<rparr>)))))
          (returnM None)
       else if result = -1 \<and> \<not> created
       then (if same = 1
             then bindM (\<lambda>w. (monitor_switch E (path, mountPath, slotNumber) w, w)) (\<lambda>(p, mp, n).
                    thenM (set_slot_creds n None) (returnM (Some (p, mp, n))))
             else thenM (set_slot_creds slotNumber None) (returnM None))
       else thenM (do_sys E (Sleep 5)) (returnM (Some (path, mountPath, slotNumber))))))"

definition monitor_step :: "env \<Rightarrow> monitor_state \<Rightarrow> monitor_state option wprog" where
  "monitor_step E s = bindM (isMountedPathAccessible E (fst (snd s)) 5) (monitor_react E s)"

text \<open>The loop has no bound of its own; \<open>fuel\<close> is a number of rounds, and \<open>None\<close> says that the
  thread is still watching after them.\<close>

fun monitor_rounds :: "env \<Rightarrow> nat \<Rightarrow> monitor_state \<Rightarrow> bool wprog" where
  "monitor_rounds E 0 s = returnM False"
| "monitor_rounds E (Suc fuel) s =
     bindM (monitor_step E s)
       (\<lambda>r. case r of None \<Rightarrow> returnM True | Some s' \<Rightarrow> monitor_rounds E fuel s')"

definition mountMonitorThread :: "env \<Rightarrow> nat \<Rightarrow> string \<Rightarrow> bool wprog" where
  "mountMonitorThread E fuel path =
     bindM (liftE (extractSlotNumber path)) (\<lambda>slotNumber.
     bindM (getM (getMountDirPrefix E)) (\<lambda>prefix.
       monitor_rounds E fuel (path, prefix @ path, slotNumber)))"

section \<open>What a probe reports\<close>

definition probe_flags :: "hist \<Rightarrow> int list" where
  "probe_flags h = concat (map (\<lambda>x. case x of (Statfs _, r) \<Rightarrow> [sgn r] | _ \<Rightarrow> []) (rev h))"

lemma probe_flags_simps [simp]:
  "probe_flags [] = []"
  "probe_flags (a @ b) = probe_flags b @ probe_flags a"
  "probe_flags ((Statfs p, r) # h) = probe_flags h @ [sgn r]"
  "probe_flags ((Sleep n, r) # h) = probe_flags h"
  by (simp_all add: probe_flags_def)

text \<open>
  C31. A probe of a mounted directory alternates looks and pauses of one second: \<open>k\<close> looks that saw nothing,
  each with its pause, and one more, so that it takes \<open>k\<close> seconds, at most its bound. It reports the first
  flag that is not 0 if a look within the bound sees one; it reports 0 (not accessible in time) only after
  all its seconds, when every look saw 0; and it brings the process down exactly when the flag is set
  between the last pause and the look after it.
\<close>

theorem probe_result:
  assumes "isMountedPathAccessible E path n w = (r, w')"
  shows "\<exists>new k v. hist w' = new @ hist w \<and>
     map fst (rev new) = concat (replicate k [Statfs path, Sleep 1]) @ [Statfs path] \<and>
     probe_flags new = replicate k 0 @ [v] \<and>
     (k < n \<and> v \<noteq> 0 \<and> r = Inr v \<or> k = n \<and> v = 0 \<and> r = Inr 0 \<or> k = n \<and> v \<noteq> 0 \<and> r = Inl Terminate)"
  using assms
proof (induction n arbitrary: w)
  case 0
  let ?v = "ask E (hist w) (Statfs path)"
  from 0 show ?case
    by (intro exI [of _ "[(Statfs path, ?v)]"] exI [of _ 0] exI [of _ "sgn ?v"])
      (auto simp: statfs_flag_def bindM_assoc bind_sys throwM_def returnM_def split: if_splits)
next
  case (Suc n)
  let ?c = "Statfs path"
  let ?w = "w\<lparr>hist := (?c, ask E (hist w) ?c) # hist w\<rparr>"
  let ?v = "ask E (hist w) ?c"
  show ?case
  proof (cases "?v = 0")
    case False
    with Suc.prems have "w' = ?w \<and> r = Inr (sgn ?v)"
      by (auto simp: statfs_flag_def bindM_assoc bind_sys returnM_def sgn_0_0)
    with False show ?thesis
      by (intro exI [of _ "[(?c, ?v)]"] exI [of _ 0] exI [of _ "sgn ?v"]) (simp add: sgn_0_0)
  next
    case True
    let ?s = "Sleep 1"
    let ?w2 = "?w\<lparr>hist := (?s, ask E (hist ?w) ?s) # hist ?w\<rparr>"
    from True Suc.prems have "isMountedPathAccessible E path n ?w2 = (r, w')"
      by (simp add: statfs_flag_def bindM_assoc bind_sys then_do_sys)
    from Suc.IH [OF this] obtain new k v where new: "hist w' = new @ hist ?w2"
      "map fst (rev new) = concat (replicate k [?c, ?s]) @ [?c]" "probe_flags new = replicate k 0 @ [v]"
      "k < n \<and> v \<noteq> 0 \<and> r = Inr v \<or> k = n \<and> v = 0 \<and> r = Inr 0 \<or> k = n \<and> v \<noteq> 0 \<and> r = Inl Terminate"
      by blast
    let ?new = "new @ [(?s, ask E (hist ?w) ?s)] @ [(?c, ?v)]"
    have "probe_flags ?new = 0 # probe_flags new" using True by simp
    with new show ?thesis
      by (intro exI [of _ ?new] exI [of _ "Suc k"] exI [of _ v]) simp
  qed
qed

theorem probe_result_witness:
  "\<exists>new. hist (snd (isMountedPathAccessible quiet_env ''/tmp/Slot_2'' 2 (initial_world None))) = new @ [] \<and>
     map fst (rev new) = [Statfs ''/tmp/Slot_2'', Sleep 1, Statfs ''/tmp/Slot_2'', Sleep 1, Statfs ''/tmp/Slot_2'']"
proof -
  let ?m = "isMountedPathAccessible quiet_env ''/tmp/Slot_2'' 2 (initial_world None)"
  have "fst ?m = Inr 0"
    by (simp add: numeral_2_eq_2 statfs_flag_def bindM_assoc bind_sys then_do_sys returnM_def quiet_env_def)
  then have "?m = (Inr 0, snd ?m)" by (cases ?m) simp
  from probe_result [OF this] show ?thesis
    by (auto simp: initial_world_def numeral_2_eq_2)
qed

section \<open>What a retry does\<close>

definition is_mount_request :: "call \<times> int \<Rightarrow> bool" where
  "is_mount_request x = (case x of (DbusCall _ _ _ m _, _) \<Rightarrow> m = ''Mount'' | _ \<Rightarrow> False)"

lemma at_most_getActiveStatus: "at_most is_mount_request 0 (getActiveStatus E ob)"
  unfolding getActiveStatus_def
  by (intro at_most_catch_none at_most_none at_most_dbus at_most_rules)
    (simp add: is_mount_request_def)

lemma at_most_isFileAccessible: "at_most is_mount_request 0 (isFileAccessible E p)"
  unfolding isFileAccessible_def fs_query_def
  by (intro at_most_none at_most_sys at_most_rules) (simp add: is_mount_request_def)

lemma at_most_await_mount: "at_most is_mount_request 0 (await_mount E ob f n)"
proof (induction n)
  case (Suc n)
  then show ?case
    unfolding await_mount.simps
    by (intro at_most_none at_most_then_none at_most_rules at_most_getActiveStatus
        at_most_isFileAccessible at_most_do_sys) (simp_all add: is_mount_request_def)
qed (simp add: at_most_return)

lemma at_most_with_slot_creds: "(\<And>c. at_most q n (f c)) \<Longrightarrow> at_most q n (with_slot_creds k f)"
  unfolding with_slot_creds_def
  by (intro at_most_none at_most_rules at_most_weaken [OF at_most_throw]) simp_all

lemma at_most_mount_attempt: "at_most is_mount_request 1 (mount_attempt E ob i f k d)"
proof -
  have call: "at_most is_mount_request 1
     (thenM (dbus_call E s ob i ''Mount'' as) (await_mount E ob f 10))" for s as
    using at_most_then [OF at_most_dbus at_most_await_mount] by simp
  have fd: "at_most is_mount_request 0 (sys E (ReleaseFd (nat k)))"
    by (rule at_most_sys) (simp add: is_mount_request_def)
  show ?thesis
    unfolding mount_attempt_def
    by (intro at_most_none [OF at_most_getActiveStatus] at_most_rules at_most_then_none at_most_do_sys
        at_most_with_slot_creds at_most_none [OF fd] call at_most_weaken [OF at_most_return])
      (simp_all add: is_mount_request_def)
qed

lemma at_most_handler: "at_most is_mount_request 0 (attempt_handler e)"
  by (cases e) (simp_all add: attempt_handler_def at_most_return at_most_throw)

text \<open>The counter of the loop, while it does not wrap around.\<close>

lemma unat_next_attempt:
  fixes a m :: "32 word"
  assumes "a \<le> m" and "m < - 1"
  shows "unat (a + 1) = Suc (unat a)" and "unat a \<le> unat m"
proof -
  from assms have "a < - 1" by (rule le_less_trans)
  then have "unat a < unat (- 1 :: 32 word)" by (simp add: word_less_nat_alt)
  then have "unat a < 2 ^ 32 - 1" by (simp add: unsigned_minus_1_eq_mask mask_eq_exp_minus_1)
  then show "unat (a + 1) = Suc (unat a)" by (simp add: unat_word_ariths)
  from assms(1) show "unat a \<le> unat m" by (simp add: word_le_nat_alt)
qed

lemma at_most_retry_attempts:
  "m < - 1 \<Longrightarrow> at_most is_mount_request (Suc (unat m) - unat a) (retry_attempts E ob i f k d m fuel a)"
proof (induction fuel arbitrary: a)
  case (Suc fuel)
  show ?case
  proof (cases "a \<le> m")
    case True
    note bound = unat_next_attempt [OF True Suc.prems]
    have "at_most is_mount_request (1 + (Suc (unat m) - unat (a + 1))) (retry_attempts E ob i f k d m (Suc fuel) a)"
      unfolding retry_attempts.simps if_P [OF True]
      by (intro at_most_bind at_most_catch_none at_most_mount_attempt at_most_handler at_most_if
          Suc.IH [OF Suc.prems] at_most_weaken [OF at_most_return]) simp
    with bound show ?thesis by (simp add: Suc_diff_le)
  next
    case False
    then show ?thesis by (simp add: at_most_weaken [OF at_most_return])
  qed
qed (simp add: at_most_weaken [OF at_most_return])

text \<open>Attempts leave the credentials alone, and while those are there they cannot fail in an
  uncontrolled way.\<close>

abbreviation same_creds :: "slot_credentials option list \<Rightarrow> world \<Rightarrow> bool" where
  "same_creds cs w \<equiv> creds w = cs"

lemma throws_getActiveStatus: "throws_only (same_creds cs) A (getActiveStatus E ob)"
  unfolding getActiveStatus_def dbus_call_def
  by (rule throws_catch [where B = "\<lambda>_. True"]; intro throws_rules throws_throw throws_sys) simp_all

lemma throws_isFileAccessible: "throws_only (same_creds cs) catchable (isFileAccessible E p)"
  unfolding isFileAccessible_def fs_query_def
  by (intro throws_rules throws_throw throws_sys) simp_all

lemma throws_await_mount: "throws_only (same_creds cs) catchable (await_mount E ob f n)"
proof (induction n)
  case (Suc n)
  then show ?case
    unfolding await_mount.simps
    by (intro throws_rules throws_getActiveStatus throws_isFileAccessible throws_do_sys) simp_all
qed (simp add: throws_return)

lemma throws_with_slot_creds:
  assumes "cs ! nat k \<noteq> None" and "\<And>c. throws_only (same_creds cs) A (f c)"
  shows "throws_only (same_creds cs) A (with_slot_creds k f)"
  using assms by (auto simp: throws_only_def with_slot_creds_def slot_creds_def)

lemma throws_mount_attempt:
  assumes "cs ! nat k \<noteq> None"
  shows "throws_only (same_creds cs) catchable (mount_attempt E ob i f k d)"
  unfolding mount_attempt_def dbus_call_def
  by (intro throws_rules throws_getActiveStatus throws_do_sys throws_with_slot_creds [OF assms]
      throws_sys throws_throw throws_await_mount) simp_all

lemma throws_retry_attempts:
  assumes "cs ! nat k \<noteq> None"
  shows "throws_only (same_creds cs) (\<lambda>_. False) (retry_attempts E ob i f k d m fuel a)"
proof (induction fuel arbitrary: a)
  case (Suc fuel)
  have "throws_only (same_creds cs) (\<lambda>_. False) (attempt_handler e)" if "catchable e" for e
    using that by (cases e) (simp_all add: attempt_handler_def throws_return)
  with Suc show ?case
    unfolding retry_attempts.simps
    by (intro throws_rules throws_catch [OF throws_mount_attempt [OF assms]]) auto
qed (simp add: throws_return)

text \<open>With as much fuel as there are tests of the condition the loop has ended.\<close>

lemma retry_attempts_ends:
  assumes "m < - 1" and "Suc (unat m) - unat a < fuel"
  shows "fst (retry_attempts E ob i f k d m fuel a w) \<noteq> Inr None"
  using assms(2)
proof (induction fuel arbitrary: a w)
  case (Suc fuel)
  let ?m = "catchM (mount_attempt E ob i f k d) attempt_handler"
  show ?case
  proof (cases "a \<le> m")
    case True
    note bound = unat_next_attempt [OF True assms(1)]
    with Suc.prems have "Suc (unat m) - unat (a + 1) < fuel" by simp
    then have rest: "fst (retry_attempts E ob i f k d m fuel (a + 1) w1) \<noteq> Inr None" for w1
      by (rule Suc.IH)
    obtain r w1 where "?m w = (r, w1)" by (cases "?m w")
    with rest [of w1] show ?thesis
      unfolding retry_attempts.simps if_P [OF True]
      by (cases r) (simp_all add: bindM_def returnM_def)
  qed (simp add: returnM_def)
qed simp

lemma retry_attempts_returns:
  assumes "creds w ! nat k = Some c" and "m < - 1" and "unat m < fuel"
  obtains b w1 new where "retry_attempts E ob i f k d m fuel 1 w = (Inr (Some b), w1)" and "creds w1 = creds w"
    and "hist w1 = new @ hist w" and "tally is_mount_request new \<le> unat m"
proof -
  obtain r w1 where m: "retry_attempts E ob i f k d m fuel 1 w = (r, w1)"
    by (cases "retry_attempts E ob i f k d m fuel 1 w")
  have t: "throws_only (same_creds (creds w)) (\<lambda>_. False) (retry_attempts E ob i f k d m fuel 1)"
    by (rule throws_retry_attempts) (simp add: assms)
  have "fst (retry_attempts E ob i f k d m fuel 1 w) \<noteq> Inr None"
    by (rule retry_attempts_ends [OF assms(2)]) (use assms(3) in simp)
  with m throws_onlyD [OF t] have "r \<noteq> Inr None" "\<nexists>e. r = Inl e" by auto
  then obtain b where b: "r = Inr (Some b)" by (cases r) auto
  have "creds w1 = creds w" by (rule keeps_result [OF throws_only_keeps [OF t] _ m]) simp
  moreover from at_mostD [OF at_most_retry_attempts [OF assms(2)] m] obtain new
    where "hist w1 = new @ hist w" "tally is_mount_request new \<le> unat m" by auto
  ultimately show thesis using m b by (intro that) simp_all
qed

text \<open>
  C32. Reconnecting a slot comes to an end and never brings the service down when \<^verbatim>\<open>RetryCount\<close> is less than
  the largest 32-bit number: the loop tests its condition at most one time more than that many, and with
  stored credentials it sends at most \<^verbatim>\<open>RetryCount\<close> mount requests; afterwards the credentials are either
  untouched or cleared for this slot alone; without stored credentials it sends none. The answer is
  \<^verbatim>\<open>false\<close> in every case, success included.
\<close>

theorem retryMount_bounded:
  assumes "extractSlotNumber slot = Inr n" and "0 \<le> n"
    and "maxRetries < - 1" and "unat maxRetries < fuel"
    and "retryMount E fuel slot maxRetries delay w = (r, w')"
  shows "r = Inr (Some False) \<and> (creds w' = creds w \<or> creds w' = (creds w)[nat n := None]) \<and>
     (\<exists>new. hist w' = new @ hist w \<and>
        tally is_mount_request new \<le> (if slot_creds w n = None then 0 else unat maxRetries))"
proof (cases "slot_creds w n")
  case None
  with assms show ?thesis
    by (auto simp: retryMount_def set_slot_creds_def thenM_def returnM_def bindM_def liftE_def getM_def
        modifyM_def)
next
  case (Some c)
  let ?m = "retry_attempts E (legacy_object w slot) ''xyz.openbmc_project.VirtualMedia.Legacy''
     (getMountDirPrefix E w @ slot @ ''/'' @ url_file (sc_url c)) n delay maxRetries fuel 1"
  from Some assms(3,4) obtain b w1 new where m: "?m w = (Inr (Some b), w1)" and w1: "creds w1 = creds w"
    "hist w1 = new @ hist w" "tally is_mount_request new \<le> unat maxRetries"
    by (elim retry_attempts_returns [unfolded slot_creds_def [symmetric], of w n c]) (simp_all add: slot_creds_def)
  from assms Some m have "r = Inr (Some False)" and
    "w' = (if b then w1 else w1\<lparr>creds := (creds w1)[nat n := None]\<rparr>)"
    by (auto simp: retryMount_def set_slot_creds_def thenM_def returnM_def bindM_def liftE_def getM_def
        modifyM_def split: if_splits bool.splits)
  with w1 Some show ?thesis by auto
qed

text \<open>
  With the largest 32-bit number, which \<^verbatim>\<open>RetryCount\<close> of the configuration may be, the condition of the loop
  is always true: as long as the calls fail it goes on for ever.
\<close>

lemma attempt_fails:
  assumes "\<And>h c. ask E h c < 0" and "creds w ! nat k = Some c"
  shows "\<exists>h. catchM (mount_attempt E ob i f k d) attempt_handler w = (Inr False, w\<lparr>hist := h\<rparr>)"
proof -
  have status: "\<exists>h. getActiveStatus E ob w = (Inr False, w\<lparr>hist := h\<rparr>)"
    using assms(1) by (auto simp: getActiveStatus_def dbus_call_def catchM_def bindM_assoc bind_sys throwM_def
        returnM_def intro: exI)
  then obtain h where "getActiveStatus E ob w = (Inr False, w\<lparr>hist := h\<rparr>)" by blast
  note first = bindM_Inr [of "getActiveStatus E ob", OF this]
  from assms show ?thesis
    by (auto simp: mount_attempt_def catchM_def attempt_handler_def first bind_do_sys with_slot_creds_def
        slot_creds_def bindM_assoc bind_sys dbus_call_def thenM_def throwM_def returnM_def)
qed

lemma retry_never_ends:
  assumes "\<And>h c. ask E h c < 0" and "creds w ! nat k = Some c"
  shows "fst (retry_attempts E ob i f k d (- 1) fuel a w) = Inr None"
  using assms(2)
proof (induction fuel arbitrary: a w)
  case (Suc fuel)
  from attempt_fails [OF assms(1) Suc.prems] obtain h where
    "catchM (mount_attempt E ob i f k d) attempt_handler w = (Inr False, w\<lparr>hist := h\<rparr>)" by blast
  with Suc show ?case by (simp add: bindM_def)
qed (simp add: returnM_def)

definition sample_creds :: slot_credentials where
  "sample_creds = \<lparr>sc_url = ''nfs://10.0.0.1/images/a.iso'', sc_rw = False,
     sc_additionalInfo = ''session_3'', sc_user = '''', sc_pass = ''''\<rparr>"

definition sample_creds_world :: world where
  "sample_creds_world = (initial_world None)\<lparr>creds := [Some sample_creds, None]\<rparr>"

theorem retryMount_bounded_witness:
  "fst (retryMount quiet_env 4 ''Slot_2'' 3 15 sample_creds_world) = Inr (Some False) \<and>
   (\<exists>new. hist (snd (retryMount quiet_env 4 ''Slot_2'' 3 15 sample_creds_world)) = new @ [] \<and>
     tally is_mount_request new \<le> 3)"
proof -
  let ?m = "retryMount quiet_env 4 ''Slot_2'' 3 15 sample_creds_world"
  have slot: "extractSlotNumber ''Slot_2'' = Inr 0" by code_simp
  have "?m = (fst ?m, snd ?m)" by simp
  from retryMount_bounded [OF slot _ _ _ this] show ?thesis
    by (simp add: sample_creds_world_def slot_creds_def initial_world_def)
qed

section \<open>What the watching thread does\<close>

text \<open>When both slots use one server and the watched directory goes away, the thread goes on with the
  other slot, whose credentials it clears at that moment: no retry for that slot can mount it again.\<close>

lemma monitor_switch_clears_next:
  assumes "isMountedPathAccessible E mountPath 5 w = (Inr (-1), w1)" and "isSamePath w1 = 1"
    and "\<not> retryThreadCreated w1 ''Slot_2''" and "length (creds w1) = 2"
    and "monitor_step E (''Slot_2'', mountPath, 0) w = (r, w')"
  shows "r = Inr (Some (''Slot_3'', getMountDirPrefix E w1 @ ''Slot_3'', 1)) \<and> slot_creds w' 1 = None"
proof -
  have slot: "extractSlotNumber ''Slot_3'' = Inr 1" by code_simp
  from assms(5) show ?thesis
    using assms(1-4) slot
    by (auto simp: monitor_step_def monitor_react_def bindM_def getM_def monitor_switch_def set_slot_creds_def thenM_def modifyM_def
        returnM_def slot_creds_def)
qed

text \<open>The retry thread has no handler of its own: a refused \<^verbatim>\<open>Unmount\<close> ends the process.\<close>

lemma unmount_failure_terminates:
  assumes "unMount E path w1 = (Inl (SdBusError e s), w2)" and "isSamePath w1 \<noteq> 1"
    and "dbus_call E ''xyz.openbmc_project.VirtualMedia'' ''/xyz/openbmc_project/VirtualMedia''
           ''xyz.openbmc_project.VirtualMedia.Reconnect'' ''GetAll'' [] w = (Inr a, w1)"
  shows "thread (handleUnmountAndRetry E fuel path n) w = (Inl Terminate, w2)"
  using assms
  by (simp add: thread_def noexceptM_def handleUnmountAndRetry_def catchM_def bindM_def thenM_def getM_def throwM_def
      split: prod.splits)

definition is_retry_start :: "call \<times> int \<Rightarrow> bool" where
  "is_retry_start x = (case x of (StartThread f _, _) \<Rightarrow> f = ''handleUnmountAndRetry'' | _ \<Rightarrow> False)"

lemma is_retry_start_simps [simp]:
  "is_retry_start (StartThread ''handleUnmountAndRetry'' p, r)"
  "\<not> is_retry_start (Statfs p, r)" "\<not> is_retry_start (Sleep n, r)"
  by (simp_all add: is_retry_start_def)

lemma probe_keeps:
  "\<exists>h. snd (isMountedPathAccessible E p n w) = w\<lparr>hist := h @ hist w\<rparr> \<and> tally is_retry_start h = 0"
proof (induction n arbitrary: w)
  case 0
  show ?case
    by (auto simp: statfs_flag_def bindM_assoc bind_sys throwM_def returnM_def
        intro!: exI [of _ "[x]" for x])
next
  case (Suc n)
  let ?w = "w\<lparr>hist := (Statfs p, ask E (hist w) (Statfs p)) # hist w\<rparr>"
  let ?w2 = "?w\<lparr>hist := (Sleep 1, ask E (hist ?w) (Sleep 1)) # hist ?w\<rparr>"
  show ?case
  proof (cases "ask E (hist w) (Statfs p) = 0")
    case True
    from Suc.IH [of ?w2] obtain h where
      h: "snd (isMountedPathAccessible E p n ?w2) = ?w2\<lparr>hist := h @ hist ?w2\<rparr>" "tally is_retry_start h = 0"
      by blast
    with True show ?thesis
      by (intro exI [of _ "h @ [(Sleep 1, ask E (hist ?w) (Sleep 1)), (Statfs p, ask E (hist w) (Statfs p))]"])
        (simp add: statfs_flag_def bindM_assoc bind_sys then_do_sys)
  next
    case False
    then show ?thesis
      by (auto simp: statfs_flag_def bindM_assoc bind_sys returnM_def sgn_0_0
          intro!: exI [of _ "[x]" for x])
  qed
qed

text \<open>What one round may leave: no retry started and the flags as they were, or one started by this
  thread, whose flag was clear and is now set.\<close>

definition started_now :: "world \<Rightarrow> monitor_state \<Rightarrow> world \<Rightarrow> bool" where
  "started_now w s w' \<longleftrightarrow>
     is_reconnecting w' \<and> \<not> retryThreadCreated w (fst s) \<and>
     (if isSamePath w' = 1 then retryThreadCreated w' ''Slot_2'' \<and> retryThreadCreated w' ''Slot_3''
      else retryThreadCreated w' (fst s))"

lemma isSamePath_update [simp]:
  "isSamePath (w\<lparr>hist := h\<rparr>) = isSamePath w"
  "isSamePath (w\<lparr>retryThreadCreated := f\<rparr>) = isSamePath w"
  "isSamePath (w\<lparr>is_reconnecting := b\<rparr>) = isSamePath w"
  by (simp_all add: isSamePath_def)

lemma monitor_react_start:
  assumes "monitor_react E s v w = (r, w')"
  shows "\<exists>new. hist w' = new @ hist w \<and>
     (tally is_retry_start new = 0 \<and> retryThreadCreated w' = retryThreadCreated w \<or>
      tally is_retry_start new = 1 \<and> r = Inr None \<and> started_now w s w')"
proof -
  obtain path mp n where s: "s = (path, mp, n)" by (cases s)
  note defs = monitor_react_def s thenM_def whenM_def set_retry_created_def set_slot_creds_def
    modifyM_def returnM_def throwM_def bindM_def getM_def do_sys_result
  consider (start) "v = 0" "\<not> retryThreadCreated w path" | (busy) "v = 0" "retryThreadCreated w path"
    | (gone) "v = -1" "\<not> retryThreadCreated w path" | (wait) "v \<noteq> 0" "\<not> (v = -1 \<and> \<not> retryThreadCreated w path)"
    by blast
  then show ?thesis
  proof cases
    case start
    let ?x = "(StartThread ''handleUnmountAndRetry'' path,
      ask E (hist w) (StartThread ''handleUnmountAndRetry'' path))"
    from start assms have "hist w' = [?x] @ hist w \<and> r = Inr None \<and> started_now w s w'"
      by (auto simp: defs started_now_def split: if_splits)
    then show ?thesis by (intro exI [of _ "[?x]"]) simp
  next
    case busy
    with assms show ?thesis by (auto simp: defs)
  next
    case gone
    with assms show ?thesis
      by (cases "monitor_switch E (path, mp, n) w") (auto simp: defs split: if_splits)
  next
    case wait
    with assms show ?thesis
      by (auto simp: defs split: if_splits intro!: exI [of _ "[x]" for x])
  qed
qed

lemma monitor_step_start:
  assumes "monitor_step E s w = (r, w')"
  shows "\<exists>new. hist w' = new @ hist w \<and>
     (tally is_retry_start new = 0 \<and> retryThreadCreated w' = retryThreadCreated w \<or>
      tally is_retry_start new = 1 \<and> r = Inr None \<and> started_now w s w')"
proof -
  let ?m = "isMountedPathAccessible E (fst (snd s)) 5"
  obtain v w1 where m: "?m w = (v, w1)" by (cases "?m w")
  with probe_keeps [of E "fst (snd s)" 5 w] obtain h where
    h: "w1 = w\<lparr>hist := h @ hist w\<rparr>" "tally is_retry_start h = 0" by auto
  show ?thesis
  proof (cases v)
    case (Inl e)
    with assms m h show ?thesis
      by (auto simp: monitor_step_def bindM_def intro!: exI [of _ h])
  next
    case (Inr result)
    with assms m have "monitor_react E s result w1 = (r, w')"
      by (simp add: monitor_step_def bindM_def)
    from monitor_react_start [OF this] h show ?thesis
      by (auto simp: started_now_def intro!: exI [of _ "x @ h" for x])
  qed
qed

lemma slot_numbers [simp]:
  "extractSlotNumber ''Slot_2'' = Inr 0"
  "extractSlotNumber ''Slot_3'' = Inr 1"
  by code_simp+

lemma monitor_react_path:
  assumes "monitor_react E s v w = (Inr (Some s'), w')" and "fst s \<in> {''Slot_2'', ''Slot_3''}"
  shows "fst s' \<in> {''Slot_2'', ''Slot_3''}"
proof -
  obtain path mp n where s: "s = (path, mp, n)" by (cases s)
  let ?b = "\<lambda>(p, mp, n). thenM (set_slot_creds n None) (returnM (Some (p, mp, n)))"
  have "\<exists>t. monitor_switch E (path, mp, n) w = Inr t \<and> fst t \<in> {''Slot_2'', ''Slot_3''}"
    using assms(2) by (auto simp: monitor_switch_def s)
  then obtain t where t: "monitor_switch E (path, mp, n) w = Inr t" "fst t \<in> {''Slot_2'', ''Slot_3''}"
    by blast
  from assms(1) consider "s' = s" | "fst s' = fst t"
    using t(1)
    by (cases t)
      (auto simp: monitor_react_def s thenM_def whenM_def set_retry_created_def set_slot_creds_def
        modifyM_def returnM_def throwM_def bindM_def getM_def do_sys_result split: if_splits)
  then show ?thesis using assms(2) t(2) by cases auto
qed

lemma monitor_step_path:
  assumes "monitor_step E s w = (Inr (Some s'), w')" and "fst s \<in> {''Slot_2'', ''Slot_3''}"
  shows "fst s' \<in> {''Slot_2'', ''Slot_3''}"
  using assms(1) unfolding monitor_step_def
  by (rule bindM_cases) (use monitor_react_path [OF _ assms(2)] in auto)

lemma monitor_rounds_start:
  "monitor_rounds E fuel s w = (r, w') \<Longrightarrow> fst s \<in> {''Slot_2'', ''Slot_3''} \<Longrightarrow>
   \<exists>new. hist w' = new @ hist w \<and>
     (tally is_retry_start new = 0 \<and> retryThreadCreated w' = retryThreadCreated w \<or>
      tally is_retry_start new = 1 \<and> r = Inr True \<and>
      (\<exists>s1 w1. fst s1 \<in> {''Slot_2'', ''Slot_3''} \<and>
         retryThreadCreated w1 = retryThreadCreated w \<and> started_now w1 s1 w'))"
proof (induction fuel arbitrary: s w)
  case 0
  then show ?case by (auto simp: returnM_def)
next
  case (Suc fuel)
  obtain v w1 where m: "monitor_step E s w = (v, w1)" by (cases "monitor_step E s w")
  from monitor_step_start [OF m] obtain h where h: "hist w1 = h @ hist w"
    and cases: "tally is_retry_start h = 0 \<and> retryThreadCreated w1 = retryThreadCreated w \<or>
      tally is_retry_start h = 1 \<and> v = Inr None \<and> started_now w s w1" by blast
  from Suc.prems have step: "bindM (monitor_step E s) (\<lambda>r. case r of None \<Rightarrow> returnM True
      | Some s' \<Rightarrow> monitor_rounds E fuel s') w = (r, w')" by simp
  show ?case
  proof (cases "\<exists>s'. v = Inr (Some s')")
    case True
    then obtain s' where v: "v = Inr (Some s')" by blast
    with step m have rest: "monitor_rounds E fuel s' w1 = (r, w')" by (simp add: bindM_def)
    have "fst s' \<in> {''Slot_2'', ''Slot_3''}"
      using monitor_step_path [OF m [unfolded v] Suc.prems(2)] .
    from Suc.IH [OF rest this] obtain new where "hist w' = new @ hist w1"
      and res: "tally is_retry_start new = 0 \<and> retryThreadCreated w' = retryThreadCreated w1 \<or>
        tally is_retry_start new = 1 \<and> r = Inr True \<and>
        (\<exists>s1 w2. fst s1 \<in> {''Slot_2'', ''Slot_3''} \<and>
           retryThreadCreated w2 = retryThreadCreated w1 \<and> started_now w2 s1 w')" by blast
    with h have "hist w' = (new @ h) @ hist w" by simp
    moreover from cases v have "tally is_retry_start h = 0" "retryThreadCreated w1 = retryThreadCreated w"
      by auto
    ultimately show ?thesis using res by (intro exI [of _ "new @ h"]) simp
  next
    case False
    with step m have "w' = w1 \<and> (r = Inr True \<or> (\<exists>e. v = Inl e))"
      by (cases v) (auto simp: bindM_def returnM_def split: option.splits)
    with h cases show ?thesis using step m Suc.prems(2)
      by (intro exI [of _ h]) (cases v; auto simp: bindM_def returnM_def simp del: split_paired_Ex)
  qed
qed

text \<open>
  C33. However long it watches, the thread that watches a slot starts at most one retry, and none when
  a retry is on record for both slots. When it starts one, it records that before it ends: for both
  slots when they are on one server, so that the thread of the other slot starts none.
\<close>

theorem retry_started_once:
  assumes "slot \<in> {''Slot_2'', ''Slot_3''}" and "mountMonitorThread E fuel slot w = (r, w')"
  shows "\<exists>new. hist w' = new @ hist w \<and> tally is_retry_start new \<le> 1 \<and>
     (retryThreadCreated w ''Slot_2'' \<and> retryThreadCreated w ''Slot_3'' \<longrightarrow> tally is_retry_start new = 0) \<and>
     (tally is_retry_start new = 1 \<longrightarrow> r = Inr True \<and> is_reconnecting w' \<and>
        (retryThreadCreated w' ''Slot_2'' \<or> retryThreadCreated w' ''Slot_3'') \<and>
        (isSamePath w' = 1 \<longrightarrow> retryThreadCreated w' ''Slot_2'' \<and> retryThreadCreated w' ''Slot_3''))"
proof -
  from assms obtain n where "monitor_rounds E fuel (slot, getMountDirPrefix E w @ slot, n) w = (r, w')"
    by (auto simp: mountMonitorThread_def liftE_def bindM_def getM_def)
  moreover have "fst (slot, getMountDirPrefix E w @ slot, n) \<in> {''Slot_2'', ''Slot_3''}"
    using assms(1) by simp
  ultimately obtain new s1 w1 where new: "hist w' = new @ hist w"
    and "tally is_retry_start new = 0 \<or> tally is_retry_start new = 1 \<and> r = Inr True \<and>
      fst s1 \<in> {''Slot_2'', ''Slot_3''} \<and> retryThreadCreated w1 = retryThreadCreated w \<and> started_now w1 s1 w'"
    by (blast dest: monitor_rounds_start)
  then show ?thesis
    by (intro exI [of _ new]) (auto simp: started_now_def split: if_splits)
qed

theorem retry_started_once_witness:
  "\<exists>new. hist (snd (mountMonitorThread quiet_env 4 ''Slot_2'' sample_creds_world)) = new @ [] \<and>
     tally is_retry_start new \<le> 1"
proof -
  let ?m = "mountMonitorThread quiet_env 4 ''Slot_2'' sample_creds_world"
  have "?m = (fst ?m, snd ?m)" by simp
  from retry_started_once [OF _ this] show ?thesis
    by (auto simp: sample_creds_world_def initial_world_def)
qed

end
