(* ===== verification/Logger.thy ===== *)
theory Logger
  imports CxxString
begin

text \<open>
  \<^verbatim>\<open>src/logger.hpp\<close>: the levels, the name of the file in a message, and the text that is printed. An
  argument is the text that its own stream operator prints. Logging changes no state of the program,
  so that no other theory refers to this one.
\<close>

section \<open>Levels\<close>

datatype level = Struct | Debug | Info | Warning | Error | Critical

fun level_value :: "level \<Rightarrow> int" where
  "level_value Struct = 6"
| "level_value Debug = 5"
| "level_value Info = 4"
| "level_value Warning = 3"
| "level_value Error = 2"
| "level_value Critical = 1"

fun level_name :: "level \<Rightarrow> string" where
  "level_name Struct = ''Struct  ''"
| "level_name Debug = ''Debug   ''"
| "level_name Info = ''Info    ''"
| "level_name Warning = ''Warning ''"
| "level_name Error = ''Error   ''"
| "level_name Critical = ''Critical''"

definition LOG_LEVEL :: level where "LOG_LEVEL = Info"

section \<open>The name of the file\<close>

text \<open>The character of an array of characters, whose last one is the terminator.\<close>

definition char_at :: "string \<Rightarrow> nat \<Rightarrow> char" where
  "char_at s pos = (if pos < length s then s ! pos else CHR 0x00)"

definition is_separator :: "char \<Rightarrow> bool" where
  "is_separator c \<longleftrightarrow> c = CHR ''/'' \<or> c = CHR 0x5C"

fun baseNameImpl :: "string \<Rightarrow> nat \<Rightarrow> string" where
  "baseNameImpl s 0 = s"
| "baseNameImpl s (Suc pos) =
     (if is_separator (char_at s (Suc pos)) then drop (Suc (Suc pos)) s else baseNameImpl s pos)"

definition baseName :: "string \<Rightarrow> string" where
  "baseName s = baseNameImpl s (length s)"

section \<open>Messages\<close>

definition print_vector :: "string list \<Rightarrow> string" where
  "print_vector v = concat (map (\<lambda>i. i @ '' '') v)"

definition logImpl :: "level \<Rightarrow> level \<Rightarrow> string \<Rightarrow> int \<Rightarrow> string \<Rightarrow> string list \<Rightarrow> string option" where
  "logImpl DefinedLogLevel LogLevel file line fname args =
     (if level_value LogLevel \<le> level_value DefinedLogLevel
      then Some (''['' @ level_name LogLevel @ ''] ['' @ file @ '':'' @ to_string line @ ''] '' @ fname @
        ''(): '' @ concat args @ [CHR 0x0A])
      else None)"

definition logMsg :: "level \<Rightarrow> string \<Rightarrow> int \<Rightarrow> string \<Rightarrow> string list \<Rightarrow> string option" where
  "logMsg lvl path line fname args = logImpl LOG_LEVEL lvl (baseName path) line fname args"

section \<open>What is printed\<close>

lemma logMsg_printed:
  "logMsg lvl path line fname args \<noteq> None \<longleftrightarrow> lvl \<noteq> Debug \<and> lvl \<noteq> Struct"
  by (cases lvl) (simp_all add: logMsg_def logImpl_def LOG_LEVEL_def)

lemma level_name_width: "length (level_name lvl) = 8"
  by (cases lvl) simp_all

lemma baseNameImpl_scan:
  assumes "\<And>i. n < i \<Longrightarrow> i \<le> n + k \<Longrightarrow> \<not> is_separator (char_at s i)"
  shows "baseNameImpl s (n + k) = baseNameImpl s n"
  using assms by (induction k) auto

lemma no_separator: "\<not> is_separator (CHR 0x00)"
  by (simp add: is_separator_def)

text \<open>The part after the last separator, if there is one behind the first character.\<close>

theorem baseName_last:
  assumes "d \<noteq> []" and "is_separator c" and "list_all (\<lambda>x. \<not> is_separator x) f"
  shows "baseName (d @ c # f) = f"
proof -
  let ?s = "d @ c # f" and ?n = "length d"
  obtain m where m: "?n = Suc m" using assms(1) by (cases d) auto
  have "\<not> is_separator (char_at ?s i)" if "?n < i" for i
    using that assms(3) no_separator by (auto simp: char_at_def nth_append nth_Cons' list_all_length)
  then have "baseNameImpl ?s (?n + Suc (length f)) = baseNameImpl ?s ?n"
    by (intro baseNameImpl_scan) simp
  also have "\<dots> = f" using assms(2) by (simp add: m char_at_def nth_append)
  finally show ?thesis by (simp add: baseName_def)
qed

text \<open>Otherwise the whole text: a separator in front is kept.\<close>

theorem baseName_whole:
  assumes "list_all (\<lambda>x. \<not> is_separator x) (tl s)"
  shows "baseName s = s"
proof -
  have "\<not> is_separator (char_at s i)" if "0 < i" for i
    using that assms no_separator by (auto simp: char_at_def list_all_length nth_tl dest: spec [of _ "i - 1"])
  then show ?thesis using baseNameImpl_scan [of 0 "length s" s] by (simp add: baseName_def)
qed

end
