(* ===== verification/Spec2Isabelle.thy ===== *)
theory Spec2Isabelle
  imports ServiceDefined Refusal Reconnect Sessions Logger
begin

text \<open>
  The virtual media service: images of CDs and USB sticks, on the client or on a remote share, are shown
  to the host as USB mass storage. This theory imports the development and says what it holds; paths
  are those below \<^verbatim>\<open>src/src/\<close>.

  \<^bold>\<open>The program.\<close>  \<^verbatim>\<open>main.cpp\<close> reads the configuration (\<^verbatim>\<open>configuration.hpp\<close>), makes one state machine per
  mount point (\<^verbatim>\<open>state_machine.hpp\<close>, \<^verbatim>\<open>state/\<close>), and runs the event loop. A machine is driven by D-Bus
  methods, by kernel events of its block device (\<^verbatim>\<open>DeviceMonitor\<close> in \<^verbatim>\<open>system.hpp\<close>), by the end of the
  child that serves the device (\<^verbatim>\<open>Process\<close>), and by two timers. It owns resources (\<^verbatim>\<open>resources.hpp\<close>): a
  child process, a USB gadget (\<^verbatim>\<open>UsbGadget\<close>), mounts of remote shares (\<^verbatim>\<open>nfs.hpp\<close>, \<^verbatim>\<open>smb.hpp\<close>), a file
  with a password (\<^verbatim>\<open>utils.hpp\<close>). Beside the machines stand the service for local media
  (\<^verbatim>\<open>state/initial_state.hpp\<close>), the session monitor and the threads that reconnect remote media
  (\<^verbatim>\<open>system.hpp\<close>), and the retry parameters (\<^verbatim>\<open>vm_interface.cpp\<close>).

  \<^bold>\<open>How it is modelled.\<close>  An operation is a function from a state to a result and a state, where the
  result is the exception thrown (\<open>Inl\<close>) or the value returned (\<open>Inr\<close>); what was changed before an
  exception stays changed. \<open>Prelude\<close> has the composition (\<open>bindM\<close>, \<open>catchM\<close>, \<open>noexceptM\<close> for
  destructors and threads) and the rules for frame properties (\<open>keeps\<close>), for exceptions
  (\<open>throws_only\<close>) and for assertions (\<open>triple\<close>). A destructor at the end of a scope is written out where the
  code has it. Dereferencing a null pointer or an empty optional is the exception \<open>UB\<close>, which no
  handler catches; \<open>Terminate\<close> is \<^verbatim>\<open>std::terminate\<close>.
  \<open>Platform\<close> is the boundary: every system call, D-Bus call and library call of the program is a
  \<open>call\<close>, recorded with its answer in the history of the \<open>world\<close>; the answers are the parameter \<open>env\<close> and
  may depend on the whole history, so that nothing is assumed of the system. The parser and printer of
  JSON texts are parameters too; what the code asks of parsed values is in \<open>Json\<close>. The fields
  \<open>multi_host\<close>, \<open>legacy_mode_enabled\<close> and \<open>verbose_nbdkit_logs\<close> of \<open>env\<close> are the build options.

  \<^bold>\<open>The theories, from the bottom up.\<close>
  \<^item> \<open>Prelude\<close>, \<open>CxxString\<close> (\<^verbatim>\<open>std::string\<close> and the conversions of numbers), \<open>FsPath\<close>
    (\<^verbatim>\<open>std::filesystem::path\<close>), \<open>SortedMap\<close> (\<^verbatim>\<open>std::map\<close>, \<^verbatim>\<open>flat_map\<close>), \<open>Json\<close>, \<open>Platform\<close>.
  \<^item> \<open>NbdDevice\<close>, \<open>DeviceMonitor\<close>, \<open>Process\<close>, \<open>Sessions\<close>, \<open>SlotTools\<close>, \<open>Reconnect\<close>, \<open>UsbGadget\<close>: the parts of
    \<^verbatim>\<open>system.hpp\<close>. The two children that \<^verbatim>\<open>UsbGadget::configure\<close> forks are \<open>eject_child\<close> and \<open>cache_child\<close>.
  \<^item> \<open>Config\<close>: \<^verbatim>\<open>configuration.hpp\<close>. \<open>Secrets\<close>: credentials, the file that holds a password, and the reader
    of the pipe. \<open>Shares\<close>: \<^verbatim>\<open>nfs.hpp\<close>, \<^verbatim>\<open>smb.hpp\<close> and \<^verbatim>\<open>safeMount\<close>. \<open>Notification\<close>: the signal that tells a
    client the outcome, with its timer. \<open>VmInterface\<close>: \<^verbatim>\<open>vm_interface.cpp\<close>. \<open>Resources\<close>: \<^verbatim>\<open>resources.hpp\<close>
    and \<^verbatim>\<open>resources.cpp\<close>. \<open>Logger\<close>: \<^verbatim>\<open>logger.hpp\<close>.
  \<^item> \<open>MachineState\<close>: the record \<open>machine\<close> (\<^verbatim>\<open>MountPointStateMachine\<close>), the states \<open>bstate\<close> with what they
    own, the events of \<^verbatim>\<open>events.hpp\<close>, the destructors. The fields \<open>children\<close>, \<open>stops\<close>, \<open>posted_events\<close>,
    \<open>tick_timer\<close> and \<open>stale_tick\<close> are what the event loop still holds for the machine.
    \<open>Activating\<close>: \<^verbatim>\<open>activating_state.cpp\<close>. \<open>Registration\<close>: \<^verbatim>\<open>initial_state.hpp\<close>. \<open>Machine\<close>: the handlers
    of all states, \<open>changeState\<close>, \<open>emitEvent\<close>, the D-Bus methods, and \<open>loop_step\<close>, one step of the event
    loop for one machine.
  \<^item> \<open>App\<close>: \<^verbatim>\<open>main.cpp\<close>; the machines in one map over one world. \<open>LocalService\<close>: the four methods for local
    media. \<open>Service\<close>: the steps of the whole service, which are the events of the mount points, those of
    the devices, the methods for local media, the signal of the session manager (\<open>sessionCallback\<close>) and
    the change of the retry parameters (\<open>SetAll\<close>).
  \<^item> Proofs over the machine: \<open>Accounting\<close> (the books), \<open>Invariant\<close>, \<open>Reachable\<close>, \<open>Transitions\<close>, \<open>Chart\<close>,
    \<open>Inactivity\<close>, \<open>Refusal\<close>; \<open>Identity\<close>, what every operation keeps; \<open>SafeCalls\<close>, \<open>Defined\<close>, \<open>ServiceDefined\<close>,
    that there is no undefined behaviour in the calls, in the steps of a machine, in those of the service.

  \<^bold>\<open>Interfaces.\<close>  \<open>ordered_map\<close> (what a sorted map promises; interpreted on the flat maps of the program),
  \<open>share_driver\<close> (what a driver of remote shares promises to \<^verbatim>\<open>Mount\<close> and \<^verbatim>\<open>NfsMount\<close>; interpreted on the NFS
  and the CIFS driver), \<open>invariant_system\<close> (states, steps and an invariant; interpreted on the machine of
  one mount point as \<open>mp\<close>, and on the whole service as \<open>svc\<close> for its books and as \<open>svd\<close> for what a step may
  rely on).

  \<^bold>\<open>What is shown.\<close>  The invariant of a machine says which state owns what and balances the books: children
  spawned and not stopped, file systems mounted and not released, counted in the history, are exactly
  those the state owns, with those of the other machines as a parameter. From it follow that a ready
  mount point holds nothing, that at most one child serves a slot, and over the whole service that no
  process and no mount is ever lost. Every step of the event loop is a move of an abstract chart of
  phases; deactivation completes in either order of its two events; requests that do not fit a state are
  refused and change nothing; a request without the credentials it needs starts nothing; no step of the
  service has undefined behaviour but for one known defect (a stale timer handler). A device event
  reaches exactly its mount point; a local mount takes the first free slot after all its checks. For the
  parts: round trips of device names, credentials and retry parameters, exactness of the parsers, the
  flags and the confinement of passwords in mount calls, the order in which a gadget is exposed, bounds
  on waiting and retrying.

  \<^bold>\<open>Bounds.\<close>  \<open>changeState\<close> runs with fuel 2, which \<open>changeState_depth\<close> shows to be enough in every state.
  The loops that may run for ever in the program (the ejection and cache children, the watching thread)
  take their number of rounds as an argument; \<open>cache_drop_ends\<close> says which number is enough. The waiting
  for a child is the 20 pauses of the code; retrying is bounded by its arguments. Numbers of C types with a
  width are words; \<^verbatim>\<open>int\<close>s that are slot numbers, error numbers and answers of calls are small and are
  mathematical integers.

  \<^bold>\<open>Simplifications.\<close>  The local service is made when a registration event has been handled and not inside
  its handler; no call lies between. A handler that the event loop runs ends the process when an exception
  leaves it (\<open>noexceptM\<close>). Log messages have no effect and are left out of the operations; \<open>Logger\<close> and
  \<open>read_console\<close> model their text. The variables that \<^verbatim>\<open>system.hpp\<close> declares \<^verbatim>\<open>static\<close> (\<^verbatim>\<open>activeSessons\<close>,
  \<^verbatim>\<open>is_reconnecting\<close>, \<^verbatim>\<open>retryThreadCreatedMap\<close>) are one field of the world each, as they are meant; compiled
  as they stand, every translation unit has its own copy.

  \<^bold>\<open>Not modelled.\<close>  \<^verbatim>\<open>state/active_state.cpp\<close>, which the build does not compile; \<^verbatim>\<open>NamedPipe\<close> in \<^verbatim>\<open>utils.hpp\<close>,
  which nothing uses; requesting the bus name, the object manager, the umask and the signal handlers of
  \<^verbatim>\<open>main\<close>; the unit tests; build files and units. Data races between the reconnection threads and the event
  loop are out of scope: a thread is the operation it runs.
\<close>

end
